(* ===== verification/Prelude.thy ===== *)
theory Prelude
  imports Main "HOL-Library.Char_ord" "HOL-Library.List_Lexorder"
begin

text \<open>
  The ground layer of the library: Python values, Python exceptions, and the
  state-and-exception functions in which the effectful code is written.

  \<^item> \<open>pyval\<close> is what a parsed JSON document is in Python: the values that travel
    through \<open>data\<close>, \<open>metadata\<close> and \<open>required_fields\<close>. A float is kept as the text
    of its \<open>repr\<close>, which determines it.
  \<^item> A \<open>str\<close> is a list of characters, one per code point; the model covers code
    points below 256. A \<open>bytes\<close> object is a list of characters too, one per byte.
  \<^item> \<open>exn\<close> has one constructor for every exception class that some \<open>except\<close> clause
    of the worker tells apart, and \<open>OtherError\<close> for the rest of \<open>Exception\<close>.
    \<open>CancelledError\<close> is a \<open>BaseException\<close>: no \<open>except Exception\<close> sees it.
  \<^item> \<open>io\<close> is a computation over a world of type \<open>'w\<close>: it ends with a value or an
    exception, and in both cases with the world it has produced, because Python
    keeps the effects that happened before a \<open>raise\<close>.
\<close>

section \<open>Values\<close>

type_synonym bytes = string

datatype pyval =
    PyNone
  | PyBool bool
  | PyInt int
  | PyFloat string
  | PyStr string
  | PyList "pyval list"
  | PyDict "(string \<times> pyval) list"

type_synonym pydict = "(string \<times> pyval) list"

text \<open>\<open>bool(v)\<close>: the falsy values are \<open>None\<close>, \<open>False\<close>, zero and the empty containers.\<close>

fun truthy :: "pyval \<Rightarrow> bool" where
  "truthy PyNone = False"
| "truthy (PyBool b) = b"
| "truthy (PyInt i) = (i \<noteq> 0)"
| "truthy (PyFloat r) = (r \<noteq> ''0.0'' \<and> r \<noteq> ''-0.0'')"
| "truthy (PyStr s) = (s \<noteq> [])"
| "truthy (PyList xs) = (xs \<noteq> [])"
| "truthy (PyDict kvs) = (kvs \<noteq> [])"

text \<open>\<open>type(v).__name__\<close>.\<close>

fun type_name :: "pyval \<Rightarrow> string" where
  "type_name PyNone = ''NoneType''"
| "type_name (PyBool _) = ''bool''"
| "type_name (PyInt _) = ''int''"
| "type_name (PyFloat _) = ''float''"
| "type_name (PyStr _) = ''str''"
| "type_name (PyList _) = ''list''"
| "type_name (PyDict _) = ''dict''"

text \<open>A Python \<open>dict\<close> in insertion order: \<open>d[k] = v\<close> keeps the place of a known key.\<close>

fun dict_set :: "('k \<times> 'v) list \<Rightarrow> 'k \<Rightarrow> 'v \<Rightarrow> ('k \<times> 'v) list" where
  "dict_set [] k v = [(k, v)]"
| "dict_set ((k', v') # d) k v = (if k' = k then (k, v) # d else (k', v') # dict_set d k v)"

lemma map_of_dict_set [simp]: "map_of (dict_set d k v) = (map_of d)(k \<mapsto> v)"
  by (induction d k v rule: dict_set.induct) (auto simp: fun_eq_iff)

lemma keys_dict_set [simp]: "fst ` set (dict_set d k v) = insert k (fst ` set d)"
  by (induction d k v rule: dict_set.induct) auto

lemma distinct_dict_set [intro]:
  "distinct (map fst d) \<Longrightarrow> distinct (map fst (dict_set d k v))"
proof (induction d k v rule: dict_set.induct)
  case (2 k' v' d k v)
  then have "k' \<notin> fst ` set d" by simp
  with 2 show ?case using keys_dict_set [of d k v] by (auto simp del: keys_dict_set)
qed simp

section \<open>Exceptions\<close>

text \<open>The classified failures of \<open>domain/errors.py\<close>, by class.\<close>

datatype docgen_class =
    SchemaValidationError
  | TemplateNotFoundError
  | UnsupportedFormatError
  | RenderError
  | StorageError

datatype exn =
    DocGenError docgen_class string
  | ObjectNotFound string
  | TransientStorageError string
  | ClientError string "int option" string
  | BotoTransportError string
  | TimeoutError string
  | ValueError string
  | OSError string
  | BrokenExecutor string
  | NotFoundError string
  | APIError string
  | RuntimeError string
  | NotImplementedError string
  | OtherError string
  | CancelledError

definition is_Exception :: "exn \<Rightarrow> bool" where
  "is_Exception e \<longleftrightarrow> e \<noteq> CancelledError"

definition is_DocGenError :: "exn \<Rightarrow> bool" where
  "is_DocGenError e = (case e of DocGenError _ _ \<Rightarrow> True | _ \<Rightarrow> False)"

definition is_ValueError :: "exn \<Rightarrow> bool" where
  "is_ValueError e = (case e of ValueError _ \<Rightarrow> True | _ \<Rightarrow> False)"

text \<open>\<open>TimeoutError\<close> is a subclass of \<open>OSError\<close>.\<close>

definition is_OSError :: "exn \<Rightarrow> bool" where
  "is_OSError e = (case e of OSError _ \<Rightarrow> True | TimeoutError _ \<Rightarrow> True | _ \<Rightarrow> False)"

text \<open>nats-py's \<open>NotFoundError\<close> is a subclass of its \<open>APIError\<close>.\<close>

definition is_APIError :: "exn \<Rightarrow> bool" where
  "is_APIError e = (case e of APIError _ \<Rightarrow> True | NotFoundError _ \<Rightarrow> True | _ \<Rightarrow> False)"

lemma exn_classes [simp]:
  "is_Exception CancelledError = False"
  "is_Exception (DocGenError c m) = True" "is_Exception (ObjectNotFound m) = True"
  "is_Exception (TransientStorageError m) = True" "is_Exception (ClientError a b m) = True"
  "is_Exception (BotoTransportError m) = True" "is_Exception (TimeoutError m) = True"
  "is_Exception (ValueError m) = True" "is_Exception (OSError m) = True"
  "is_Exception (BrokenExecutor m) = True" "is_Exception (NotFoundError m) = True"
  "is_Exception (APIError m) = True" "is_Exception (RuntimeError m) = True"
  "is_Exception (NotImplementedError m) = True" "is_Exception (OtherError m) = True"
  "is_DocGenError (DocGenError c m) = True"
  by (simp_all add: is_Exception_def is_DocGenError_def)

lemma is_DocGenError_iff: "is_DocGenError e \<longleftrightarrow> (\<exists>c m. e = DocGenError c m)"
  by (cases e) (simp_all add: is_DocGenError_def)

text \<open>\<open>str(exc)\<close>.\<close>

fun exn_str :: "exn \<Rightarrow> string" where
  "exn_str (DocGenError _ m) = m"
| "exn_str (ObjectNotFound m) = m"
| "exn_str (TransientStorageError m) = m"
| "exn_str (ClientError _ _ m) = m"
| "exn_str (BotoTransportError m) = m"
| "exn_str (TimeoutError m) = m"
| "exn_str (ValueError m) = m"
| "exn_str (OSError m) = m"
| "exn_str (BrokenExecutor m) = m"
| "exn_str (NotFoundError m) = m"
| "exn_str (APIError m) = m"
| "exn_str (RuntimeError m) = m"
| "exn_str (NotImplementedError m) = m"
| "exn_str (OtherError m) = m"
| "exn_str CancelledError = []"

section \<open>Computations with effects and exceptions\<close>

type_synonym ('w, 'a) io = "'w \<Rightarrow> (exn + 'a) \<times> 'w"

definition ret :: "'a \<Rightarrow> ('w, 'a) io" where
  "ret x = (\<lambda>w. (Inr x, w))"

definition raise :: "exn \<Rightarrow> ('w, 'a) io" where
  "raise e = (\<lambda>w. (Inl e, w))"

text \<open>\<open>and_then m f\<close>: run \<open>m\<close>, then \<open>f\<close> on its value; an exception skips \<open>f\<close>.\<close>

definition and_then :: "('w, 'a) io \<Rightarrow> ('a \<Rightarrow> ('w, 'b) io) \<Rightarrow> ('w, 'b) io" where
  "and_then m f = (\<lambda>w. case m w of (Inl e, w') \<Rightarrow> (Inl e, w') | (Inr x, w') \<Rightarrow> f x w')"

text \<open>
  \<open>try_except m p h\<close>: the statement \<open>try: m except <the classes p>: h\<close>; an exception
  outside \<open>p\<close> propagates. \<open>suppress m\<close> is \<open>with contextlib.suppress(Exception): m\<close>.
\<close>

definition try_except ::
  "('w, 'a) io \<Rightarrow> (exn \<Rightarrow> bool) \<Rightarrow> (exn \<Rightarrow> ('w, 'a) io) \<Rightarrow> ('w, 'a) io" where
  "try_except m p h =
     (\<lambda>w. case m w of (Inl e, w') \<Rightarrow> (if p e then h e w' else (Inl e, w')) | (Inr x, w') \<Rightarrow> (Inr x, w'))"

definition suppress :: "('w, unit) io \<Rightarrow> ('w, unit) io" where
  "suppress m = try_except m is_Exception (\<lambda>_. ret ())"

text \<open>\<open>try_finally m f\<close>: \<open>f\<close> runs in every case; its own exception replaces the outcome.\<close>

definition try_finally :: "('w, 'a) io \<Rightarrow> ('w, unit) io \<Rightarrow> ('w, 'a) io" where
  "try_finally m f =
     (\<lambda>w. case m w of (r, w') \<Rightarrow> (case f w' of (Inl e, w'') \<Rightarrow> (Inl e, w'') | (Inr _, w'') \<Rightarrow> (r, w'')))"

text \<open>A pure call that may raise, as a computation.\<close>

definition lift_result :: "exn + 'a \<Rightarrow> ('w, 'a) io" where
  "lift_result r = (\<lambda>w. (r, w))"

text \<open>Sequencing of pure calls that may raise.\<close>

definition res_bind :: "exn + 'a \<Rightarrow> ('a \<Rightarrow> exn + 'b) \<Rightarrow> exn + 'b" where
  "res_bind r f = (case r of Inl e \<Rightarrow> Inl e | Inr x \<Rightarrow> f x)"

lemma res_bind_simps [simp]: "res_bind (Inl e) f = Inl e" "res_bind (Inr x) f = f x"
  by (simp_all add: res_bind_def)

lemma res_bind_Inr: "res_bind r f = Inr y \<longleftrightarrow> (\<exists>x. r = Inr x \<and> f x = Inr y)"
  by (cases r) simp_all

lemma res_bind_Inl: "res_bind r f = Inl e \<longleftrightarrow> r = Inl e \<or> (\<exists>x. r = Inr x \<and> f x = Inl e)"
  by (cases r) simp_all

named_theorems io_simps \<open>evaluation of the effect combinators\<close>

lemma ret_run [simp, io_simps]: "ret x w = (Inr x, w)"
  by (simp add: ret_def)

lemma raise_run [simp, io_simps]: "raise e w = (Inl e, w)"
  by (simp add: raise_def)

lemma lift_result_run [simp, io_simps]: "lift_result r w = (r, w)"
  by (simp add: lift_result_def)

lemma and_then_run [io_simps]:
  "and_then m f w = (case m w of (Inl e, w') \<Rightarrow> (Inl e, w') | (Inr x, w') \<Rightarrow> f x w')"
  by (simp add: and_then_def)

lemma try_except_run [io_simps]:
  "try_except m p h w =
     (case m w of (Inl e, w') \<Rightarrow> (if p e then h e w' else (Inl e, w')) | (Inr x, w') \<Rightarrow> (Inr x, w'))"
  by (simp add: try_except_def)

lemma suppress_run [io_simps]:
  "suppress m w =
     (case m w of (Inl e, w') \<Rightarrow> (if is_Exception e then (Inr (), w') else (Inl e, w')) | (Inr x, w') \<Rightarrow> (Inr x, w'))"
  by (auto simp: suppress_def try_except_def split: prod.splits sum.splits)

lemma try_finally_run [io_simps]:
  "try_finally m f w =
     (case m w of (r, w') \<Rightarrow> (case f w' of (Inl e, w'') \<Rightarrow> (Inl e, w'') | (Inr _, w'') \<Rightarrow> (r, w'')))"
  by (simp add: try_finally_def)

lemma and_then_InrE:
  assumes "and_then m f w = (Inr y, w'')"
  obtains x w' where "m w = (Inr x, w')" and "f x w' = (Inr y, w'')"
  using assms by (auto simp: and_then_def split: prod.splits sum.splits)

lemma and_then_InlE:
  assumes "and_then m f w = (Inl e, w'')"
  obtains (first) "m w = (Inl e, w'')" | (second) x w' where "m w = (Inr x, w')" "f x w' = (Inl e, w'')"
  using assms by (auto simp: and_then_def split: prod.splits sum.splits)

text \<open>
  A relation between the world before and after that every step of a computation keeps,
  whatever the outcome: \<open>preserves R m\<close>. Used for "the trace only grows", "no write leaves
  the cache directory", and the like.
\<close>

definition preserves :: "('w \<Rightarrow> 'w \<Rightarrow> bool) \<Rightarrow> ('w, 'a) io \<Rightarrow> bool" where
  "preserves R m \<longleftrightarrow> (\<forall>w r w'. m w = (r, w') \<longrightarrow> R w w')"

named_theorems preserves_intros \<open>rules for preserved relations\<close>

lemma preservesI: "(\<And>w r w'. m w = (r, w') \<Longrightarrow> R w w') \<Longrightarrow> preserves R m"
  by (simp add: preserves_def)

lemma preservesD: "preserves R m \<Longrightarrow> m w = (r, w') \<Longrightarrow> R w w'"
  by (simp add: preserves_def)

lemma preserves_ret [preserves_intros]: "reflp R \<Longrightarrow> preserves R (ret x)"
  by (simp add: preserves_def ret_def reflp_def)

lemma preserves_raise [preserves_intros]: "reflp R \<Longrightarrow> preserves R (raise e)"
  by (simp add: preserves_def raise_def reflp_def)

lemma preserves_lift [preserves_intros]: "reflp R \<Longrightarrow> preserves R (lift_result r)"
  by (simp add: preserves_def lift_result_def reflp_def)

lemma preserves_Pair [preserves_intros]: "reflp R \<Longrightarrow> preserves R (Pair r)"
  by (simp add: preserves_def reflp_def)

lemma preserves_and_then [preserves_intros]:
  assumes "transp R" "preserves R m" "\<And>x. preserves R (f x)"
  shows "preserves R (and_then m f)"
  using assms unfolding preserves_def and_then_def
  by (auto split: prod.splits sum.splits dest: transpD)
    (meson transpD)

lemma preserves_try_except [preserves_intros]:
  assumes "transp R" "preserves R m" "\<And>e. preserves R (h e)"
  shows "preserves R (try_except m p h)"
  using assms unfolding preserves_def try_except_def
  by (auto split: prod.splits sum.splits if_splits dest: transpD)
    (meson transpD)

lemma preserves_suppress [preserves_intros]:
  "transp R \<Longrightarrow> reflp R \<Longrightarrow> preserves R m \<Longrightarrow> preserves R (suppress m)"
  unfolding suppress_def by (intro preserves_try_except preserves_ret)

lemma preserves_try_finally [preserves_intros]:
  assumes "transp R" "preserves R m" "preserves R f"
  shows "preserves R (try_finally m f)"
  using assms unfolding preserves_def try_finally_def
  by (auto split: prod.splits sum.splits dest: transpD)
    (meson transpD)+

text \<open>The same, where the second step may rely on how the first one returned.\<close>

lemma preserves_and_then_dep:
  assumes "transp R" "preserves R m" "\<And>x w w'. m w = (Inr x, w') \<Longrightarrow> preserves R (f x)"
  shows "preserves R (and_then m f)"
proof (rule preservesI)
  fix w r w''
  assume run: "and_then m f w = (r, w'')"
  obtain q w' where m: "m w = (q, w')" by (cases "m w")
  show "R w w''"
  proof (cases q)
    case (Inl e)
    with run m assms(2) show ?thesis by (auto simp: and_then_def preserves_def)
  next
    case (Inr x)
    then have "R w' w''" using run m assms(3) by (auto simp: and_then_def preserves_def)
    with preservesD [OF assms(2) m] assms(1) show ?thesis by (auto dest: transpD)
  qed
qed

end
