(* ===== verification/PyText.thy ===== *)
theory PyText
  imports Prelude
begin

text \<open>
  The operations of Python's \<open>str\<close> that the worker uses, on lists of characters (one per
  code point, code points below 256): stripping, partitioning and splitting at a separator,
  \<open>lower\<close>, \<open>repr\<close>, decimal numerals, and \<open>str()\<close> of a parsed JSON value. The lemmas say
  how stripping and splitting act on the results.
\<close>

section \<open>Stripping one character\<close>

definition lstrip_char :: "char \<Rightarrow> string \<Rightarrow> string" where
  "lstrip_char c s = dropWhile (\<lambda>x. x = c) s"

definition rstrip_char :: "char \<Rightarrow> string \<Rightarrow> string" where
  "rstrip_char c s = rev (dropWhile (\<lambda>x. x = c) (rev s))"

definition strip_char :: "char \<Rightarrow> string \<Rightarrow> string" where
  "strip_char c s = rstrip_char c (lstrip_char c s)"

named_theorems text_simps \<open>how the string operations combine\<close>

lemma lstrip_char_Nil [simp]: "lstrip_char c [] = []"
  by (simp add: lstrip_char_def)

lemma rstrip_char_Nil [simp]: "rstrip_char c [] = []"
  by (simp add: rstrip_char_def)

lemma dropWhile_replicate_append [simp]:
  "dropWhile (\<lambda>x. x = c) (replicate n c @ s) = dropWhile (\<lambda>x. x = c) s"
  by (induction n) auto

lemma lstrip_char_replicate [text_simps]: "lstrip_char c (replicate n c @ s) = lstrip_char c s"
  by (simp add: lstrip_char_def)

lemma rstrip_char_replicate [text_simps]: "rstrip_char c (s @ replicate n c) = rstrip_char c s"
  by (simp add: rstrip_char_def)

lemma lstrip_char_only [simp]: "lstrip_char c (replicate n c) = []"
  using lstrip_char_replicate [of c n "[]"] by simp

lemma rstrip_char_only [simp]: "rstrip_char c (replicate n c) = []"
  using rstrip_char_replicate [of c "[]" n] by simp

lemma lstrip_char_hd: "lstrip_char c s \<noteq> [] \<Longrightarrow> hd (lstrip_char c s) \<noteq> c"
  using hd_dropWhile [of "\<lambda>x. x = c" s] by (simp add: lstrip_char_def)

lemma rstrip_char_last: "rstrip_char c s \<noteq> [] \<Longrightarrow> last (rstrip_char c s) \<noteq> c"
  using hd_dropWhile [of "\<lambda>x. x = c" "rev s"] by (simp add: rstrip_char_def last_rev)

lemma lstrip_char_id: "s = [] \<or> hd s \<noteq> c \<Longrightarrow> lstrip_char c s = s"
  by (cases s) (auto simp: lstrip_char_def)

lemma rstrip_char_id: "s = [] \<or> last s \<noteq> c \<Longrightarrow> rstrip_char c s = s"
  by (cases s rule: rev_cases) (auto simp: rstrip_char_def)

lemma lstrip_char_idem [text_simps]: "lstrip_char c (lstrip_char c s) = lstrip_char c s"
  by (metis lstrip_char_hd lstrip_char_id)

lemma rstrip_char_idem [text_simps]: "rstrip_char c (rstrip_char c s) = rstrip_char c s"
  by (metis rstrip_char_id rstrip_char_last)

text \<open>Stripping removes a run of the character and nothing else.\<close>

lemma takeWhile_eq_replicate: "takeWhile (\<lambda>x. x = c) s = replicate (length (takeWhile (\<lambda>x. x = c) s)) c"
  by (induction s) auto

lemma lstrip_char_decomp: "\<exists>n. s = replicate n c @ lstrip_char c s"
proof -
  have "s = takeWhile (\<lambda>x. x = c) s @ lstrip_char c s" by (simp add: lstrip_char_def)
  then show ?thesis using takeWhile_eq_replicate [of c s] by metis
qed

lemma rstrip_char_decomp: "\<exists>n. s = rstrip_char c s @ replicate n c"
proof -
  obtain n where "rev s = replicate n c @ lstrip_char c (rev s)"
    using lstrip_char_decomp [of "rev s" c] by blast
  then have "s = rev (lstrip_char c (rev s)) @ replicate n c"
    by (metis rev_append rev_replicate rev_rev_ident)
  then show ?thesis by (auto simp: rstrip_char_def lstrip_char_def)
qed

lemma lstrip_char_append:
  "lstrip_char c (s @ t) = (if lstrip_char c s = [] then lstrip_char c t else lstrip_char c s @ t)"
  by (simp add: lstrip_char_def dropWhile_append dropWhile_eq_Nil_conv)

lemma rstrip_char_append:
  "rstrip_char c (s @ t) = (if rstrip_char c t = [] then rstrip_char c s else s @ rstrip_char c t)"
  by (simp add: rstrip_char_def dropWhile_append dropWhile_eq_Nil_conv)

lemma strip_char_hd: "strip_char c s \<noteq> [] \<Longrightarrow> hd (strip_char c s) \<noteq> c"
proof -
  assume ne: "strip_char c s \<noteq> []"
  obtain n where d: "lstrip_char c s = strip_char c s @ replicate n c"
    using rstrip_char_decomp [of "lstrip_char c s" c] by (auto simp: strip_char_def)
  with ne have "hd (strip_char c s) = hd (lstrip_char c s)" and "lstrip_char c s \<noteq> []"
    by (metis hd_append2, metis append_is_Nil_conv)
  then show ?thesis using lstrip_char_hd by metis
qed

lemma strip_char_last: "strip_char c s \<noteq> [] \<Longrightarrow> last (strip_char c s) \<noteq> c"
  by (simp add: strip_char_def rstrip_char_last)

lemma strip_char_id: "s = [] \<or> (hd s \<noteq> c \<and> last s \<noteq> c) \<Longrightarrow> strip_char c s = s"
  by (auto simp: strip_char_def lstrip_char_id rstrip_char_id)

section \<open>White space and case\<close>

text \<open>\<open>str.isspace\<close> of one character, below code point 256.\<close>

definition is_space :: "char \<Rightarrow> bool" where
  "is_space c = (let n = of_char c :: nat in
     (9 \<le> n \<and> n \<le> 13) \<or> (28 \<le> n \<and> n \<le> 32) \<or> n = 133 \<or> n = 160)"

definition strip_ws :: "string \<Rightarrow> string" where
  "strip_ws s = rev (dropWhile is_space (rev (dropWhile is_space s)))"

text \<open>\<open>str.lower\<close>: the upper-case letters below code point 256 lie 32 below their lower-case forms.\<close>

definition lower_char :: "char \<Rightarrow> char" where
  "lower_char c = (let n = of_char c :: nat in
     if (65 \<le> n \<and> n \<le> 90) \<or> (192 \<le> n \<and> n \<le> 222 \<and> n \<noteq> 215) then char_of (n + 32) else c)"

definition lower :: "string \<Rightarrow> string" where
  "lower s = map lower_char s"

section \<open>Prefixes, suffixes and separators\<close>

definition startswith :: "string \<Rightarrow> string \<Rightarrow> bool" where
  "startswith s p \<longleftrightarrow> take (length p) s = p"

definition endswith_char :: "string \<Rightarrow> char \<Rightarrow> bool" where
  "endswith_char s c \<longleftrightarrow> s \<noteq> [] \<and> last s = c"

lemma startswith_append [simp]: "startswith (p @ s) p"
  by (simp add: startswith_def)

lemma startswith_iff: "startswith s p \<longleftrightarrow> (\<exists>t. s = p @ t)"
  by (metis append_take_drop_id startswith_append startswith_def)

text \<open>
  \<open>s.partition(c)\<close> splits at the first \<open>c\<close>; without one the whole string is the head.
  \<open>s.rpartition(c)\<close> splits at the last; without one the whole string is the tail. The flag
  says whether the separator was found.
\<close>

definition partition_char :: "char \<Rightarrow> string \<Rightarrow> string \<times> bool \<times> string" where
  "partition_char c s =
     (if c \<in> set s then (takeWhile (\<lambda>x. x \<noteq> c) s, True, tl (dropWhile (\<lambda>x. x \<noteq> c) s))
      else (s, False, []))"

definition rpartition_char :: "char \<Rightarrow> string \<Rightarrow> string \<times> bool \<times> string" where
  "rpartition_char c s =
     (if c \<in> set s
      then (rev (tl (dropWhile (\<lambda>x. x \<noteq> c) (rev s))), True, rev (takeWhile (\<lambda>x. x \<noteq> c) (rev s)))
      else ([], False, s))"

lemma partition_char_append [simp]:
  "c \<notin> set a \<Longrightarrow> partition_char c (a @ c # b) = (a, True, b)"
  by (simp add: partition_char_def takeWhile_append dropWhile_append)

lemma rpartition_char_append [simp]:
  "c \<notin> set b \<Longrightarrow> rpartition_char c (a @ c # b) = (a, True, b)"
  by (simp add: rpartition_char_def takeWhile_append dropWhile_append)

lemma partition_char_none [simp]: "c \<notin> set s \<Longrightarrow> partition_char c s = (s, False, [])"
  by (simp add: partition_char_def)

lemma rpartition_char_none [simp]: "c \<notin> set s \<Longrightarrow> rpartition_char c s = ([], False, s)"
  by (simp add: rpartition_char_def)

text \<open>\<open>s.rsplit(c, 1)[-1]\<close>: what follows the last \<open>c\<close>, or all of \<open>s\<close>.\<close>

definition after_last :: "char \<Rightarrow> string \<Rightarrow> string" where
  "after_last c s = rev (takeWhile (\<lambda>x. x \<noteq> c) (rev s))"

lemma after_last_append [simp]: "c \<notin> set b \<Longrightarrow> after_last c (a @ c # b) = b"
  by (simp add: after_last_def takeWhile_append)

lemma after_last_none [simp]:
  assumes "c \<notin> set s"
  shows "after_last c s = s"
proof -
  from assms have "takeWhile (\<lambda>x. x \<noteq> c) (rev s) = rev s"
    by (auto simp: takeWhile_eq_all_conv)
  then show ?thesis by (simp only: after_last_def rev_rev_ident)
qed

lemma after_last_no_sep [simp]: "c \<notin> set (after_last c s)"
  by (auto simp: after_last_def dest: set_takeWhileD)

text \<open>\<open>s.split(c)\<close>.\<close>

fun split_char :: "char \<Rightarrow> string \<Rightarrow> string list" where
  "split_char c [] = [[]]"
| "split_char c (x # s) =
     (if x = c then [] # split_char c s
      else (case split_char c s of [] \<Rightarrow> [[x]] | p # ps \<Rightarrow> (x # p) # ps))"

lemma split_char_nonempty [simp]: "split_char c s \<noteq> []"
  by (cases s) (auto split: list.splits)

lemma split_char_append_sep:
  "split_char c (a @ c # b) = split_char c a @ split_char c b"
  by (induction a) (auto split: list.splits simp: Cons_eq_append_conv)

lemma split_char_no_sep: "c \<notin> set s \<Longrightarrow> split_char c s = [s]"
  by (induction s) auto

lemma split_char_parts: "p \<in> set (split_char c s) \<Longrightarrow> c \<notin> set p"
proof (induction s arbitrary: p)
  case (Cons x s)
  then show ?case by (fastforce split: if_splits list.splits)
qed simp

text \<open>\<open>sep.join(parts)\<close>.\<close>

fun join :: "string \<Rightarrow> string list \<Rightarrow> string" where
  "join sep [] = []"
| "join sep [s] = s"
| "join sep (s # t # ss) = s @ sep @ join sep (t # ss)"

lemma split_char_join: "join [c] (split_char c s) = s"
proof (induction s)
  case (Cons x s)
  obtain p ps where p: "split_char c s = p # ps"
    using split_char_nonempty [of c s] by (meson list.exhaust)
  with Cons show ?case by (cases ps) auto
qed simp

section \<open>Numerals and printed forms\<close>

definition digit_char :: "nat \<Rightarrow> char" where
  "digit_char n = char_of (48 + n)"

fun nat_str :: "nat \<Rightarrow> string" where
  "nat_str n = (if n < 10 then [digit_char n] else nat_str (n div 10) @ [digit_char (n mod 10)])"

declare nat_str.simps [simp del]

definition int_str :: "int \<Rightarrow> string" where
  "int_str i = (if i < 0 then CHR ''-'' # nat_str (nat (- i)) else nat_str (nat i))"

definition hex_char :: "nat \<Rightarrow> char" where
  "hex_char n = (if n < 10 then char_of (48 + n) else char_of (87 + n))"

text \<open>
  \<open>repr\<close> of a string: single quotes, unless the text has a single quote and no double quote;
  the backslash, the quote in use and the non-printable characters are escaped.
\<close>

definition repr_char :: "char \<Rightarrow> char \<Rightarrow> string" where
  "repr_char q c = (let n = of_char c :: nat in
     if c = q \<or> n = 92 then [CHR 0x5C, c]
     else if n = 10 then [CHR 0x5C, CHR ''n'']
     else if n = 13 then [CHR 0x5C, CHR ''r'']
     else if n = 9 then [CHR 0x5C, CHR ''t'']
     else if n < 32 \<or> (127 \<le> n \<and> n \<le> 160) \<or> n = 173
       then [CHR 0x5C, CHR ''x'', hex_char (n div 16), hex_char (n mod 16)]
     else [c])"

definition py_repr :: "string \<Rightarrow> string" where
  "py_repr s = (let q = (if CHR 0x27 \<in> set s \<and> CHR 0x22 \<notin> set s then CHR 0x22 else CHR 0x27)
     in q # concat (map (repr_char q) s) @ [q])"

definition repr_list :: "string list \<Rightarrow> string" where
  "repr_list ss = ''['' @ join '', '' (map py_repr ss) @ '']''"

text \<open>\<open>repr\<close> and \<open>str\<close> of a parsed JSON value.\<close>

fun repr_val :: "pyval \<Rightarrow> string" where
  "repr_val PyNone = ''None''"
| "repr_val (PyBool b) = (if b then ''True'' else ''False'')"
| "repr_val (PyInt i) = int_str i"
| "repr_val (PyFloat r) = r"
| "repr_val (PyStr s) = py_repr s"
| "repr_val (PyList xs) = ''['' @ join '', '' (map repr_val xs) @ '']''"
| "repr_val (PyDict kvs) =
     ''{'' @ join '', '' (map (\<lambda>kv. py_repr (fst kv) @ '': '' @ repr_val (snd kv)) kvs) @ ''}''"

fun str_val :: "pyval \<Rightarrow> string" where
  "str_val (PyStr s) = s"
| "str_val v = repr_val v"

lemma nat_str_nonempty: "nat_str n \<noteq> []"
  by (subst nat_str.simps) simp

lemma int_str_nonempty [simp]: "int_str i \<noteq> []"
  by (simp add: int_str_def nat_str_nonempty)

section \<open>Encoding\<close>

text \<open>\<open>s.encode("utf-8")\<close>: code points below 128 are one byte, the others below 256 two.\<close>

definition utf8_char :: "char \<Rightarrow> string" where
  "utf8_char c =
     (let n = of_char c :: nat
      in if n < 128 then [c] else [char_of (192 + n div 64), char_of (128 + n mod 64)])"

definition encode_utf8 :: "string \<Rightarrow> string" where
  "encode_utf8 s = concat (map utf8_char s)"

lemma encode_utf8_ascii: "list_all (\<lambda>c. of_char c < (128 :: nat)) s \<Longrightarrow> encode_utf8 s = s"
  by (induction s) (auto simp: encode_utf8_def utf8_char_def)

end
