(* ===== verification/Errors.thy ===== *)
theory Errors
  imports PyText
begin

text \<open>
  \<open>domain/errors.py\<close>: the error codes and, per class of classified failure, the code and
  the \<open>permanent\<close> flag that decides both what the caller is told and how the message is
  acknowledged. The classes themselves (\<open>docgen_class\<close>) are in \<open>Prelude\<close>, next to the
  other exceptions.
\<close>

datatype error_code =
    VALIDATION_ERROR
  | TEMPLATE_NOT_FOUND
  | UNSUPPORTED_FORMAT
  | RENDER_ERROR
  | STORAGE_ERROR

text \<open>\<open>str(code)\<close> of the \<open>StrEnum\<close> member.\<close>

fun code_str :: "error_code \<Rightarrow> string" where
  "code_str VALIDATION_ERROR = ''VALIDATION_ERROR''"
| "code_str TEMPLATE_NOT_FOUND = ''TEMPLATE_NOT_FOUND''"
| "code_str UNSUPPORTED_FORMAT = ''UNSUPPORTED_FORMAT''"
| "code_str RENDER_ERROR = ''RENDER_ERROR''"
| "code_str STORAGE_ERROR = ''STORAGE_ERROR''"

fun class_code :: "docgen_class \<Rightarrow> error_code" where
  "class_code SchemaValidationError = VALIDATION_ERROR"
| "class_code TemplateNotFoundError = TEMPLATE_NOT_FOUND"
| "class_code UnsupportedFormatError = UNSUPPORTED_FORMAT"
| "class_code RenderError = RENDER_ERROR"
| "class_code StorageError = STORAGE_ERROR"

fun class_permanent :: "docgen_class \<Rightarrow> bool" where
  "class_permanent SchemaValidationError = True"
| "class_permanent TemplateNotFoundError = True"
| "class_permanent UnsupportedFormatError = True"
| "class_permanent RenderError = False"
| "class_permanent StorageError = False"

text \<open>\<open>exc.__class__.__name__\<close>.\<close>

fun class_name :: "docgen_class \<Rightarrow> string" where
  "class_name SchemaValidationError = ''SchemaValidationError''"
| "class_name TemplateNotFoundError = ''TemplateNotFoundError''"
| "class_name UnsupportedFormatError = ''UnsupportedFormatError''"
| "class_name RenderError = ''RenderError''"
| "class_name StorageError = ''StorageError''"

lemma code_str_inject [simp]: "code_str a = code_str b \<longleftrightarrow> a = b"
  by (cases a; cases b) simp_all

lemma class_code_inject [simp]: "class_code a = class_code b \<longleftrightarrow> a = b"
  by (cases a; cases b) simp_all

lemma class_name_nonempty [simp]: "class_name c \<noteq> []"
  by (cases c) simp_all

end
