(* ===== verification/Models.thy ===== *)
theory Models
  imports Errors "HOL-Library.Monad_Syntax"
begin

text \<open>
  \<open>domain/models.py\<close>: the request, the result and the manifest, how they are read from
  parsed JSON, and the manifest's derived values.

  The classes are pydantic models. What the source declares is modelled here: which fields
  there are, which are required, the defaults, \<open>min_length\<close> and \<open>ge\<close>, unknown fields
  ignored or forbidden, and the validators the source writes itself. What pydantic itself
  does is the parameter \<open>pydantic\<close>: the JSON parser, the conversions of a JSON value to
  \<open>int\<close> and \<open>bool\<close>, the text of a \<open>ValidationError\<close>, and the JSON printer.
\<close>

section \<open>Output formats and engines\<close>

datatype output_format = PDF | XLSX | DOCX | HTML

datatype engine = JINJA_HTML | XLSX_ENGINE | DOCX_ENGINE | PDF_FORM

datatype generation_status = SUCCESS | FAILED

fun format_value :: "output_format \<Rightarrow> string" where
  "format_value PDF = ''pdf''"
| "format_value XLSX = ''xlsx''"
| "format_value DOCX = ''docx''"
| "format_value HTML = ''html''"

fun engine_value :: "engine \<Rightarrow> string" where
  "engine_value JINJA_HTML = ''jinja-html''"
| "engine_value XLSX_ENGINE = ''xlsx''"
| "engine_value DOCX_ENGINE = ''docx''"
| "engine_value PDF_FORM = ''pdf-form''"

fun engine_name :: "engine \<Rightarrow> string" where
  "engine_name JINJA_HTML = ''JINJA_HTML''"
| "engine_name XLSX_ENGINE = ''XLSX''"
| "engine_name DOCX_ENGINE = ''DOCX''"
| "engine_name PDF_FORM = ''PDF_FORM''"

fun status_value :: "generation_status \<Rightarrow> string" where
  "status_value SUCCESS = ''success''"
| "status_value FAILED = ''failed''"

text \<open>The members of the enums, and the order of \<open>StrEnum\<close> members (that of their values).\<close>

instantiation output_format :: enum
begin

definition "enum_output_format = [PDF, XLSX, DOCX, HTML]"
definition "enum_all_output_format P \<longleftrightarrow> P PDF \<and> P XLSX \<and> P DOCX \<and> P HTML"
definition "enum_ex_output_format P \<longleftrightarrow> P PDF \<or> P XLSX \<or> P DOCX \<or> P HTML"

instance
proof
  show univ: "(UNIV :: output_format set) = set Enum.enum"
    using output_format.exhaust by (auto simp: enum_output_format_def)
  show "distinct (Enum.enum :: output_format list)"
    by (simp add: enum_output_format_def)
  show "Enum.enum_all P \<longleftrightarrow> Ball UNIV P" for P :: "output_format \<Rightarrow> bool"
    by (metis (full_types) UNIV_I enum_all_output_format_def output_format.exhaust)
  show "Enum.enum_ex P \<longleftrightarrow> Bex UNIV P" for P :: "output_format \<Rightarrow> bool"
    by (metis (full_types) UNIV_I enum_ex_output_format_def output_format.exhaust)
qed

end

instantiation engine :: enum
begin

definition "enum_engine = [JINJA_HTML, XLSX_ENGINE, DOCX_ENGINE, PDF_FORM]"
definition "enum_all_engine P \<longleftrightarrow> P JINJA_HTML \<and> P XLSX_ENGINE \<and> P DOCX_ENGINE \<and> P PDF_FORM"
definition "enum_ex_engine P \<longleftrightarrow> P JINJA_HTML \<or> P XLSX_ENGINE \<or> P DOCX_ENGINE \<or> P PDF_FORM"

instance
proof
  show univ: "(UNIV :: engine set) = set Enum.enum"
    using engine.exhaust by (auto simp: enum_engine_def)
  show "distinct (Enum.enum :: engine list)"
    by (simp add: enum_engine_def)
  show "Enum.enum_all P \<longleftrightarrow> Ball UNIV P" for P :: "engine \<Rightarrow> bool"
    by (metis (full_types) UNIV_I enum_all_engine_def engine.exhaust)
  show "Enum.enum_ex P \<longleftrightarrow> Bex UNIV P" for P :: "engine \<Rightarrow> bool"
    by (metis (full_types) UNIV_I enum_ex_engine_def engine.exhaust)
qed

end

lemma engine_value_inject [simp]: "engine_value a = engine_value b \<longleftrightarrow> a = b"
  by (cases a; cases b) simp_all

lemma format_value_inject [simp]: "format_value a = format_value b \<longleftrightarrow> a = b"
  by (cases a; cases b) simp_all

instantiation engine :: linorder
begin

definition "less_eq_engine a b \<longleftrightarrow> engine_value a \<le> engine_value b"
definition "less_engine a b \<longleftrightarrow> engine_value a < engine_value b"

instance
  proof
  fix x y z :: engine
  show "x < y \<longleftrightarrow> x \<le> y \<and> \<not> y \<le> x"
    by (simp add: less_eq_engine_def less_engine_def less_le_not_le)
  show "x \<le> x"
    by (simp add: less_eq_engine_def)
  show "x \<le> y \<Longrightarrow> y \<le> z \<Longrightarrow> x \<le> z"
    unfolding less_eq_engine_def by (rule order_trans)
  show "x \<le> y \<Longrightarrow> y \<le> x \<Longrightarrow> x = y"
    unfolding less_eq_engine_def using engine_value_inject by (metis order_antisym)
  show "x \<le> y \<or> y \<le> x"
    unfolding less_eq_engine_def by (rule linear)
qed

end

text \<open>\<open>_CONTENT_TYPES\<close> and the two properties of \<open>OutputFormat\<close>.\<close>

fun content_type :: "output_format \<Rightarrow> string" where
  "content_type PDF = ''application/pdf''"
| "content_type XLSX = ''application/vnd.openxmlformats-officedocument.spreadsheetml.sheet''"
| "content_type DOCX = ''application/vnd.openxmlformats-officedocument.wordprocessingml.document''"
| "content_type HTML = ''text/html; charset=utf-8''"

definition extension :: "output_format \<Rightarrow> string" where
  "extension f = format_value f"

text \<open>
  \<open>_DEFAULT_ENTRYPOINT\<close> and the check that runs when the module is imported: a table that
  misses an engine stops the program there.
\<close>

definition default_entrypoint :: "(engine \<times> string) list" where
  "default_entrypoint =
     [(JINJA_HTML, ''template.html''), (XLSX_ENGINE, ''template.xlsx''),
      (DOCX_ENGINE, ''template.docx''), (PDF_FORM, ''template.pdf'')]"

definition repr_engine :: "engine \<Rightarrow> string" where
  "repr_engine e = ''<Engine.'' @ engine_name e @ '': '' @ py_repr (engine_value e) @ ''>''"

definition check_entrypoints :: "(engine \<times> string) list \<Rightarrow> exn + unit" where
  "check_entrypoints table =
     (if set (map fst table) \<noteq> set Enum.enum
      then Inl (RuntimeError (''every Engine needs a default entrypoint; missing ['' @
        join '', '' (map repr_engine (sort (filter (\<lambda>e. e \<notin> set (map fst table)) Enum.enum))) @ '']''))
      else Inr ())"

section \<open>Pydantic\<close>

record pydantic =
  pd_loads :: "bytes \<Rightarrow> string + pyval"
  pd_int :: "pyval \<Rightarrow> int option"
  pd_bool :: "pyval \<Rightarrow> bool option"
  pd_error :: "string \<Rightarrow> pyval \<Rightarrow> string"
  pd_dumps :: "pyval \<Rightarrow> string"

text \<open>
  Documented behaviour the worker relies on: a JSON integer is read as that integer and a
  JSON boolean as that boolean.
\<close>

definition pydantic_ok :: "pydantic \<Rightarrow> bool" where
  "pydantic_ok pd \<longleftrightarrow> (\<forall>i. pd_int pd (PyInt i) = Some i) \<and> (\<forall>b. pd_bool pd (PyBool b) = Some b)"

text \<open>Readers of one JSON value; \<open>None\<close> is a validation error.\<close>

fun as_str :: "pyval \<Rightarrow> string option" where
  "as_str (PyStr s) = Some s"
| "as_str _ = None"

definition as_str1 :: "pyval \<Rightarrow> string option" where
  "as_str1 v = (case as_str v of Some s \<Rightarrow> if s = [] then None else Some s | None \<Rightarrow> None)"

definition as_int1 :: "pydantic \<Rightarrow> pyval \<Rightarrow> int option" where
  "as_int1 pd v = (case pd_int pd v of Some i \<Rightarrow> if 1 \<le> i then Some i else None | None \<Rightarrow> None)"

fun as_dict :: "pyval \<Rightarrow> pydict option" where
  "as_dict (PyDict d) = Some d"
| "as_dict _ = None"

fun as_list :: "(pyval \<Rightarrow> 'a option) \<Rightarrow> pyval \<Rightarrow> 'a list option" where
  "as_list conv (PyList xs) = those (map conv xs)"
| "as_list conv _ = None"

definition as_list1 :: "(pyval \<Rightarrow> 'a option) \<Rightarrow> pyval \<Rightarrow> 'a list option" where
  "as_list1 conv v = (case as_list conv v of Some xs \<Rightarrow> if xs = [] then None else Some xs | None \<Rightarrow> None)"

fun as_format :: "pyval \<Rightarrow> output_format option" where
  "as_format (PyStr s) = find (\<lambda>f. format_value f = s) Enum.enum"
| "as_format _ = None"

fun as_engine :: "pyval \<Rightarrow> engine option" where
  "as_engine (PyStr s) = find (\<lambda>e. engine_value e = s) Enum.enum"
| "as_engine _ = None"

fun as_status :: "pyval \<Rightarrow> generation_status option" where
  "as_status (PyStr s) = find (\<lambda>st. status_value st = s) [SUCCESS, FAILED]"
| "as_status _ = None"

text \<open>Readers of one field: required, with a default, optional (absent or \<open>null\<close> is \<open>None\<close>).\<close>

definition req_field :: "(pyval \<Rightarrow> 'a option) \<Rightarrow> pydict \<Rightarrow> string \<Rightarrow> 'a option" where
  "req_field conv d k = (case map_of d k of None \<Rightarrow> None | Some v \<Rightarrow> conv v)"

definition default_field :: "(pyval \<Rightarrow> 'a option) \<Rightarrow> 'a \<Rightarrow> pydict \<Rightarrow> string \<Rightarrow> 'a option" where
  "default_field conv x d k = (case map_of d k of None \<Rightarrow> Some x | Some v \<Rightarrow> conv v)"

definition opt_field :: "(pyval \<Rightarrow> 'a option) \<Rightarrow> pydict \<Rightarrow> string \<Rightarrow> 'a option option" where
  "opt_field conv d k =
     (case map_of d k of None \<Rightarrow> Some None | Some PyNone \<Rightarrow> Some None | Some v \<Rightarrow> map_option Some (conv v))"

lemmas field_defs = req_field_def default_field_def opt_field_def as_str1_def as_int1_def as_list1_def

lemma find_eq_member [simp]: "find (\<lambda>x. x = a) xs = (if a \<in> set xs then Some a else None)"
  by (induction xs) auto

lemma in_enum [simp]:
  "(f :: output_format) \<in> set Enum.enum" "(e :: engine) \<in> set Enum.enum"
  by (simp_all add: UNIV_enum [symmetric])

lemma as_format_value [simp]: "as_format (PyStr (format_value f)) = Some f"
  by (cases f) (simp_all add: enum_output_format_def)

lemma as_engine_value [simp]: "as_engine (PyStr (engine_value e)) = Some e"
  by (cases e) (simp_all add: enum_engine_def)

lemma as_status_value [simp]: "as_status (PyStr (status_value s)) = Some s"
  by (cases s) simp_all

lemma those_map_Some: "(\<And>x. x \<in> set xs \<Longrightarrow> f x = Some (g x)) \<Longrightarrow> those (map f xs) = Some (map g xs)"
  by (induction xs) auto

lemma those_SomeD: "those xs = Some ys \<Longrightarrow> xs = map Some ys"
  by (induction xs arbitrary: ys) (auto split: option.splits)

section \<open>The request\<close>

record request_options =
  opt_locale :: "string option"
  opt_presign_ttl :: "int option"

record generation_request =
  req_request_id :: string
  req_tenant_id :: string
  req_requested_by :: string
  req_template_uri :: string
  req_outputs :: "output_format list"
  req_data :: pydict
  req_key_prefix :: string
  req_reply_to :: string
  req_options :: request_options
  req_metadata :: pydict

fun decode_template_ref :: "pyval \<Rightarrow> string option" where
  "decode_template_ref (PyDict d) = req_field as_str1 d ''uri''"
| "decode_template_ref _ = None"

fun decode_output_spec :: "pyval \<Rightarrow> output_format option" where
  "decode_output_spec (PyDict d) = req_field as_format d ''format''"
| "decode_output_spec _ = None"

fun decode_options :: "pydantic \<Rightarrow> pyval \<Rightarrow> request_options option" where
  "decode_options pd (PyDict d) = do {
     locale \<leftarrow> opt_field as_str d ''locale'';
     ttl \<leftarrow> opt_field (as_int1 pd) d ''presign_ttl'';
     Some \<lparr>opt_locale = locale, opt_presign_ttl = ttl\<rparr>
   }"
| "decode_options pd _ = None"

definition default_options :: request_options where
  "default_options = \<lparr>opt_locale = None, opt_presign_ttl = None\<rparr>"

fun decode_request :: "pydantic \<Rightarrow> pyval \<Rightarrow> generation_request option" where
  "decode_request pd (PyDict d) = do {
     request_id \<leftarrow> req_field as_str1 d ''request_id'';
     tenant_id \<leftarrow> req_field as_str1 d ''tenant_id'';
     requested_by \<leftarrow> req_field as_str1 d ''requested_by'';
     template \<leftarrow> req_field decode_template_ref d ''template'';
     outputs \<leftarrow> req_field (as_list1 decode_output_spec) d ''outputs'';
     data \<leftarrow> default_field as_dict [] d ''data'';
     key_prefix \<leftarrow> req_field as_str1 d ''key_prefix'';
     reply_to \<leftarrow> req_field as_str1 d ''reply_to'';
     options \<leftarrow> default_field (decode_options pd) default_options d ''options'';
     metadata \<leftarrow> default_field as_dict [] d ''metadata'';
     Some \<lparr>req_request_id = request_id, req_tenant_id = tenant_id, req_requested_by = requested_by,
           req_template_uri = template, req_outputs = outputs, req_data = data,
           req_key_prefix = key_prefix, req_reply_to = reply_to, req_options = options,
           req_metadata = metadata\<rparr>
   }"
| "decode_request pd _ = None"

text \<open>\<open>requested_formats\<close>: a dict used as an ordered set of the formats seen so far.\<close>

fun seen_formats :: "output_format list \<Rightarrow> output_format list \<Rightarrow> output_format list" where
  "seen_formats [] seen = seen"
| "seen_formats (f # fs) seen = seen_formats fs (if f \<in> set seen then seen else seen @ [f])"

definition requested_formats :: "generation_request \<Rightarrow> output_format list" where
  "requested_formats req = seen_formats (req_outputs req) []"

section \<open>The result\<close>

record artifact =
  art_format :: output_format
  art_uri :: string
  art_presigned_url :: "string option"
  art_size_bytes :: int
  art_sha256 :: string

record result_error =
  err_code :: string
  err_message :: string
  err_permanent :: bool

record generation_result =
  res_request_id :: string
  res_status :: generation_status
  res_artifacts :: "artifact list"
  res_error :: "result_error option"
  res_template_version :: "string option"
  res_generated_at :: string
  res_metadata :: pydict

text \<open>
  \<open>to_json_bytes\<close> dumps the model with \<open>exclude_none\<close>: a model field that is \<open>None\<close> is left
  out; the contents of \<open>metadata\<close> are not model fields and are dumped as they are.
\<close>

definition none_excluded :: "string \<Rightarrow> pyval option \<Rightarrow> pydict" where
  "none_excluded k v = (case v of None \<Rightarrow> [] | Some x \<Rightarrow> [(k, x)])"

definition dump_artifact :: "artifact \<Rightarrow> pyval" where
  "dump_artifact a = PyDict (
     [(''format'', PyStr (format_value (art_format a))), (''uri'', PyStr (art_uri a))]
     @ none_excluded ''presigned_url'' (map_option PyStr (art_presigned_url a))
     @ [(''size_bytes'', PyInt (art_size_bytes a)), (''sha256'', PyStr (art_sha256 a))])"

definition dump_error :: "result_error \<Rightarrow> pyval" where
  "dump_error e = PyDict
     [(''code'', PyStr (err_code e)), (''message'', PyStr (err_message e)),
      (''permanent'', PyBool (err_permanent e))]"

definition dump_result :: "generation_result \<Rightarrow> pyval" where
  "dump_result r = PyDict (
     [(''request_id'', PyStr (res_request_id r)),
      (''status'', PyStr (status_value (res_status r))),
      (''artifacts'', PyList (map dump_artifact (res_artifacts r)))]
     @ none_excluded ''error'' (map_option dump_error (res_error r))
     @ none_excluded ''template_version'' (map_option PyStr (res_template_version r))
     @ [(''generated_at'', PyStr (res_generated_at r)), (''metadata'', PyDict (res_metadata r))])"

definition to_json_bytes :: "pydantic \<Rightarrow> generation_result \<Rightarrow> bytes" where
  "to_json_bytes pd r = encode_utf8 (pd_dumps pd (dump_result r))"

text \<open>Reading the result classes, which forbid unknown fields.\<close>

definition no_extra :: "string list \<Rightarrow> pydict \<Rightarrow> bool" where
  "no_extra names d \<longleftrightarrow> list_all (\<lambda>kv. fst kv \<in> set names) d"

fun decode_artifact :: "pydantic \<Rightarrow> pyval \<Rightarrow> artifact option" where
  "decode_artifact pd (PyDict d) = do {
     format \<leftarrow> req_field as_format d ''format'';
     uri \<leftarrow> req_field as_str d ''uri'';
     url \<leftarrow> opt_field as_str d ''presigned_url'';
     size \<leftarrow> req_field (pd_int pd) d ''size_bytes'';
     sha \<leftarrow> req_field as_str d ''sha256'';
     if no_extra [''format'', ''uri'', ''presigned_url'', ''size_bytes'', ''sha256''] d
     then Some \<lparr>art_format = format, art_uri = uri, art_presigned_url = url,
                art_size_bytes = size, art_sha256 = sha\<rparr>
     else None
   }"
| "decode_artifact pd _ = None"

fun decode_error :: "pydantic \<Rightarrow> pyval \<Rightarrow> result_error option" where
  "decode_error pd (PyDict d) = do {
     code \<leftarrow> req_field as_str d ''code'';
     message \<leftarrow> req_field as_str d ''message'';
     permanent \<leftarrow> req_field (pd_bool pd) d ''permanent'';
     if no_extra [''code'', ''message'', ''permanent''] d
     then Some \<lparr>err_code = code, err_message = message, err_permanent = permanent\<rparr>
     else None
   }"
| "decode_error pd _ = None"

fun decode_result :: "pydantic \<Rightarrow> pyval \<Rightarrow> generation_result option" where
  "decode_result pd (PyDict d) = do {
     request_id \<leftarrow> req_field as_str d ''request_id'';
     status \<leftarrow> req_field as_status d ''status'';
     artifacts \<leftarrow> default_field (as_list (decode_artifact pd)) [] d ''artifacts'';
     error \<leftarrow> opt_field (decode_error pd) d ''error'';
     version \<leftarrow> opt_field as_str d ''template_version'';
     generated_at \<leftarrow> req_field as_str d ''generated_at'';
     metadata \<leftarrow> default_field as_dict [] d ''metadata'';
     if no_extra [''request_id'', ''status'', ''artifacts'', ''error'', ''template_version'',
                  ''generated_at'', ''metadata''] d
     then Some \<lparr>res_request_id = request_id, res_status = status, res_artifacts = artifacts,
                res_error = error, res_template_version = version,
                res_generated_at = generated_at, res_metadata = metadata\<rparr>
     else None
   }"
| "decode_result pd _ = None"

section \<open>The manifest\<close>

record block_spec =
  blk_source :: string
  blk_columns :: "string list"
  blk_anchor :: "string option"
  blk_anchor_name :: "string option"
  blk_max_rows :: "int option"
  blk_hide_unused_rows :: bool

datatype field_target = OneField string | CombFields "string list"

record manifest =
  man_id :: string
  man_version :: string
  man_engine :: engine
  man_supported_formats :: "output_format list"
  man_required_fields :: pydict
  man_entrypoint :: "string option"
  man_output_basename :: "string option"
  man_blocks :: "block_spec list"
  man_fields :: "(string \<times> field_target) list"

text \<open>Truth value of an optional string.\<close>

definition str_truthy :: "string option \<Rightarrow> bool" where
  "str_truthy s \<longleftrightarrow> s \<noteq> None \<and> s \<noteq> Some []"

definition exactly_one_anchor :: "block_spec \<Rightarrow> bool" where
  "exactly_one_anchor b \<longleftrightarrow> str_truthy (blk_anchor b) \<noteq> str_truthy (blk_anchor_name b)"

fun decode_block :: "pydantic \<Rightarrow> pyval \<Rightarrow> block_spec option" where
  "decode_block pd (PyDict d) = do {
     source \<leftarrow> req_field as_str1 d ''source'';
     columns \<leftarrow> req_field (as_list1 as_str) d ''columns'';
     anchor \<leftarrow> opt_field as_str d ''anchor'';
     anchor_name \<leftarrow> opt_field as_str d ''anchor_name'';
     max_rows \<leftarrow> opt_field (as_int1 pd) d ''max_rows'';
     hide \<leftarrow> default_field (pd_bool pd) True d ''hide_unused_rows'';
     let b = \<lparr>blk_source = source, blk_columns = columns, blk_anchor = anchor,
              blk_anchor_name = anchor_name, blk_max_rows = max_rows,
              blk_hide_unused_rows = hide\<rparr>;
     if exactly_one_anchor b then Some b else None
   }"
| "decode_block pd _ = None"

text \<open>
  \<open>isinstance(max_items, int) and max_items >= 1\<close>: a Python \<open>bool\<close> is an \<open>int\<close>, so
  \<open>True\<close> passes and counts as 1.
\<close>

fun max_items_capacity :: "pyval \<Rightarrow> int option" where
  "max_items_capacity (PyInt i) = (if 1 \<le> i then Some i else None)"
| "max_items_capacity (PyBool b) = (if b then Some 1 else None)"
| "max_items_capacity _ = None"

definition dict_get :: "pydict \<Rightarrow> string \<Rightarrow> pyval" where
  "dict_get d k = (case map_of d k of None \<Rightarrow> PyNone | Some v \<Rightarrow> v)"

definition block_capacity :: "manifest \<Rightarrow> block_spec \<Rightarrow> exn + int" where
  "block_capacity m b =
     (case blk_max_rows b of
        Some n \<Rightarrow> Inr n
      | None \<Rightarrow>
          (let properties = dict_get (man_required_fields m) ''properties'';
               schema = (case properties of PyDict p \<Rightarrow> dict_get p (blk_source b) | _ \<Rightarrow> PyNone);
               max_items = (case schema of PyDict s \<Rightarrow> dict_get s ''maxItems'' | _ \<Rightarrow> PyNone)
           in case max_items_capacity max_items of
                Some n \<Rightarrow> Inr n
              | None \<Rightarrow> Inl (ValueError (''block '' @ py_repr (blk_source b) @
                  '' has no capacity: set 'max_rows' on the block, or 'maxItems' on required_fields.properties.''
                  @ blk_source b))))"

text \<open>The validator of the class: every block's capacity resolves.\<close>

definition blocks_have_resolvable_capacity :: "manifest \<Rightarrow> bool" where
  "blocks_have_resolvable_capacity m \<longleftrightarrow>
     list_all (\<lambda>b. case block_capacity m b of Inl _ \<Rightarrow> False | Inr _ \<Rightarrow> True) (man_blocks m)"

fun decode_target :: "pyval \<Rightarrow> field_target option" where
  "decode_target (PyStr s) = Some (OneField s)"
| "decode_target (PyList xs) = map_option CombFields (those (map as_str xs))"
| "decode_target _ = None"

fun decode_fields :: "pyval \<Rightarrow> (string \<times> field_target) list option" where
  "decode_fields (PyDict d) = those (map (\<lambda>kv. map_option (Pair (fst kv)) (decode_target (snd kv))) d)"
| "decode_fields _ = None"

fun decode_manifest :: "pydantic \<Rightarrow> pyval \<Rightarrow> manifest option" where
  "decode_manifest pd (PyDict d) = do {
     ident \<leftarrow> req_field as_str1 d ''id'';
     version \<leftarrow> req_field as_str1 d ''version'';
     engine \<leftarrow> req_field as_engine d ''engine'';
     formats \<leftarrow> req_field (as_list1 as_format) d ''supported_formats'';
     required \<leftarrow> default_field as_dict [] d ''required_fields'';
     entry \<leftarrow> opt_field as_str d ''entrypoint'';
     basename \<leftarrow> opt_field as_str d ''output_basename'';
     blocks \<leftarrow> default_field (as_list (decode_block pd)) [] d ''blocks'';
     fields \<leftarrow> default_field decode_fields [] d ''fields'';
     let m = \<lparr>man_id = ident, man_version = version, man_engine = engine,
              man_supported_formats = formats, man_required_fields = required,
              man_entrypoint = entry, man_output_basename = basename,
              man_blocks = blocks, man_fields = fields\<rparr>;
     if blocks_have_resolvable_capacity m then Some m else None
   }"
| "decode_manifest pd _ = None"

text \<open>\<open>model_validate_json\<close>: a parse error or a validation error is a \<open>ValueError\<close>.\<close>

definition model_validate_json ::
  "pydantic \<Rightarrow> string \<Rightarrow> (pyval \<Rightarrow> 'a option) \<Rightarrow> bytes \<Rightarrow> exn + 'a" where
  "model_validate_json pd cls decode raw =
     (case pd_loads pd raw of
        Inl msg \<Rightarrow> Inl (ValueError msg)
      | Inr v \<Rightarrow> (case decode v of
          None \<Rightarrow> Inl (ValueError (pd_error pd cls v))
        | Some x \<Rightarrow> Inr x))"

definition resolve_entrypoint :: "manifest \<Rightarrow> exn + string" where
  "resolve_entrypoint m =
     (if str_truthy (man_entrypoint m) then Inr (the (man_entrypoint m))
      else case map_of default_entrypoint (man_engine m) of
             Some e \<Rightarrow> Inr e
           | None \<Rightarrow> Inl (OtherError (''KeyError: '' @ repr_engine (man_engine m))))"

definition resolve_output_basename :: "manifest \<Rightarrow> string" where
  "resolve_output_basename m =
     (if str_truthy (man_output_basename m) then the (man_output_basename m)
      else after_last CHR ''.'' (man_id m))"

definition filename_for :: "manifest \<Rightarrow> output_format \<Rightarrow> string" where
  "filename_for m fmt = resolve_output_basename m @ ''.'' @ extension fmt"

section \<open>What a renderer hands over\<close>

record rendered_artifact =
  ra_format :: output_format
  ra_filename :: string
  ra_content :: bytes

definition ra_content_type :: "rendered_artifact \<Rightarrow> string" where
  "ra_content_type a = content_type (ra_format a)"

section \<open>Correctness of the models\<close>

subsection \<open>Requested formats\<close>

lemma seen_formats_append_distinct:
  "distinct seen \<Longrightarrow> distinct (seen_formats fs seen)"
  by (induction fs seen rule: seen_formats.induct) auto

lemma set_seen_formats: "set (seen_formats fs seen) = set seen \<union> set fs"
  by (induction fs seen rule: seen_formats.induct) auto

lemma seen_formats_filter:
  "seen_formats fs seen = seen @ filter (\<lambda>f. f \<notin> set seen) (rev (remdups (rev fs)))"
proof (induction fs arbitrary: seen rule: rev_induct)
  case (snoc f fs)
  have "seen_formats (fs @ [f]) seen =
      (let s = seen_formats fs seen in if f \<in> set s then s else s @ [f])"
    by (induction fs seen rule: seen_formats.induct) (auto simp: Let_def)
  then show ?case using snoc by (auto simp: Let_def set_seen_formats)
qed simp

lemma distinct_requested_formats [simp]: "distinct (requested_formats req)"
  by (simp add: requested_formats_def seen_formats_append_distinct)

lemma set_requested_formats [simp]: "set (requested_formats req) = set (req_outputs req)"
  by (simp add: requested_formats_def set_seen_formats)

subsection \<open>Field readers\<close>

lemma req_field_Some: "req_field conv d k = Some x \<longleftrightarrow> (\<exists>v. map_of d k = Some v \<and> conv v = Some x)"
  by (auto simp: req_field_def split: option.splits)

lemma as_str1_Some: "as_str1 v = Some s \<longleftrightarrow> v = PyStr s \<and> s \<noteq> []"
  by (cases v) (auto simp: as_str1_def)

lemma as_list1_nonempty: "as_list1 conv v = Some xs \<Longrightarrow> xs \<noteq> []"
  by (auto simp: as_list1_def split: option.splits if_splits)

lemma opt_as_int1_ge: "opt_field (as_int1 pd) d k = Some (Some i) \<Longrightarrow> 1 \<le> i"
  by (auto simp: opt_field_def as_int1_def split: option.splits pyval.splits if_splits)

text \<open>Two dicts that agree on the fields a reader looks at are read alike.\<close>

lemma field_cong:
  assumes "map_of d k = map_of d' k"
  shows "req_field conv d k = req_field conv d' k"
    and "default_field conv x d k = default_field conv x d' k"
    and "opt_field conv d k = opt_field conv d' k"
  using assms by (simp_all add: field_defs)

subsection \<open>Manifest values\<close>

lemma check_entrypoints_default: "check_entrypoints default_entrypoint = Inr ()"
  by (simp add: check_entrypoints_def default_entrypoint_def enum_engine_def insert_commute)

lemma check_entrypoints_ok_iff:
  "check_entrypoints table = Inr () \<longleftrightarrow> (\<forall>e. map_of table e \<noteq> None)"
proof -
  have "set (Enum.enum :: engine list) = UNIV" by (rule UNIV_enum [symmetric])
  then show ?thesis
    by (auto simp: check_entrypoints_def map_of_eq_None_iff)
qed

lemma resolve_entrypoint_total: "\<exists>e. resolve_entrypoint m = Inr e"
proof -
  have "map_of default_entrypoint (man_engine m) \<noteq> None"
    using check_entrypoints_default check_entrypoints_ok_iff by blast
  then show ?thesis by (auto simp: resolve_entrypoint_def)
qed

lemma filename_for_inject [simp]: "filename_for m f = filename_for m g \<longleftrightarrow> f = g"
  by (cases f; cases g) (simp_all add: filename_for_def extension_def)

lemma max_items_capacity_ge: "max_items_capacity v = Some n \<Longrightarrow> 1 \<le> n"
  by (cases v) (auto split: if_splits)

lemma block_capacity_Inr_ge:
  assumes "block_capacity m b = Inr n" "\<And>k. blk_max_rows b = Some k \<Longrightarrow> 1 \<le> k"
  shows "1 \<le> n"
  using assms by (auto simp: block_capacity_def Let_def split: option.splits dest: max_items_capacity_ge)

lemma decode_block_wf:
  assumes "decode_block pd v = Some b"
  shows "exactly_one_anchor b \<and> blk_source b \<noteq> [] \<and> blk_columns b \<noteq> [] \<and>
    (\<forall>k. blk_max_rows b = Some k \<longrightarrow> 1 \<le> k)"
  using assms
  by (cases v)
    (auto simp: req_field_Some as_str1_Some Let_def bind_eq_Some_conv
      split: if_splits dest: opt_as_int1_ge as_list1_nonempty)

lemma as_list_SomeD:
  assumes "as_list conv v = Some xs" "x \<in> set xs"
  shows "\<exists>u. conv u = Some x"
proof -
  from assms obtain us where "those (map conv us) = Some xs" by (cases v) auto
  then have "map conv us = map Some xs" by (rule those_SomeD)
  moreover from assms(2) have "Some x \<in> set (map Some xs)" by simp
  ultimately have "Some x \<in> set (map conv us)" by simp
  then show ?thesis by auto
qed

lemma decode_manifest_blocks:
  assumes "decode_manifest pd v = Some m" "b \<in> set (man_blocks m)"
  shows "(\<exists>u. decode_block pd u = Some b) \<and> blocks_have_resolvable_capacity m"
proof -
  from assms(1) obtain d where v: "v = PyDict d" by (cases v) auto
  from assms(1) have ok: "blocks_have_resolvable_capacity m"
    by (auto simp: v Let_def bind_eq_Some_conv split: if_splits)
  from assms(1) have "default_field (as_list (decode_block pd)) [] d ''blocks'' = Some (man_blocks m)"
    by (auto simp: v Let_def bind_eq_Some_conv split: if_splits)
  then have "\<exists>u. decode_block pd u = Some b"
    using assms(2) by (auto simp: default_field_def split: option.splits dest: as_list_SomeD)
  with ok show ?thesis by simp
qed

subsection \<open>Reading back what was written\<close>

lemma decode_dump_artifact: "pydantic_ok pd \<Longrightarrow> decode_artifact pd (dump_artifact a) = Some a"
  by (cases "art_presigned_url a")
    (simp_all add: dump_artifact_def none_excluded_def field_defs pydantic_ok_def no_extra_def)

lemma decode_dump_error: "pydantic_ok pd \<Longrightarrow> decode_error pd (dump_error e) = Some e"
  by (simp add: dump_error_def field_defs pydantic_ok_def no_extra_def)

lemma dump_error_not_none [simp]: "dump_error e \<noteq> PyNone"
  by (simp add: dump_error_def)

lemma opt_field_conv:
  "map_of d k = Some v \<Longrightarrow> v \<noteq> PyNone \<Longrightarrow> opt_field conv d k = map_option Some (conv v)"
  by (cases v) (simp_all add: opt_field_def)

lemma opt_field_absent: "map_of d k = None \<Longrightarrow> opt_field conv d k = Some None"
  by (simp add: opt_field_def)

lemma dump_decode_artifacts:
  "pydantic_ok pd \<Longrightarrow> those (map (decode_artifact pd \<circ> dump_artifact) as) = Some as"
  by (induction as) (simp_all add: decode_dump_artifact)

text \<open>
  C28. A result written by \<open>to_json_bytes\<close> (null fields left out) and read back by the
  result classes, which forbid unknown fields, is the same result.
\<close>

theorem decode_dump_result:
  assumes "pydantic_ok pd"
  shows "decode_result pd (dump_result r) = Some r"
  by (cases "res_error r"; cases "res_template_version r"; cases "res_status r")
    (simp_all add: dump_result_def none_excluded_def req_field_def default_field_def no_extra_def
      dump_decode_artifacts opt_field_conv opt_field_absent decode_dump_error assms
      del: decode_error.simps)

end
