(* ===== verification/Results.thy ===== *)
theory Results
  imports Models
begin

text \<open>
  \<open>domain/results.py\<close>: the three builders of a result. Every result carries the request's
  \<open>request_id\<close> and its \<open>metadata\<close>.
\<close>

definition success_result ::
  "generation_request \<Rightarrow> artifact list \<Rightarrow> string \<Rightarrow> string \<Rightarrow> generation_result" where
  "success_result req artifacts template_version generated_at =
     \<lparr>res_request_id = req_request_id req, res_status = SUCCESS, res_artifacts = artifacts,
      res_error = None, res_template_version = Some template_version,
      res_generated_at = generated_at, res_metadata = req_metadata req\<rparr>"

definition failure_result ::
  "generation_request \<Rightarrow> string \<Rightarrow> string \<Rightarrow> bool \<Rightarrow> string \<Rightarrow> string option \<Rightarrow> generation_result" where
  "failure_result req code message permanent generated_at template_version =
     \<lparr>res_request_id = req_request_id req, res_status = FAILED, res_artifacts = [],
      res_error = Some \<lparr>err_code = code, err_message = message, err_permanent = permanent\<rparr>,
      res_template_version = template_version, res_generated_at = generated_at,
      res_metadata = req_metadata req\<rparr>"

text \<open>The failure of a classified exception: its class gives the code and the flag.\<close>

definition failure_from_error ::
  "generation_request \<Rightarrow> docgen_class \<Rightarrow> string \<Rightarrow> string \<Rightarrow> string option \<Rightarrow> generation_result" where
  "failure_from_error req cls msg generated_at template_version =
     failure_result req (code_str (class_code cls)) (if msg = [] then class_name cls else msg)
       (class_permanent cls) generated_at template_version"

lemmas result_defs = success_result_def failure_result_def failure_from_error_def

text \<open>
  What holds of every result the worker builds: a success has no error and a version, a
  failure has an error and no artifacts.
\<close>

definition result_ok :: "generation_request \<Rightarrow> generation_result \<Rightarrow> bool" where
  "result_ok req r \<longleftrightarrow>
     res_request_id r = req_request_id req \<and> res_metadata r = req_metadata req \<and>
     (case res_status r of
        SUCCESS \<Rightarrow> res_error r = None \<and> res_template_version r \<noteq> None
      | FAILED \<Rightarrow> res_error r \<noteq> None \<and> res_artifacts r = [])"

lemma result_ok_builders [simp, intro]:
  "result_ok req (success_result req as v g)"
  "result_ok req (failure_result req c m p g v')"
  "result_ok req (failure_from_error req cls m g v')"
  by (simp_all add: result_ok_def result_defs)

end
