(* ===== verification/FileSystem.thy ===== *)
theory FileSystem
  imports PyText "HOL-Library.Sublist"
begin

text \<open>
  The local disk as the worker's \<open>pathlib\<close>, \<open>tempfile\<close>, \<open>os.replace\<close> and \<open>shutil.rmtree\<close>
  calls see it: a finite list of entries, each an absolute resolved path (a list of names)
  with a file or a directory. The root is the empty path and is always a directory. There are
  no symbolic links: the worker creates only regular files and directories, so that resolving
  a path is resolving \<open>.\<close> and \<open>..\<close> in its text.

  The lemmas give each operation's effect on every path, and show that each keeps the
  well-formedness of the tree (one entry per path, parents are directories).
\<close>

type_synonym path = "string list"

datatype node = File bytes | Dir

type_synonym fs = "(path \<times> node) list"

definition node_at :: "fs \<Rightarrow> path \<Rightarrow> node option" where
  "node_at d p = (if p = [] then Some Dir else map_of d p)"

definition is_file :: "fs \<Rightarrow> path \<Rightarrow> bool" where
  "is_file d p = (case node_at d p of Some (File _) \<Rightarrow> True | _ \<Rightarrow> False)"

definition is_dir :: "fs \<Rightarrow> path \<Rightarrow> bool" where
  "is_dir d p \<longleftrightarrow> node_at d p = Some Dir"

definition path_exists :: "fs \<Rightarrow> path \<Rightarrow> bool" where
  "path_exists d p \<longleftrightarrow> node_at d p \<noteq> None"

text \<open>\<open>(base / name).resolve()\<close> for a resolved \<open>base\<close>; an absolute \<open>name\<close> replaces the base.\<close>

fun resolve_parts :: "path \<Rightarrow> string list \<Rightarrow> path" where
  "resolve_parts acc [] = acc"
| "resolve_parts acc (c # cs) =
     (if c = [] \<or> c = ''.'' then resolve_parts acc cs
      else if c = ''..'' then resolve_parts (butlast acc) cs
      else resolve_parts (acc @ [c]) cs)"

definition resolve_under :: "path \<Rightarrow> string \<Rightarrow> exn + path" where
  "resolve_under base name =
     (if CHR 0x00 \<in> set name then Inl (ValueError ''lstat: embedded null character in path'')
      else Inr (resolve_parts (if startswith name ''/'' then [] else base) (split_char CHR ''/'' name)))"

text \<open>The parts of \<open>pathlib.Path(s)\<close> below the root, and its \<open>name\<close>.\<close>

definition path_parts :: "string \<Rightarrow> path" where
  "path_parts s = filter (\<lambda>part. part \<noteq> [] \<and> part \<noteq> ''.'') (split_char CHR ''/'' s)"

definition path_name :: "string \<Rightarrow> string" where
  "path_name s = (let parts = path_parts s in if parts = [] then [] else last parts)"

text \<open>\<open>root in target.parents\<close>.\<close>

definition in_parents :: "path \<Rightarrow> path \<Rightarrow> bool" where
  "in_parents root target \<longleftrightarrow> strict_prefix root target"

text \<open>\<open>mkdir(parents=True, exist_ok=True)\<close>, \<open>mkdir()\<close>, \<open>write_bytes\<close>, \<open>read_bytes\<close>.\<close>

fun add_dirs :: "path list \<Rightarrow> fs \<Rightarrow> fs" where
  "add_dirs [] d = d"
| "add_dirs (q # qs) d = add_dirs qs (if path_exists d q then d else dict_set d q Dir)"

definition mkdir_parents :: "path \<Rightarrow> fs \<Rightarrow> exn + fs" where
  "mkdir_parents p d =
     (if list_ex (is_file d) (prefixes p) then Inl (OSError ''File exists or not a directory'')
      else Inr (add_dirs (prefixes p) d))"

definition mkdir_new :: "path \<Rightarrow> fs \<Rightarrow> exn + fs" where
  "mkdir_new p d =
     (if path_exists d p then Inl (OSError ''File exists'')
      else if \<not> is_dir d (butlast p) then Inl (OSError ''No such file or directory'')
      else Inr (dict_set d p Dir))"

definition write_bytes :: "path \<Rightarrow> bytes \<Rightarrow> fs \<Rightarrow> exn + fs" where
  "write_bytes p c d =
     (if is_dir d p then Inl (OSError ''Is a directory'')
      else if \<not> is_dir d (butlast p) then Inl (OSError ''No such file or directory'')
      else Inr (dict_set d p (File c)))"

definition read_bytes :: "path \<Rightarrow> fs \<Rightarrow> exn + bytes" where
  "read_bytes p d =
     (case node_at d p of
        Some (File c) \<Rightarrow> Inr c
      | Some Dir \<Rightarrow> Inl (OSError ''Is a directory'')
      | None \<Rightarrow> Inl (OSError ''No such file or directory''))"

text \<open>\<open>shutil.rmtree(p, ignore_errors=True)\<close>.\<close>

definition remove_tree :: "path \<Rightarrow> fs \<Rightarrow> fs" where
  "remove_tree p d = filter (\<lambda>e. \<not> prefix p (fst e)) d"

text \<open>
  \<open>os.replace(src, dst)\<close> of a directory, as POSIX \<open>rename\<close> has it: an existing \<open>dst\<close> must be
  an empty directory.
\<close>

definition move_path :: "path \<Rightarrow> path \<Rightarrow> path \<Rightarrow> path" where
  "move_path src dst q = (if prefix src q then dst @ drop (length src) q else q)"

definition move_entries :: "path \<Rightarrow> path \<Rightarrow> fs \<Rightarrow> fs" where
  "move_entries src dst d =
     map (\<lambda>e. (move_path src dst (fst e), snd e)) (filter (\<lambda>e. fst e \<noteq> dst) d)"

definition replace_dir :: "path \<Rightarrow> path \<Rightarrow> fs \<Rightarrow> exn + fs" where
  "replace_dir src dst d =
     (if \<not> is_dir d src \<or> \<not> is_dir d (butlast dst) then Inl (OSError ''No such file or directory'')
      else if src = dst then Inr d
      else if prefix src dst then Inl (OSError ''Invalid argument'')
      else if is_file d dst then Inl (OSError ''Not a directory'')
      else if dst = [] \<or> list_ex (\<lambda>e. strict_prefix dst (fst e)) d then Inl (OSError ''Directory not empty'')
      else Inr (move_entries src dst d))"

definition wf_fs :: "fs \<Rightarrow> bool" where
  "wf_fs d \<longleftrightarrow> distinct (map fst d) \<and> list_all (\<lambda>e. fst e \<noteq> [] \<and> is_dir d (butlast (fst e))) d"

section \<open>Resolving paths\<close>

lemma strict_prefix_butlast: "strict_prefix p q \<Longrightarrow> prefix p (butlast q)"
  by (metis append_butlast_last_id prefix_order.less_irrefl prefix_snoc strict_prefix_def prefix_bot.bot_least prefix_Nil)

lemma prefix_butlast_iff: "q \<noteq> [] \<Longrightarrow> prefix p (butlast q) \<longleftrightarrow> strict_prefix p q"
  by (metis append_butlast_last_id not_Cons_self2 prefix_order.dual_order.strict_trans1
      prefix_order.less_le prefixeq_butlast same_append_eq append_Nil2 strict_prefix_butlast)

named_theorems fs_simps \<open>effect of the disk operations on each path\<close>

definition clean_name :: "string \<Rightarrow> bool" where
  "clean_name c \<longleftrightarrow> c \<noteq> [] \<and> c \<noteq> ''.'' \<and> c \<noteq> ''..''"

lemma resolve_parts_append:
  "resolve_parts acc (cs @ ds) = resolve_parts (resolve_parts acc cs) ds"
  by (induction acc cs rule: resolve_parts.induct) auto

lemma resolve_parts_clean:
  "list_all clean_name cs \<Longrightarrow> resolve_parts acc cs = acc @ cs"
  by (induction cs arbitrary: acc) (auto simp: clean_name_def)

lemma resolve_parts_names:
  "c \<in> set (resolve_parts acc cs) \<Longrightarrow> c \<in> set acc \<or> (c \<in> set cs \<and> clean_name c)"
  by (induction acc cs rule: resolve_parts.induct)
    (auto simp: clean_name_def split: if_splits dest: in_set_butlastD)

lemma resolve_parts_trailing_empty: "resolve_parts acc (cs @ [[]]) = resolve_parts acc cs"
  by (simp add: resolve_parts_append)

section \<open>Looking up after an operation\<close>

lemma node_at_root [simp]: "node_at d [] = Some Dir"
  by (simp add: node_at_def)

lemma node_at_dict_set [fs_simps]:
  "node_at (dict_set d q n) p = (if p = [] then Some Dir else if p = q then Some n else node_at d p)"
  by (simp add: node_at_def)

lemma is_dir_root [simp]: "is_dir d []"
  by (simp add: is_dir_def)

lemma is_file_not_dir: "is_file d p \<Longrightarrow> \<not> is_dir d p"
  by (auto simp: is_file_def is_dir_def)

lemma is_file_iff: "is_file d p \<longleftrightarrow> (\<exists>c. node_at d p = Some (File c))"
  by (auto simp: is_file_def split: option.splits node.splits)

lemma path_exists_iff: "path_exists d p \<longleftrightarrow> is_file d p \<or> is_dir d p"
  by (cases "node_at d p") (auto simp: path_exists_def is_file_iff is_dir_def intro: node.exhaust)

lemma node_at_add_dirs [fs_simps]:
  "node_at (add_dirs qs d) p =
     (if node_at d p = None \<and> p \<in> set qs then Some Dir else node_at d p)"
  by (induction qs d rule: add_dirs.induct)
    (auto simp: node_at_dict_set path_exists_def split: if_splits)

lemma node_at_mkdir_parents [fs_simps]:
  "mkdir_parents p d = Inr d' \<Longrightarrow>
   node_at d' q = (if node_at d q = None \<and> prefix q p then Some Dir else node_at d q)"
  by (auto simp: mkdir_parents_def fs_simps split: if_splits)

lemma is_dir_mkdir_parents:
  assumes "mkdir_parents p d = Inr d'" shows "is_dir d' p"
proof -
  have "\<not> is_file d p" using assms by (auto simp: mkdir_parents_def list_ex_iff split: if_splits)
  then show ?thesis
    by (cases "node_at d p") (auto simp: is_dir_def is_file_iff node_at_mkdir_parents [OF assms],
        metis node.exhaust)
qed

lemma map_of_filter_key: "map_of (filter (\<lambda>e. P (fst e)) d) p = (if P p then map_of d p else None)"
  by (induction d) auto

lemma node_at_remove_tree [fs_simps]:
  "p \<noteq> [] \<Longrightarrow> node_at (remove_tree q d) p = (if prefix q p then None else node_at d p)"
  by (simp add: remove_tree_def node_at_def map_of_filter_key [where P = "\<lambda>k. \<not> prefix q k"])

text \<open>After a move, what was under the source is under the target, and nothing else changed.\<close>

lemma map_of_move_entries:
  assumes "\<not> prefix src dst" "\<not> prefix dst src" "list_all (\<lambda>e. \<not> strict_prefix dst (fst e)) d"
  shows "map_of (move_entries src dst d) p =
    (if prefix dst p then map_of d (src @ drop (length dst) p)
     else if prefix src p then None else map_of d p)"
  using assms(3)
proof (induction d)
  case Nil
  then show ?case by (simp add: move_entries_def)
next
  case (Cons e d)
  obtain k v where e: "e = (k, v)" by (cases e)
  have IH: "map_of (move_entries src dst d) p =
    (if prefix dst p then map_of d (src @ drop (length dst) p)
     else if prefix src p then None else map_of d p)"
    using Cons by simp
  have nk: "\<not> strict_prefix dst k" using Cons.prems e by simp
  consider (d) "k = dst" | (s) "k \<noteq> dst" "prefix src k" | (o) "k \<noteq> dst" "\<not> prefix src k"
    by blast
  then show ?case
  proof cases
    case d
    have "dst \<noteq> src @ drop (length dst) p" using assms(1) by (metis prefixI)
    with d show ?thesis using IH e by (auto simp: move_entries_def)
  next
    case s
    then obtain z where z: "k = src @ z" by (auto elim: prefixE)
    have "prefix dst p \<Longrightarrow> dst @ z = p \<longleftrightarrow> src @ drop (length dst) p = k"
      using z by (auto elim!: prefixE)
    moreover have "\<not> prefix dst p \<Longrightarrow> dst @ z \<noteq> p" by auto
    moreover have "\<not> prefix src p \<Longrightarrow> k \<noteq> p" using z by auto
    ultimately show ?thesis using IH e s z
      by (auto simp: move_entries_def move_path_def)
  next
    case o
    have "\<not> prefix dst k" using nk o(1) by (metis prefix_order.le_imp_less_or_eq)
    moreover have "k \<noteq> src @ w" for w using o(2) by auto
    ultimately show ?thesis using IH e o
      by (auto simp: move_entries_def move_path_def)
  qed
qed

lemma node_at_entry: "node_at d p \<noteq> None \<Longrightarrow> p \<noteq> [] \<Longrightarrow> p \<in> fst ` set d"
  by (auto simp: node_at_def dest: map_of_SomeD) (metis fst_conv image_eqI map_of_SomeD)

lemma replace_dir_conditions:
  assumes "replace_dir src dst d = Inr d'" "src \<noteq> dst"
  shows "\<not> prefix src dst" "\<not> prefix dst src" "list_all (\<lambda>e. \<not> strict_prefix dst (fst e)) d"
    "d' = move_entries src dst d" "dst \<noteq> []" "is_dir d src" "is_dir d (butlast dst)" "src \<noteq> []"
proof -
  from assms show np: "\<not> prefix src dst" and none: "list_all (\<lambda>e. \<not> strict_prefix dst (fst e)) d"
    and "d' = move_entries src dst d" and "dst \<noteq> []" and dir: "is_dir d src"
    and "is_dir d (butlast dst)"
    by (auto simp: replace_dir_def list_all_iff list_ex_iff split: if_splits)
  from np show ne: "src \<noteq> []" by auto
  from dir ne have "src \<in> fst ` set d" by (intro node_at_entry) (simp_all add: is_dir_def)
  with none assms(2) show "\<not> prefix dst src"
    by (auto simp: list_all_iff strict_prefix_def)
qed

lemma node_at_replace_dir [fs_simps]:
  assumes "replace_dir src dst d = Inr d'" "src \<noteq> dst"
  shows "node_at d' p =
    (if prefix dst p then node_at d (src @ drop (length dst) p)
     else if p \<noteq> [] \<and> prefix src p then None else node_at d p)"
proof -
  note c = replace_dir_conditions [OF assms]
  show ?thesis
    using map_of_move_entries [OF c(1-3), of p] c(4,5,8) by (auto simp: node_at_def)
qed

section \<open>The tree stays well formed\<close>

text \<open>Well-formedness, stated on the contents instead of the entries.\<close>

lemma wf_fs_iff:
  "wf_fs d \<longleftrightarrow> distinct (map fst d) \<and> [] \<notin> fst ` set d \<and>
     (\<forall>p. p \<noteq> [] \<longrightarrow> node_at d p \<noteq> None \<longrightarrow> is_dir d (butlast p))"
proof -
  have key: "node_at d p = None \<longleftrightarrow> p \<notin> fst ` set d" if "p \<noteq> []" for p
    using that by (simp add: node_at_def map_of_eq_None_iff)
  show ?thesis
  proof
    assume wf: "wf_fs d"
    then show "distinct (map fst d) \<and> [] \<notin> fst ` set d \<and>
        (\<forall>p. p \<noteq> [] \<longrightarrow> node_at d p \<noteq> None \<longrightarrow> is_dir d (butlast p))"
      by (auto simp: wf_fs_def list_all_iff key)
  next
    assume "distinct (map fst d) \<and> [] \<notin> fst ` set d \<and>
        (\<forall>p. p \<noteq> [] \<longrightarrow> node_at d p \<noteq> None \<longrightarrow> is_dir d (butlast p))"
    then show "wf_fs d"
      unfolding wf_fs_def list_all_iff using key by (metis imageI)
  qed
qed

lemma wf_fsD: "wf_fs d \<Longrightarrow> p \<noteq> [] \<Longrightarrow> node_at d p \<noteq> None \<Longrightarrow> is_dir d (butlast p)"
  by (simp add: wf_fs_iff)

text \<open>Below a path that does not exist, nothing exists; above one that does, directories.\<close>

lemma wf_fs_ancestor:
  assumes "wf_fs d" "node_at d (p @ q) \<noteq> None" "q \<noteq> []"
  shows "is_dir d p"
  using assms(2,3)
proof (induction q rule: rev_induct)
  case (snoc x q)
  have "is_dir d (p @ q)" using wf_fsD [OF assms(1) _ snoc.prems(1)] by (simp add: butlast_append)
  then show ?case using snoc.IH by (cases "q = []") (auto simp: is_dir_def)
qed simp

lemma wf_fs_below_missing:
  "wf_fs d \<Longrightarrow> \<not> path_exists d p \<Longrightarrow> prefix p q \<Longrightarrow> node_at d q = None"
proof -
  assume wf: "wf_fs d" and no: "\<not> path_exists d p" and "prefix p q"
  from \<open>prefix p q\<close> obtain z where z: "q = p @ z" by (auto elim: prefixE)
  have "z = [] \<or> node_at d (p @ z) = None"
    using wf_fs_ancestor [OF wf, of p z] no by (auto simp: path_exists_def is_dir_def)
  then show "node_at d q = None" using no z by (auto simp: path_exists_def)
qed

lemma wf_fs_dict_set:
  assumes "wf_fs d" "p \<noteq> []" "is_dir d (butlast p)" "n = Dir \<or> \<not> is_dir d p"
  shows "wf_fs (dict_set d p n)"
proof -
  have "is_dir (dict_set d p n) (butlast q)" if "q \<noteq> []" "node_at (dict_set d p n) q \<noteq> None" for q
  proof -
    have dir: "is_dir d (butlast q)"
      using that assms wf_fsD [OF assms(1), of q] by (auto simp: node_at_dict_set split: if_splits)
    then show ?thesis using assms(4) by (auto simp: is_dir_def node_at_dict_set)
  qed
  then show ?thesis using assms by (auto simp: wf_fs_iff)
qed

lemma wf_fs_mkdir_new: "wf_fs d \<Longrightarrow> mkdir_new p d = Inr d' \<Longrightarrow> wf_fs d'"
  by (cases "p = []") (auto simp: mkdir_new_def path_exists_def split: if_splits intro!: wf_fs_dict_set)

text \<open>Directories added along a list of prefixes find their parent there.\<close>

lemma wf_fs_add_dirs:
  "wf_fs d \<Longrightarrow> \<not> list_ex (is_file d) (prefixes p) \<Longrightarrow> wf_fs (add_dirs (prefixes p) d)"
proof (induction p arbitrary: d rule: rev_induct)
  case (snoc x p)
  let ?d = "add_dirs (prefixes p) d"
  have ps: "prefixes (p @ [x]) = prefixes p @ [p @ [x]]" by simp
  have app: "add_dirs (qs @ rs) d = add_dirs rs (add_dirs qs d)" for qs rs d
    by (induction qs d rule: add_dirs.induct) auto
  have wf: "wf_fs ?d" using snoc by (simp add: ps)
  have "\<not> is_file d p" using snoc.prems by (auto simp: ps list_ex_iff)
  then have "is_dir ?d p"
    by (auto simp: is_dir_def node_at_add_dirs is_file_iff) (metis not_None_eq node.exhaust)
  then show ?case using wf_fs_dict_set [OF wf, of "p @ [x]" Dir] wf by (simp add: ps app)
qed (simp add: path_exists_def)

lemma wf_fs_mkdir_parents: "wf_fs d \<Longrightarrow> mkdir_parents p d = Inr d' \<Longrightarrow> wf_fs d'"
  by (auto simp: mkdir_parents_def split: if_splits intro: wf_fs_add_dirs)

lemma wf_fs_write_bytes: "wf_fs d \<Longrightarrow> write_bytes p c d = Inr d' \<Longrightarrow> wf_fs d'"
  by (cases "p = []") (auto simp: write_bytes_def split: if_splits intro!: wf_fs_dict_set)

lemma wf_fs_remove_tree: "wf_fs d \<Longrightarrow> wf_fs (remove_tree p d)"
proof -
  assume wf: "wf_fs d"
  have "is_dir (remove_tree p d) (butlast q)" if q: "q \<noteq> []" "node_at (remove_tree p d) q \<noteq> None" for q
  proof -
    have np: "\<not> prefix p q" and ex: "node_at d q \<noteq> None"
      using q node_at_remove_tree [of q p d] by (auto split: if_splits)
    have dir: "is_dir d (butlast q)" using wf_fsD [OF wf q(1) ex] .
    have "\<not> prefix p (butlast q)" using np q(1)
      by (metis append_butlast_last_id prefix_append)
    then show ?thesis
      using dir by (cases "butlast q = []") (simp_all add: is_dir_def node_at_remove_tree)
  qed
  moreover have "distinct (map fst (remove_tree p d))"
    using wf by (auto simp: remove_tree_def wf_fs_def distinct_map_filter)
  moreover have "[] \<notin> fst ` set (remove_tree p d)"
    using wf by (auto simp: remove_tree_def wf_fs_iff)
  ultimately show ?thesis by (simp add: wf_fs_iff)
qed

text \<open>No two entries meet after the move, and every entry's parent is a directory.\<close>

lemma replace_dir_distinct:
  assumes wf: "wf_fs d" and r: "replace_dir src dst d = Inr d'" and ne: "src \<noteq> dst"
  shows "distinct (map fst d')"
proof -
  note c = replace_dir_conditions [OF r ne]
  have nd: "fst e \<noteq> dst \<Longrightarrow> e \<in> set d \<Longrightarrow> \<not> prefix dst (fst e)" for e
    using c(3) by (auto simp: list_all_iff strict_prefix_def)
  have inj: "inj_on (\<lambda>e. move_path src dst (fst e)) (set (filter (\<lambda>e. fst e \<noteq> dst) d))"
  proof (rule inj_onI)
    fix x y
    assume x: "x \<in> set (filter (\<lambda>e. fst e \<noteq> dst) d)" and y: "y \<in> set (filter (\<lambda>e. fst e \<noteq> dst) d)"
      and eq: "move_path src dst (fst x) = move_path src dst (fst y)"
    have "fst x = fst y"
      using x y eq nd [of x] nd [of y]
      by (auto simp: move_path_def split: if_splits elim!: prefixE) (metis prefixI)+
    moreover have "inj_on fst (set d)" using wf by (simp add: wf_fs_def distinct_map)
    ultimately show "x = y" using x y by (auto dest: inj_onD)
  qed
  have "distinct (filter (\<lambda>e. fst e \<noteq> dst) d)" using wf by (auto simp: wf_fs_def distinct_map)
  then show ?thesis using inj by (simp add: c(4) move_entries_def distinct_map comp_def)
qed

lemma replace_dir_parents:
  assumes wf: "wf_fs d" and r: "replace_dir src dst d = Inr d'" and ne: "src \<noteq> dst"
    and q: "q \<noteq> []" "node_at d' q \<noteq> None"
  shows "is_dir d' (butlast q)"
proof (cases "prefix dst q")
  case True
  note c = replace_dir_conditions [OF r ne] and at = node_at_replace_dir [OF r ne]
  from True obtain z where z: "q = dst @ z" by (auto elim: prefixE)
  show ?thesis
  proof (cases "z = []")
    case True
    have "\<not> prefix dst (butlast dst)" using c(5)
      by (metis append_butlast_last_id not_Cons_self2 prefix_order.antisym_conv prefixI same_append_eq append_Nil2)
    moreover have "\<not> prefix src (butlast dst)" using c(1) prefix_order.trans prefixeq_butlast by blast
    ultimately show ?thesis using c(7) z True by (simp add: is_dir_def at)
  next
    case False
    have "node_at d (src @ z) \<noteq> None" using q(2) z by (simp add: at)
    then have "is_dir d (butlast (src @ z))" using wf_fsD [OF wf] False by blast
    then show ?thesis using z False by (simp add: is_dir_def at butlast_append)
  qed
next
  case False
  note at = node_at_replace_dir [OF r ne]
  have old: "node_at d q \<noteq> None" "\<not> prefix src q" using q False by (auto simp: at split: if_splits)
  have "is_dir d (butlast q)" using wf_fsD [OF wf q(1) old(1)] .
  moreover have "\<not> prefix dst (butlast q)" "\<not> prefix src (butlast q)"
    using False old(2) prefix_order.trans prefixeq_butlast by blast+
  ultimately show ?thesis by (simp add: is_dir_def at)
qed

lemma wf_fs_replace_dir:
  assumes wf: "wf_fs d" and r: "replace_dir src dst d = Inr d'"
  shows "wf_fs d'"
proof (cases "src = dst")
  case True
  with assms show ?thesis by (auto simp: replace_dir_def split: if_splits)
next
  case False
  note c = replace_dir_conditions [OF r False]
  have "[] \<notin> fst ` set d'"
    using wf c(5) by (auto simp: c(4) move_entries_def move_path_def wf_fs_iff image_iff)
  then show ?thesis
    using replace_dir_distinct [OF wf r False] replace_dir_parents [OF wf r False] by (simp add: wf_fs_iff)
qed

end
