(* ===== verification/Ports.thy ===== *)
theory Ports
  imports Results FileSystem
begin

text \<open>
  \<open>domain/ports.py\<close>: the interfaces between the orchestrator and the adapters, and the
  contracts their docstrings state, as locales. A port's operations work over a world of any
  type; the adapters' theories interpret the locales on their own definitions.
\<close>

record template_bundle =
  bun_manifest :: manifest
  bun_root :: path

record stored_artifact =
  st_uri :: string
  st_size_bytes :: int
  st_sha256 :: string
  st_presigned_url :: "string option"

record ('w, 'r) ports =
  p_fetch :: "string \<Rightarrow> ('w, template_bundle) io"
  p_validate :: "pydict \<Rightarrow> pydict \<Rightarrow> exn + unit"
  p_get_renderer :: "engine \<Rightarrow> output_format \<Rightarrow> 'r option"
  p_run :: "'r \<Rightarrow> template_bundle \<Rightarrow> pydict \<Rightarrow> output_format \<Rightarrow> string option \<Rightarrow> ('w, rendered_artifact) io"
  p_put :: "string \<Rightarrow> bytes \<Rightarrow> string \<Rightarrow> int option \<Rightarrow> ('w, stored_artifact) io"

text \<open>
  The contract of the object store. \<open>writes w\<close> is the sequence of objects written so far, as
  (key, content) pairs: a \<open>put\<close> that returns has added its own, and what it returns describes
  the bytes written. One that raises has added nothing, unless its exception is \<open>uncertain\<close>: one
  that may come after the write.
\<close>

locale object_store_port =
  fixes put :: "string \<Rightarrow> bytes \<Rightarrow> string \<Rightarrow> int option \<Rightarrow> ('w, stored_artifact) io"
    and uri_of :: "string \<Rightarrow> string"
    and digest :: "bytes \<Rightarrow> string"
    and writes :: "'w \<Rightarrow> (string \<times> bytes) list"
    and uncertain :: "exn \<Rightarrow> bool"
  assumes put_describes: "put k c t ttl w = (Inr s, w') \<Longrightarrow>
      st_uri s = uri_of k \<and> st_size_bytes s = int (length c) \<and> st_sha256 s = digest c \<and>
      (ttl = None \<longrightarrow> st_presigned_url s = None)"
    and put_writes: "put k c t ttl w = (Inr s, w') \<Longrightarrow> writes w' = writes w @ [(k, c)]"
    and put_raises: "put k c t ttl w = (Inl e, w') \<Longrightarrow>
      writes w' = writes w \<or> uncertain e \<and> writes w' = writes w @ [(k, c)]"

text \<open>
  The contract of the render executor: the artifact has the requested format and the
  manifest's file name for it, and rendering writes no object.
\<close>

locale render_executor_port =
  fixes run :: "'r \<Rightarrow> template_bundle \<Rightarrow> pydict \<Rightarrow> output_format \<Rightarrow> string option \<Rightarrow> ('w, rendered_artifact) io"
    and writes :: "'w \<Rightarrow> (string \<times> bytes) list"
  assumes run_names: "run r b data fmt loc w = (Inr a, w') \<Longrightarrow>
      ra_format a = fmt \<and> ra_filename a = filename_for (bun_manifest b) fmt"
    and run_writes: "run r b data fmt loc w = (x, w') \<Longrightarrow> writes w' = writes w"

text \<open>The contract of the template store: fetching writes no object.\<close>

locale template_store_port =
  fixes fetch :: "string \<Rightarrow> ('w, template_bundle) io"
    and writes :: "'w \<Rightarrow> (string \<times> bytes) list"
  assumes fetch_writes: "fetch uri w = (x, w') \<Longrightarrow> writes w' = writes w"

text \<open>The only classified failure of the validator is \<open>SchemaValidationError\<close>.\<close>

locale validator_port =
  fixes validate :: "pydict \<Rightarrow> pydict \<Rightarrow> exn + unit"
  assumes validate_raises:
    "validate data schema = Inl (DocGenError cls m) \<Longrightarrow> cls = SchemaValidationError"

end
