(* ===== verification/World.thy ===== *)
theory World
  imports Ports
begin

text \<open>
  The world of the running worker, and its surroundings.

  The worker talks to services that are not part of it: object storage, the NATS broker, the
  process pool, the clock, and other tasks and processes that use the same cache directory.
  The record \<open>env\<close> holds their answers as functions of the events so far, so that nothing is
  assumed about them: each call may succeed or raise, and may answer differently each time.
  The world itself is the local disk and the trace of the calls made, each with whether it
  succeeded.
\<close>

type_synonym headers = "(string \<times> string) list"

datatype event =
    EvList string string bool
  | EvGet string string bool
  | EvPut string string bytes "string option" bool
  | EvPresign string string int bool
  | EvDelete string string bool
  | EvRender output_format bool
  | EvPublish string bytes headers bool
  | EvAck bool
  | EvNak int bool
  | EvMessageMetric string
  | EvDocumentMetric string
  | EvDurationMetric string

record world =
  trace :: "event list"
  disk :: fs

record env =
  env_list :: "event list \<Rightarrow> string \<Rightarrow> string \<Rightarrow> exn + string list list"
  env_get :: "event list \<Rightarrow> string \<Rightarrow> string \<Rightarrow> exn + bytes"
  env_put :: "event list \<Rightarrow> string \<Rightarrow> string \<Rightarrow> bytes \<Rightarrow> string option \<Rightarrow> exn + unit"
  env_presign :: "event list \<Rightarrow> string \<Rightarrow> string \<Rightarrow> int \<Rightarrow> exn + string"
  env_delete :: "event list \<Rightarrow> string \<Rightarrow> string \<Rightarrow> exn + unit"
  env_pool :: "event list \<Rightarrow> exn + unit"
  env_publish :: "event list \<Rightarrow> string \<Rightarrow> bytes \<Rightarrow> headers \<Rightarrow> exn + unit"
  env_ack :: "event list \<Rightarrow> exn + unit"
  env_nak :: "event list \<Rightarrow> int \<Rightarrow> exn + unit"
  env_tmp_name :: "event list \<Rightarrow> string"
  env_others :: "event list \<Rightarrow> fs \<Rightarrow> fs"

definition is_ok :: "exn + 'a \<Rightarrow> bool" where
  "is_ok r = (case r of Inl _ \<Rightarrow> False | Inr _ \<Rightarrow> True)"

lemma is_ok_simps [simp]: "is_ok (Inr x)" "\<not> is_ok (Inl e)"
  by (simp_all add: is_ok_def)

text \<open>
  An awaited call: the answer, the event in the trace, and meanwhile whatever the other tasks
  do to the disk.
\<close>

definition await ::
  "env \<Rightarrow> (event list \<Rightarrow> exn + 'a) \<Rightarrow> (bool \<Rightarrow> event) \<Rightarrow> (world, 'a) io" where
  "await E answer ev = (\<lambda>w.
     (answer (trace w),
      \<lparr>trace = trace w @ [ev (is_ok (answer (trace w)))], disk = env_others E (trace w) (disk w)\<rparr>))"

text \<open>An operation of the local disk; one that raises changes nothing.\<close>

definition disk_op :: "(fs \<Rightarrow> exn + fs) \<Rightarrow> (world, unit) io" where
  "disk_op f = (\<lambda>w. case f (disk w) of Inl e \<Rightarrow> (Inl e, w) | Inr d \<Rightarrow> (Inr (), w\<lparr>disk := d\<rparr>))"

definition disk_read :: "(fs \<Rightarrow> exn + 'a) \<Rightarrow> (world, 'a) io" where
  "disk_read f = (\<lambda>w. (f (disk w), w))"

text \<open>The other users of the disk run between two steps of the worker.\<close>

definition others_run :: "env \<Rightarrow> (world, unit) io" where
  "others_run E = (\<lambda>w. (Inr (), w\<lparr>disk := env_others E (trace w) (disk w)\<rparr>))"

definition emit_event :: "event \<Rightarrow> (world, unit) io" where
  "emit_event ev = (\<lambda>w. (Inr (), w\<lparr>trace := trace w @ [ev]\<rparr>))"

lemma await_run [io_simps]:
  "await E answer ev w =
     (answer (trace w),
      \<lparr>trace = trace w @ [ev (is_ok (answer (trace w)))], disk = env_others E (trace w) (disk w)\<rparr>)"
  by (simp add: await_def)

lemma disk_op_run [io_simps]:
  "disk_op f w = (case f (disk w) of Inl e \<Rightarrow> (Inl e, w) | Inr d \<Rightarrow> (Inr (), w\<lparr>disk := d\<rparr>))"
  by (simp add: disk_op_def)

lemma disk_read_run [io_simps]: "disk_read f w = (f (disk w), w)"
  by (simp add: disk_read_def)

lemma others_run_run [io_simps]:
  "others_run E w = (Inr (), w\<lparr>disk := env_others E (trace w) (disk w)\<rparr>)"
  by (simp add: others_run_def)

lemma emit_event_run [io_simps]: "emit_event ev w = (Inr (), w\<lparr>trace := trace w @ [ev]\<rparr>)"
  by (simp add: emit_event_def)

section \<open>Traces only grow\<close>

text \<open>
  \<open>adds P w w'\<close>: the trace of \<open>w'\<close> is that of \<open>w\<close> with further events, all of which satisfy
  \<open>P\<close>. It is the frame condition of most components: which kinds of calls they make.
\<close>

definition adds :: "(event \<Rightarrow> bool) \<Rightarrow> world \<Rightarrow> world \<Rightarrow> bool" where
  "adds P w w' \<longleftrightarrow> (\<exists>evs. trace w' = trace w @ evs \<and> list_all P evs)"

lemma adds_reflp [simp, preserves_intros]: "reflp (adds P)"
  by (auto simp: adds_def reflp_def intro: exI [of _ "[]"])

lemma adds_transp [simp, preserves_intros]: "transp (adds P)"
  by (fastforce simp: adds_def transp_def)

lemma adds_mono: "adds P w w' \<Longrightarrow> (\<And>ev. P ev \<Longrightarrow> Q ev) \<Longrightarrow> adds Q w w'"
  unfolding adds_def by (metis list_all_iff)

lemma preserves_adds_mono:
  "preserves (adds P) m \<Longrightarrow> (\<And>ev. P ev \<Longrightarrow> Q ev) \<Longrightarrow> preserves (adds Q) m"
  unfolding preserves_def using adds_mono by blast

lemma adds_await [preserves_intros]: "P (ev True) \<Longrightarrow> P (ev False) \<Longrightarrow> preserves (adds P) (await E answer ev)"
  by (auto simp: preserves_def await_def adds_def is_ok_def split: sum.splits)

lemma adds_disk_op [preserves_intros]: "preserves (adds P) (disk_op f)"
  by (auto simp: preserves_def disk_op_def adds_def split: sum.splits intro: exI [of _ "[]"])

lemma adds_disk_read [preserves_intros]: "preserves (adds P) (disk_read f)"
  by (auto simp: preserves_def disk_read_def adds_def intro: exI [of _ "[]"])

lemma adds_others_run [preserves_intros]: "preserves (adds P) (others_run E)"
  by (auto simp: preserves_def others_run_def adds_def intro: exI [of _ "[]"])

lemma adds_emit_event [preserves_intros]: "P ev \<Longrightarrow> preserves (adds P) (emit_event ev)"
  by (auto simp: preserves_def emit_event_def adds_def)

section \<open>The objects written to a bucket\<close>

definition written :: "string \<Rightarrow> event \<Rightarrow> (string \<times> bytes) list" where
  "written b ev = (case ev of EvPut b' k c _ True \<Rightarrow> if b' = b then [(k, c)] else [] | _ \<Rightarrow> [])"

definition bucket_writes :: "string \<Rightarrow> world \<Rightarrow> (string \<times> bytes) list" where
  "bucket_writes b w = concat (map (written b) (trace w))"

text \<open>
  The objects that may be there: a put that failed, or whose answer was lost, may have reached the
  bucket all the same.
\<close>

definition tried :: "string \<Rightarrow> event \<Rightarrow> (string \<times> bytes) list" where
  "tried b ev = (case ev of EvPut b' k c _ _ \<Rightarrow> if b' = b then [(k, c)] else [] | _ \<Rightarrow> [])"

definition possible_writes :: "string \<Rightarrow> world \<Rightarrow> (string \<times> bytes) list" where
  "possible_writes b w = concat (map (tried b) (trace w))"

definition no_put :: "event \<Rightarrow> bool" where
  "no_put ev = (case ev of EvPut _ _ _ _ _ \<Rightarrow> False | _ \<Rightarrow> True)"

lemma adds_no_put:
  "adds no_put w w' \<Longrightarrow> bucket_writes b w' = bucket_writes b w"
  "adds no_put w w' \<Longrightarrow> possible_writes b w' = possible_writes b w"
proof -
  have "list_all no_put evs \<Longrightarrow> concat (map (written b) evs) = [] \<and> concat (map (tried b) evs) = []" for evs
    by (induction evs) (auto simp: no_put_def written_def tried_def split: event.splits bool.splits)
  then show "adds no_put w w' \<Longrightarrow> bucket_writes b w' = bucket_writes b w"
    "adds no_put w w' \<Longrightarrow> possible_writes b w' = possible_writes b w"
    by (auto simp: adds_def bucket_writes_def possible_writes_def)
qed

end
