(* ===== verification/NatsTransport.thy ===== *)
theory NatsTransport
  imports World
begin

text \<open>
  \<open>shared/const.py\<close> and \<open>adapters/nats_transport.py\<close>: what is published where. The broker's
  answer to a publish is the environment's.
\<close>

definition HEADER_EVENT_TYPE :: string where
  "HEADER_EVENT_TYPE = ''Event-Type''"

definition HEADER_REQUEST_ID :: string where
  "HEADER_REQUEST_ID = ''Request-Id''"

definition HEADER_DLQ_REASON :: string where
  "HEADER_DLQ_REASON = ''X-DocGen-Error''"

definition js_publish :: "env \<Rightarrow> string \<Rightarrow> bytes \<Rightarrow> headers \<Rightarrow> (world, unit) io" where
  "js_publish E subject payload hdrs =
     await E (\<lambda>tr. env_publish E tr subject payload hdrs) (EvPublish subject payload hdrs)"

definition result_headers :: "generation_result \<Rightarrow> headers" where
  "result_headers r = [(''Event-Type'', ''docgen.result''), (''Request-Id'', res_request_id r)]"

definition publish_result :: "env \<Rightarrow> pydantic \<Rightarrow> string \<Rightarrow> generation_result \<Rightarrow> (world, unit) io" where
  "publish_result E pd subject r = js_publish E subject (to_json_bytes pd r) (result_headers r)"

definition publish_dlq :: "env \<Rightarrow> string \<Rightarrow> bytes \<Rightarrow> headers \<Rightarrow> (world, unit) io" where
  "publish_dlq E dlq_subject payload hdrs = js_publish E dlq_subject payload hdrs"

section \<open>The contract of the transport\<close>

text \<open>
  A publish, of a result or to the dead-letter subject, is one call of the broker, which the
  trace records with its outcome; nothing else happens.
\<close>

locale message_transport =
  fixes pub_result :: "string \<Rightarrow> generation_result \<Rightarrow> (world, unit) io"
    and pub_dlq :: "bytes \<Rightarrow> headers \<Rightarrow> (world, unit) io"
    and wire :: "generation_result \<Rightarrow> bytes"
    and dlq_subject :: string
  assumes pub_result_trace: "pub_result subject r w = (x, w') \<Longrightarrow>
      trace w' = trace w @ [EvPublish subject (wire r) (result_headers r) (is_ok x)]"
    and pub_dlq_trace: "pub_dlq payload hdrs w = (x, w') \<Longrightarrow>
      trace w' = trace w @ [EvPublish dlq_subject payload hdrs (is_ok x)]"

interpretation nats: message_transport "publish_result E pd" "publish_dlq E dlq" "to_json_bytes pd" dlq
  for E pd dlq
  by unfold_locales (auto simp: publish_result_def publish_dlq_def js_publish_def io_simps)

end
