(* ===== verification/Orchestrator.thy ===== *)
theory Orchestrator
  imports Ports
begin

text \<open>
  \<open>domain/orchestrator.py\<close>: \<open>process_request\<close>, in the order of its steps: fetch, check every
  requested format, validate, render every format, store every artifact, build the result.
  The \<open>try\<close> statement's mutable \<open>template_version\<close> is \<open>None\<close> up to the end of the fetch
  and the manifest's version after it; the handler sees the value of the moment.
\<close>

section \<open>The pipeline\<close>

definition build_object_key :: "string \<Rightarrow> string \<Rightarrow> string" where
  "build_object_key key_prefix filename =
     rstrip_char CHR ''/'' key_prefix @ ''/'' @ lstrip_char CHR ''/'' filename"

text \<open>The \<open>except DocGenError\<close> clause, for a known value of \<open>template_version\<close>.\<close>

definition handle_docgen ::
  "generation_request \<Rightarrow> string \<Rightarrow> string option \<Rightarrow> exn \<Rightarrow> ('w, generation_result) io" where
  "handle_docgen req generated_at version e =
     (case e of DocGenError cls msg \<Rightarrow> ret (failure_from_error req cls msg generated_at version)
      | _ \<Rightarrow> raise e)"

text \<open>The loop that fills the \<open>renderers\<close> dict, or raises for the first unsupported format.\<close>

fun check_formats ::
  "('w, 'r) ports \<Rightarrow> manifest \<Rightarrow> output_format list \<Rightarrow> (output_format \<times> 'r) list \<Rightarrow>
   exn + (output_format \<times> 'r) list" where
  "check_formats P m [] renderers = Inr renderers"
| "check_formats P m (fmt # fmts) renderers =
     (if fmt \<notin> set (man_supported_formats m)
      then Inl (DocGenError UnsupportedFormatError
        (''format '' @ py_repr (format_value fmt) @ '' not in template supported_formats '' @
         repr_list (map format_value (man_supported_formats m))))
      else case p_get_renderer P (man_engine m) fmt of
        None \<Rightarrow> Inl (DocGenError UnsupportedFormatError
          (''no renderer for engine '' @ py_repr (engine_value (man_engine m)) @
           '' + format '' @ py_repr (format_value fmt)))
      | Some r \<Rightarrow> check_formats P m fmts (dict_set renderers fmt r))"

fun render_formats ::
  "('w, 'r) ports \<Rightarrow> generation_request \<Rightarrow> template_bundle \<Rightarrow> (output_format \<times> 'r) list \<Rightarrow>
   output_format list \<Rightarrow> ('w, rendered_artifact list) io" where
  "render_formats P req bundle renderers [] = ret []"
| "render_formats P req bundle renderers (fmt # fmts) =
     (case map_of renderers fmt of
        None \<Rightarrow> raise (OtherError ''KeyError'')
      | Some r \<Rightarrow>
          and_then (p_run P r bundle (req_data req) fmt (opt_locale (req_options req))) (\<lambda>art.
          and_then (render_formats P req bundle renderers fmts) (\<lambda>arts.
          ret (art # arts))))"

fun store_artifacts ::
  "('w, 'r) ports \<Rightarrow> generation_request \<Rightarrow> rendered_artifact list \<Rightarrow> ('w, artifact list) io" where
  "store_artifacts P req [] = ret []"
| "store_artifacts P req (art # arts) =
     and_then (p_put P (build_object_key (req_key_prefix req) (ra_filename art)) (ra_content art)
                (ra_content_type art) (opt_presign_ttl (req_options req))) (\<lambda>stored.
     and_then (store_artifacts P req arts) (\<lambda>rest.
     ret (\<lparr>art_format = ra_format art, art_uri = st_uri stored,
           art_presigned_url = st_presigned_url stored, art_size_bytes = st_size_bytes stored,
           art_sha256 = st_sha256 stored\<rparr> # rest)))"

definition process_bundle ::
  "('w, 'r) ports \<Rightarrow> generation_request \<Rightarrow> string \<Rightarrow> template_bundle \<Rightarrow> ('w, generation_result) io" where
  "process_bundle P req generated_at bundle =
     and_then (lift_result (check_formats P (bun_manifest bundle) (requested_formats req) [])) (\<lambda>renderers.
     and_then (lift_result (p_validate P (req_data req) (man_required_fields (bun_manifest bundle)))) (\<lambda>_.
     and_then (render_formats P req bundle renderers (requested_formats req)) (\<lambda>rendered.
     and_then (store_artifacts P req rendered) (\<lambda>artifacts.
     ret (success_result req artifacts (man_version (bun_manifest bundle)) generated_at)))))"

definition process_request ::
  "('w, 'r) ports \<Rightarrow> generation_request \<Rightarrow> string \<Rightarrow> ('w, generation_result) io" where
  "process_request P req generated_at =
     (\<lambda>w. case p_fetch P (req_template_uri req) w of
        (Inl e, w') \<Rightarrow> handle_docgen req generated_at None e w'
      | (Inr bundle, w') \<Rightarrow>
          try_except (process_bundle P req generated_at bundle) is_DocGenError
            (handle_docgen req generated_at (Some (man_version (bun_manifest bundle)))) w')"

section \<open>Object keys\<close>

text \<open>Trailing slashes of the prefix and leading slashes of the file name do not matter.\<close>

lemma build_object_key_slashes:
  "build_object_key (p @ replicate m CHR ''/'') (replicate n CHR ''/'' @ f) = build_object_key p f"
  by (simp add: build_object_key_def rstrip_char_replicate lstrip_char_replicate)

text \<open>The key is the prefix and the name joined by one slash, with no slash doubled at the joint.\<close>

lemma build_object_key_joint:
  "\<exists>p f. build_object_key key_prefix filename = p @ ''/'' @ f \<and>
     (p = [] \<or> last p \<noteq> CHR ''/'') \<and> (f = [] \<or> hd f \<noteq> CHR ''/'') \<and>
     (\<exists>m. key_prefix = p @ replicate m CHR ''/'') \<and> (\<exists>n. filename = replicate n CHR ''/'' @ f)"
  unfolding build_object_key_def
  using rstrip_char_decomp lstrip_char_decomp rstrip_char_last lstrip_char_hd by metis

lemma build_object_key_inject:
  "build_object_key p (b @ e) = build_object_key p (b @ e') \<Longrightarrow>
   hd e \<noteq> CHR ''/'' \<Longrightarrow> hd e' \<noteq> CHR ''/'' \<Longrightarrow> e \<noteq> [] \<Longrightarrow> e' \<noteq> [] \<Longrightarrow> e = e'"
  by (simp add: build_object_key_def lstrip_char_append lstrip_char_id split: if_splits)

lemma object_key_distinct:
  "build_object_key p (filename_for m f) = build_object_key p (filename_for m g) \<longleftrightarrow> f = g"
proof
  assume eq: "build_object_key p (filename_for m f) = build_object_key p (filename_for m g)"
  have "''.'' @ extension f = ''.'' @ extension g"
    using eq unfolding filename_for_def by (rule build_object_key_inject) simp_all
  then show "f = g" by (simp add: extension_def)
qed simp

section \<open>Steps of the pipeline\<close>

lemma check_formats_renderers:
  assumes "check_formats P m fmts acc = Inr rs"
  shows "map_of rs f = (if f \<in> set fmts then p_get_renderer P (man_engine m) f else map_of acc f)"
    and "\<And>f. f \<in> set fmts \<Longrightarrow> f \<in> set (man_supported_formats m) \<and> p_get_renderer P (man_engine m) f \<noteq> None"
  using assms
  by (induction P m fmts acc rule: check_formats.induct) (auto split: if_splits option.splits)

lemma check_formats_raises:
  "check_formats P m fmts acc = Inl e \<Longrightarrow> \<exists>msg. e = DocGenError UnsupportedFormatError msg"
  by (induction P m fmts acc rule: check_formats.induct) (auto split: if_splits option.splits)

lemma check_formats_rejects:
  "f \<in> set fmts \<Longrightarrow> f \<notin> set (man_supported_formats m) \<or> p_get_renderer P (man_engine m) f = None \<Longrightarrow>
   \<exists>msg. check_formats P m fmts acc = Inl (DocGenError UnsupportedFormatError msg)"
  by (induction P m fmts acc rule: check_formats.induct) (auto split: if_splits option.splits)

lemma check_formats_accepts:
  "(\<And>f. f \<in> set fmts \<Longrightarrow> f \<in> set (man_supported_formats m) \<and> p_get_renderer P (man_engine m) f \<noteq> None) \<Longrightarrow>
   \<exists>rs. check_formats P m fmts acc = Inr rs"
  by (induction P m fmts acc rule: check_formats.induct) (auto split: option.splits)

text \<open>What a classified failure turns into.\<close>

lemma handle_docgen_run:
  "handle_docgen req g v (DocGenError cls msg) w = (Inr (failure_from_error req cls msg g v), w)"
  "\<not> is_DocGenError e \<Longrightarrow> handle_docgen req g v e w = (Inl e, w)"
  by (simp_all add: handle_docgen_def is_DocGenError_def split: exn.splits)

lemma process_request_fetch_fails:
  assumes "p_fetch P (req_template_uri req) w = (Inl e, w')"
  shows "process_request P req g w =
    (case e of DocGenError cls msg \<Rightarrow> Inr (failure_from_error req cls msg g None) | _ \<Rightarrow> Inl e, w')"
  using assms by (simp add: process_request_def handle_docgen_def split: exn.splits)

lemma process_request_fetched:
  assumes "p_fetch P (req_template_uri req) w = (Inr bundle, w1)"
    and "process_bundle P req g bundle w1 = (x, w')"
  shows "process_request P req g w =
    (case x of Inl (DocGenError cls msg) \<Rightarrow>
        Inr (failure_from_error req cls msg g (Some (man_version (bun_manifest bundle)))) | _ \<Rightarrow> x, w')"
  using assms
  by (auto simp: process_request_def io_simps handle_docgen_def is_DocGenError_def split: sum.splits exn.splits)

text \<open>A relation that the ports keep is kept by the pipeline.\<close>

lemma preserves_process_request:
  assumes "reflp R" "transp R" "\<And>uri. preserves R (p_fetch P uri)"
    "\<And>r b d f l. preserves R (p_run P r b d f l)" "\<And>k c t ttl. preserves R (p_put P k c t ttl)"
  shows "preserves R (process_request P req g)"
proof -
  have render: "preserves R (render_formats P req b rs fmts)" for b rs fmts
    by (induction fmts) (auto intro!: preserves_intros assms split: option.splits)
  have store: "preserves R (store_artifacts P req arts)" for arts
    by (induction arts) (auto intro!: preserves_intros assms)
  have handle: "preserves R (handle_docgen req g v e)" for v e
    by (auto simp: handle_docgen_def intro!: preserves_intros assms split: exn.splits)
  have body: "preserves R (process_bundle P req g b)" for b
    unfolding process_bundle_def by (auto intro!: preserves_intros assms render store)
  have "preserves R (try_except (process_bundle P req g b) is_DocGenError (handle_docgen req g v))" for b v
    by (intro preserves_try_except assms body handle)
  with handle show ?thesis
    unfolding process_request_def using preservesD [OF assms(3)] assms(2)
    by (auto simp: preserves_def split: prod.splits sum.splits) (meson transpD)+
qed

section \<open>What a run of the pipeline leaves behind\<close>

text \<open>
  The objects that a request asks for, once the contents \<open>cs\<close> of its requested formats are
  rendered from a template with manifest \<open>m\<close>: one object per format, in the order of the
  request, under a key that depends on nothing but the request's prefix and the manifest.
\<close>

definition planned_writes :: "generation_request \<Rightarrow> manifest \<Rightarrow> bytes list \<Rightarrow> (string \<times> bytes) list" where
  "planned_writes req m cs =
     map2 (\<lambda>fmt c. (build_object_key (req_key_prefix req) (filename_for m fmt), c)) (requested_formats req) cs"

text \<open>The artifact entry of the result tells the truth about the object.\<close>

definition describes ::
  "(string \<Rightarrow> string) \<Rightarrow> (bytes \<Rightarrow> string) \<Rightarrow> int option \<Rightarrow> output_format \<times> string \<times> bytes \<Rightarrow> artifact \<Rightarrow> bool" where
  "describes uri_of digest ttl obj a = (case obj of (fmt, k, c) \<Rightarrow>
     art_format a = fmt \<and> art_uri a = uri_of k \<and> art_size_bytes a = int (length c) \<and>
     art_sha256 a = digest c \<and> (ttl = None \<longrightarrow> art_presigned_url a = None))"

definition key_of :: "generation_request \<Rightarrow> rendered_artifact \<Rightarrow> string" where
  "key_of req a = build_object_key (req_key_prefix req) (ra_filename a)"

text \<open>A content that the renderer of a format has made of the template and the data of the request.\<close>

definition produced :: "('w, 'r) ports \<Rightarrow> template_bundle \<Rightarrow> generation_request \<Rightarrow> output_format \<Rightarrow> bytes \<Rightarrow> bool" where
  "produced P b req fmt c \<longleftrightarrow>
     (\<exists>r a w w'. p_get_renderer P (man_engine (bun_manifest b)) fmt = Some r \<and>
        p_run P r b (req_data req) fmt (opt_locale (req_options req)) w = (Inr a, w') \<and> ra_content a = c)"

lemma render_formats_produced:
  assumes "\<And>f. f \<in> set fmts \<Longrightarrow> map_of rs f = p_get_renderer P (man_engine (bun_manifest b)) f"
  shows "render_formats P req b rs fmts w = (Inr arts, w') \<Longrightarrow> list_all2 (produced P b req) fmts (map ra_content arts)"
  using assms
proof (induction fmts arbitrary: w w' arts)
  case (Cons fmt fmts)
  from Cons.prems obtain r a w1 arts' where "map_of rs fmt = Some r"
    "p_run P r b (req_data req) fmt (opt_locale (req_options req)) w = (Inr a, w1)"
    and rest: "render_formats P req b rs fmts w1 = (Inr arts', w')" "arts = a # arts'"
    by (auto simp: io_simps split: option.splits prod.splits sum.splits)
  then have "produced P b req fmt (ra_content a)" using Cons.prems(2) [of fmt] by (auto simp: produced_def)
  with Cons.IH [OF rest(1)] Cons.prems(2) rest(2) show ?case by simp
qed simp

lemma planned_keys_distinct: "distinct (map fst (planned_writes req m cs))"
proof -
  have "map fst (planned_writes req m cs) =
      map (\<lambda>fmt. build_object_key (req_key_prefix req) (filename_for m fmt))
        (take (length cs) (requested_formats req))"
    by (rule nth_equalityI) (auto simp: planned_writes_def)
  moreover have "inj_on (\<lambda>fmt. build_object_key (req_key_prefix req) (filename_for m fmt)) A" for A
    by (rule inj_onI) (simp add: object_key_distinct)
  ultimately show ?thesis by (simp add: distinct_map)
qed

text \<open>
  The orchestrator over any adapters that keep the contracts of \<open>Ports\<close>.
\<close>

locale pipeline =
  object_store_port "p_put P" uri_of digest writes uncertain +
  render_executor_port "p_run P" writes +
  template_store_port "p_fetch P" writes +
  validator_port "p_validate P"
  for P :: "('w, 'r) ports"
    and uri_of :: "string \<Rightarrow> string" and digest :: "bytes \<Rightarrow> string"
    and writes :: "'w \<Rightarrow> (string \<times> bytes) list" and uncertain :: "exn \<Rightarrow> bool"
begin

lemma render_formats_writes:
  "render_formats P req b rs fmts w = (x, w') \<Longrightarrow> writes w' = writes w"
proof (induction fmts arbitrary: w w' x)
  case (Cons fmt fmts)
  then show ?case
    by (auto simp: io_simps split: option.splits prod.splits sum.splits dest: run_writes)
qed simp

lemma render_formats_names:
  "render_formats P req b rs fmts w = (Inr arts, w') \<Longrightarrow>
   map ra_format arts = fmts \<and> map ra_filename arts = map (filename_for (bun_manifest b)) fmts"
proof (induction fmts arbitrary: w w' arts)
  case (Cons fmt fmts)
  then show ?case
    by (auto simp: io_simps split: option.splits prod.splits sum.splits dest: run_names)
qed simp

lemma store_artifacts_ok:
  "store_artifacts P req arts w = (Inr as, w') \<Longrightarrow>
   writes w' = writes w @ map (\<lambda>a. (key_of req a, ra_content a)) arts \<and>
   list_all2 (\<lambda>a r. describes uri_of digest (opt_presign_ttl (req_options req))
     (ra_format a, key_of req a, ra_content a) r) arts as"
proof (induction arts arbitrary: w w' as)
  case (Cons a arts)
  then show ?case
    by (auto simp: io_simps key_of_def describes_def split: prod.splits sum.splits
        dest: put_writes put_describes)
qed simp

lemma store_artifacts_raises:
  "store_artifacts P req arts w = (Inl e, w') \<Longrightarrow>
   \<exists>n \<le> length arts. (n = length arts \<longrightarrow> uncertain e) \<and>
     writes w' = writes w @ map (\<lambda>a. (key_of req a, ra_content a)) (take n arts)"
proof (induction arts arbitrary: w w')
  case (Cons a arts)
  from Cons.prems consider
    (here) "p_put P (build_object_key (req_key_prefix req) (ra_filename a)) (ra_content a)
        (ra_content_type a) (opt_presign_ttl (req_options req)) w = (Inl e, w')"
  | (later) s w1 where "p_put P (build_object_key (req_key_prefix req) (ra_filename a)) (ra_content a)
        (ra_content_type a) (opt_presign_ttl (req_options req)) w = (Inr s, w1)"
      "store_artifacts P req arts w1 = (Inl e, w')"
    by (auto simp: io_simps split: prod.splits sum.splits)
  then show ?case
  proof cases
    case here
    from put_raises [OF here] show ?thesis
    proof
      assume "writes w' = writes w"
      then show ?thesis by (intro exI [of _ 0]) simp
    next
      assume "uncertain e \<and>
        writes w' = writes w @ [(build_object_key (req_key_prefix req) (ra_filename a), ra_content a)]"
      then show ?thesis by (intro exI [of _ 1]) (simp add: key_of_def)
    qed
  next
    case later
    obtain n where "n \<le> length arts" "n = length arts \<longrightarrow> uncertain e"
      "writes w' = writes w1 @ map (\<lambda>a. (key_of req a, ra_content a)) (take n arts)"
      using Cons.IH [OF later(2)] by blast
    then show ?thesis using put_writes [OF later(1)]
      by (intro exI [of _ "Suc n"]) (simp add: key_of_def)
  qed
qed simp

lemma planned_writes_rendered:
  assumes "render_formats P req b rs (requested_formats req) w = (Inr arts, w')"
  shows "map (\<lambda>a. (key_of req a, ra_content a)) arts =
      planned_writes req (bun_manifest b) (map ra_content arts)"
proof -
  have names: "map ra_filename arts = map (filename_for (bun_manifest b)) (requested_formats req)"
    using render_formats_names [OF assms] by blast
  show ?thesis
  proof (rule nth_equalityI)
    show "length (map (\<lambda>a. (key_of req a, ra_content a)) arts) =
        length (planned_writes req (bun_manifest b) (map ra_content arts))"
      using arg_cong [OF names, of length] by (simp add: planned_writes_def)
  next
    fix i assume i: "i < length (map (\<lambda>a. (key_of req a, ra_content a)) arts)"
    then have "ra_filename (arts ! i) = filename_for (bun_manifest b) (requested_formats req ! i)"
      using arg_cong [OF names, of "\<lambda>l. l ! i"] arg_cong [OF names, of length] by simp
    then show "map (\<lambda>a. (key_of req a, ra_content a)) arts ! i =
        planned_writes req (bun_manifest b) (map ra_content arts) ! i"
      using i arg_cong [OF names, of length] by (simp add: planned_writes_def key_of_def)
  qed
qed

lemma process_bundle_ok:
  assumes "process_bundle P req g b w = (Inr r, w')"
  shows "\<exists>cs as. length cs = length (requested_formats req) \<and>
    writes w' = writes w @ planned_writes req (bun_manifest b) cs \<and>
    r = success_result req as (man_version (bun_manifest b)) g \<and>
    list_all2 (describes uri_of digest (opt_presign_ttl (req_options req)))
      (zip (requested_formats req) (planned_writes req (bun_manifest b) cs)) as \<and>
    (\<forall>f \<in> set (requested_formats req). f \<in> set (man_supported_formats (bun_manifest b))) \<and>
    p_validate P (req_data req) (man_required_fields (bun_manifest b)) = Inr () \<and>
    list_all2 (produced P b req) (requested_formats req) cs"
proof -
  let ?fs = "requested_formats req" and ?m = "bun_manifest b"
  from assms obtain rs arts w1 as where
    chk: "check_formats P ?m ?fs [] = Inr rs" and
    val: "p_validate P (req_data req) (man_required_fields ?m) = Inr ()" and
    ren: "render_formats P req b rs ?fs w = (Inr arts, w1)" and
    sto: "store_artifacts P req arts w1 = (Inr as, w')" and
    r: "r = success_result req as (man_version ?m) g"
    by (auto simp: process_bundle_def io_simps split: prod.splits sum.splits)
  let ?cs = "map ra_content arts"
  have fmts: "map ra_format arts = ?fs" using render_formats_names [OF ren] by blast
  note pw = planned_writes_rendered [OF ren]
  have "zip ?fs (planned_writes req ?m ?cs) = map (\<lambda>a. (ra_format a, key_of req a, ra_content a)) arts"
    unfolding pw [symmetric] fmts [symmetric] by (induction arts) auto
  then have "list_all2 (describes uri_of digest (opt_presign_ttl (req_options req)))
      (zip ?fs (planned_writes req ?m ?cs)) as"
    using store_artifacts_ok [OF sto] by (simp add: list_all2_map1)
  moreover have "writes w' = writes w @ planned_writes req ?m ?cs"
    using store_artifacts_ok [OF sto] render_formats_writes [OF ren] pw by simp
  moreover have "length ?cs = length ?fs" using arg_cong [OF fmts, of length] by simp
  moreover have "list_all2 (produced P b req) ?fs ?cs"
    by (rule render_formats_produced [OF _ ren]) (simp add: check_formats_renderers(1) [OF chk])
  ultimately show ?thesis
    using r val check_formats_renderers(2) [OF chk] by blast
qed

lemma process_bundle_raises:
  assumes "process_bundle P req g b w = (Inl e, w')"
  shows "writes w' = writes w \<or>
    (\<exists>cs n. length cs = length (requested_formats req) \<and> n \<le> length cs \<and>
      (n = length cs \<longrightarrow> uncertain e) \<and>
      writes w' = writes w @ take n (planned_writes req (bun_manifest b) cs))"
proof -
  let ?fs = "requested_formats req" and ?m = "bun_manifest b"
  from assms consider
    "writes w' = writes w"
  | rs arts w1 where "render_formats P req b rs ?fs w = (Inr arts, w1)"
      "store_artifacts P req arts w1 = (Inl e, w')"
    by (auto simp: process_bundle_def io_simps split: prod.splits sum.splits dest: render_formats_writes)
  then show ?thesis
  proof cases
    case 2
    obtain n where "n \<le> length arts" "n = length arts \<longrightarrow> uncertain e"
      "writes w' = writes w1 @ map (\<lambda>a. (key_of req a, ra_content a)) (take n arts)"
      using store_artifacts_raises [OF 2(2)] by blast
    moreover have "length arts = length ?fs"
      using render_formats_names [OF 2(1)] by (metis length_map)
    ultimately show ?thesis
      using render_formats_writes [OF 2(1)] planned_writes_rendered [OF 2(1), symmetric]
      by (intro disjI2 exI [of _ "map ra_content arts"] exI [of _ n]) (simp add: take_map)
  qed simp
qed

lemma process_request_cases:
  assumes "process_request P req g w = (x, w')"
  obtains
    (unfetched) e where "p_fetch P (req_template_uri req) w = (Inl e, w')"
      "x = (case e of DocGenError cls msg \<Rightarrow> Inr (failure_from_error req cls msg g None) | _ \<Rightarrow> Inl e)"
  | (raised) b w1 e where "p_fetch P (req_template_uri req) w = (Inr b, w1)"
      "process_bundle P req g b w1 = (Inl e, w')"
      "x = (case e of DocGenError cls msg \<Rightarrow>
        Inr (failure_from_error req cls msg g (Some (man_version (bun_manifest b)))) | _ \<Rightarrow> Inl e)"
  | (built) b w1 r where "p_fetch P (req_template_uri req) w = (Inr b, w1)"
      "process_bundle P req g b w1 = (Inr r, w')" "x = Inr r"
proof (cases "p_fetch P (req_template_uri req) w")
  case (Pair y w1)
  show ?thesis
  proof (cases y)
    case (Inl e)
    then show ?thesis using assms Pair process_request_fetch_fails [of P req w e w1 g] unfetched by auto
  next
    case (Inr b)
    obtain z w2 where z: "process_bundle P req g b w1 = (z, w2)" by (cases "process_bundle P req g b w1")
    have eq: "process_request P req g w = (case z of Inl (DocGenError cls msg) \<Rightarrow>
        Inr (failure_from_error req cls msg g (Some (man_version (bun_manifest b)))) | _ \<Rightarrow> z, w2)"
      by (rule process_request_fetched) (use Pair Inr z in auto)
    show ?thesis
    proof (cases z)
      case (Inl e)
      show ?thesis
        by (rule raised [of b w1 e]) (use Pair Inr z Inl eq assms in \<open>auto split: exn.splits\<close>)
    next
      case (Inr r)
      show ?thesis
        by (rule built [of b w1 r]) (use Pair \<open>y = Inr b\<close> z Inr eq assms in auto)
    qed
  qed
qed

text \<open>A success has stored exactly what was asked for, and says so.\<close>

lemma success_stores_everything:
  assumes run: "process_request P req g w = (Inr r, w')" and ok: "res_status r = SUCCESS"
  shows "\<exists>b w1 cs. p_fetch P (req_template_uri req) w = (Inr b, w1) \<and>
    length cs = length (requested_formats req) \<and>
    writes w' = writes w @ planned_writes req (bun_manifest b) cs \<and>
    list_all2 (describes uri_of digest (opt_presign_ttl (req_options req)))
      (zip (requested_formats req) (planned_writes req (bun_manifest b) cs)) (res_artifacts r) \<and>
    res_template_version r = Some (man_version (bun_manifest b)) \<and>
    p_validate P (req_data req) (man_required_fields (bun_manifest b)) = Inr () \<and>
    list_all2 (produced P b req) (requested_formats req) cs"
  using run
proof (cases rule: process_request_cases)
  case (unfetched e)
  with ok show ?thesis by (auto simp: result_defs split: exn.splits)
next
  case (raised b w1 e)
  with ok show ?thesis by (auto simp: result_defs split: exn.splits)
next
  case (built b w1 r')
  then show ?thesis
    using process_bundle_ok [OF built(2)] fetch_writes [OF built(1)] by (fastforce simp: result_defs)
qed

text \<open>
  A failed result has stored at most an initial part of it, a proper one unless its failure is an
  uncertain one; an exception, at most an initial part.
\<close>

lemma failure_stores_initial_part:
  assumes run: "process_request P req g w = (Inr r, w')" and no: "res_status r = FAILED"
  shows "writes w' = writes w \<or>
    (\<exists>b w1 cs n. p_fetch P (req_template_uri req) w = (Inr b, w1) \<and>
      length cs = length (requested_formats req) \<and> n \<le> length cs \<and>
      (n = length cs \<longrightarrow> (\<exists>e. is_DocGenError e \<and> uncertain e)) \<and>
      writes w' = writes w @ take n (planned_writes req (bun_manifest b) cs))"
  using run
proof (cases rule: process_request_cases)
  case (unfetched e)
  then show ?thesis using fetch_writes by blast
next
  case (raised b w1 e)
  then have "is_DocGenError e" by (auto split: exn.splits)
  then show ?thesis using process_bundle_raises [OF raised(2)] fetch_writes [OF raised(1)] raised(1)
    by metis
next
  case (built b w1 r')
  then show ?thesis using process_bundle_ok [OF built(2)] no by (auto simp: result_defs)
qed

lemma exception_stores_initial_part:
  assumes run: "process_request P req g w = (Inl e, w')"
  shows "writes w' = writes w \<or>
    (\<exists>b w1 cs n. p_fetch P (req_template_uri req) w = (Inr b, w1) \<and>
      length cs = length (requested_formats req) \<and> n \<le> length cs \<and>
      writes w' = writes w @ take n (planned_writes req (bun_manifest b) cs))"
  using run
proof (cases rule: process_request_cases)
  case (unfetched e')
  then show ?thesis using fetch_writes by blast
next
  case (raised b w1 e')
  then show ?thesis using process_bundle_raises [OF raised(2)] fetch_writes [OF raised(1)] by metis
qed simp

text \<open>
  The gates before rendering: an unsupported format or invalid data ends the run in the world
  that the fetch left, with the permanent failure of its class.
\<close>

lemma format_gate:
  assumes "p_fetch P (req_template_uri req) w = (Inr b, w1)"
    and "fmt \<in> set (req_outputs req)"
    and "fmt \<notin> set (man_supported_formats (bun_manifest b)) \<or>
      p_get_renderer P (man_engine (bun_manifest b)) fmt = None"
  shows "\<exists>msg. process_request P req g w =
    (Inr (failure_from_error req UnsupportedFormatError msg g (Some (man_version (bun_manifest b)))), w1)"
proof -
  have "fmt \<in> set (requested_formats req)" using assms(2) by simp
  then obtain msg where
    "check_formats P (bun_manifest b) (requested_formats req) [] = Inl (DocGenError UnsupportedFormatError msg)"
    using check_formats_rejects [OF _ assms(3)] by blast
  then show ?thesis
    using process_request_fetched [OF assms(1)] by (auto simp: process_bundle_def io_simps)
qed

lemma validation_gate:
  assumes "p_fetch P (req_template_uri req) w = (Inr b, w1)"
    and "check_formats P (bun_manifest b) (requested_formats req) [] = Inr rs"
    and "p_validate P (req_data req) (man_required_fields (bun_manifest b)) = Inl (DocGenError cls msg)"
  shows "process_request P req g w =
    (Inr (failure_from_error req SchemaValidationError msg g (Some (man_version (bun_manifest b)))), w1)"
  using process_request_fetched [OF assms(1)] assms(2,3) validate_raises [OF assms(3)]
  by (simp add: process_bundle_def io_simps)

text \<open>Every result is about the request, and no classified failure escapes as an exception.\<close>

lemma results_ok: "process_request P req g w = (Inr r, w') \<Longrightarrow> result_ok req r"
  by (erule process_request_cases) (auto split: exn.splits dest: process_bundle_ok)

lemma classified_never_escape: "process_request P req g w = (Inl e, w') \<Longrightarrow> \<not> is_DocGenError e"
  by (erule process_request_cases) (auto simp: is_DocGenError_def split: exn.splits)

end

end
