(* ===== verification/Dispatcher.thy ===== *)
theory Dispatcher
  imports NatsTransport Orchestrator
begin

text \<open>
  \<open>worker/dispatcher.py\<close>: what becomes of one delivered message. A message is its payload and
  the delivery count of its metadata, which may be unreadable; acknowledging and refusing it
  are calls of the broker.
\<close>

record msg =
  msg_data :: bytes
  msg_delivery :: "int option"

definition msg_ack :: "env \<Rightarrow> (world, unit) io" where
  "msg_ack E = await E (env_ack E) EvAck"

definition msg_nak :: "env \<Rightarrow> int \<Rightarrow> (world, unit) io" where
  "msg_nak E delay = await E (\<lambda>tr. env_nak E tr delay) (EvNak delay)"

record 'r handler_deps =
  dep_ports :: "(world, 'r) ports"
  dep_publish_result :: "string \<Rightarrow> generation_result \<Rightarrow> (world, unit) io"
  dep_publish_dlq :: "bytes \<Rightarrow> headers \<Rightarrow> (world, unit) io"
  dep_max_deliver :: int
  dep_nak_delay :: int
  dep_clock :: "event list \<Rightarrow> string"

section \<open>The handler\<close>

definition decode :: "pydantic \<Rightarrow> bytes \<Rightarrow> generation_request option" where
  "decode pd raw =
     (case model_validate_json pd ''GenerationRequest'' (decode_request pd) raw of
        Inl _ \<Rightarrow> None | Inr req \<Rightarrow> Some req)"

definition num_delivered :: "msg \<Rightarrow> int" where
  "num_delivered m = (case msg_delivery m of None \<Rightarrow> 1 | Some n \<Rightarrow> n)"

definition is_terminal :: "generation_result \<Rightarrow> bool" where
  "is_terminal r \<longleftrightarrow>
     res_status r = SUCCESS \<or> (case res_error r of None \<Rightarrow> False | Some e \<Rightarrow> err_permanent e)"

definition dlq_headers :: "generation_request \<Rightarrow> generation_result \<Rightarrow> headers" where
  "dlq_headers req r =
     [(HEADER_REQUEST_ID, req_request_id req),
      (HEADER_DLQ_REASON, case res_error r of None \<Rightarrow> ''unknown'' | Some e \<Rightarrow> err_code e)]"

definition build_result :: "'r handler_deps \<Rightarrow> generation_request \<Rightarrow> (world, generation_result) io" where
  "build_result D req =
     try_except (\<lambda>w. process_request (dep_ports D) req (dep_clock D (trace w)) w) is_Exception
       (\<lambda>_ w. ret (failure_result req (code_str RENDER_ERROR) ''unhandled_worker_error'' False
                    (dep_clock D (trace w)) None) w)"

definition emit ::
  "env \<Rightarrow> 'r handler_deps \<Rightarrow> msg \<Rightarrow> generation_request \<Rightarrow> generation_result \<Rightarrow> (world, string) io" where
  "emit E D m req r =
     (if is_terminal r
      then and_then (dep_publish_result D (req_reply_to req) r) (\<lambda>_.
           and_then (msg_ack E) (\<lambda>_.
           ret (if res_status r = SUCCESS then ''ack'' else ''ack_permanent_fail'')))
      else if num_delivered m < dep_max_deliver D
      then and_then (msg_nak E (dep_nak_delay D)) (\<lambda>_. ret ''nak'')
      else and_then (dep_publish_result D (req_reply_to req) r) (\<lambda>_.
           and_then (dep_publish_dlq D (msg_data m) (dlq_headers req r)) (\<lambda>_.
           and_then (msg_ack E) (\<lambda>_.
           ret ''dlq''))))"

definition handle_emit_failure ::
  "env \<Rightarrow> 'r handler_deps \<Rightarrow> msg \<Rightarrow> generation_request \<Rightarrow> (world, string) io" where
  "handle_emit_failure E D m req =
     (if num_delivered m < dep_max_deliver D
      then and_then (suppress (msg_nak E (dep_nak_delay D))) (\<lambda>_. ret ''emit_error_nak'')
      else and_then (suppress (dep_publish_dlq D (msg_data m)
                       [(HEADER_REQUEST_ID, req_request_id req), (HEADER_DLQ_REASON, ''emit_failure'')])) (\<lambda>_.
           and_then (suppress (msg_ack E)) (\<lambda>_. ret ''emit_error_dlq'')))"

fun count_documents :: "artifact list \<Rightarrow> (world, unit) io" where
  "count_documents [] = ret ()"
| "count_documents (a # as) =
     and_then (emit_event (EvDocumentMetric (format_value (art_format a)))) (\<lambda>_. count_documents as)"

definition emit_and_count ::
  "env \<Rightarrow> 'r handler_deps \<Rightarrow> msg \<Rightarrow> generation_request \<Rightarrow> generation_result \<Rightarrow> (world, unit) io" where
  "emit_and_count E D m req r =
     and_then (emit E D m req r) (\<lambda>outcome.
     and_then (emit_event (EvMessageMetric outcome)) (\<lambda>_.
     if res_status r = SUCCESS then count_documents (res_artifacts r) else ret ()))"

definition emit_failed ::
  "env \<Rightarrow> 'r handler_deps \<Rightarrow> msg \<Rightarrow> generation_request \<Rightarrow> (world, unit) io" where
  "emit_failed E D m req =
     and_then (handle_emit_failure E D m req) (\<lambda>outcome. emit_event (EvMessageMetric outcome))"

definition drop_undecodable :: "env \<Rightarrow> 'r handler_deps \<Rightarrow> msg \<Rightarrow> (world, unit) io" where
  "drop_undecodable E D m =
     and_then (suppress (dep_publish_dlq D (msg_data m) [(HEADER_DLQ_REASON, ''decode'')])) (\<lambda>_.
     and_then (msg_ack E) (\<lambda>_.
     emit_event (EvMessageMetric ''drop_decode'')))"

text \<open>
  The \<open>try\<close> statement of \<open>_handle_message\<close>: the label of the duration in the \<open>finally\<close> clause
  is \<open>unknown\<close> until the result is built, and its status afterwards.
\<close>

definition handle_request ::
  "env \<Rightarrow> 'r handler_deps \<Rightarrow> msg \<Rightarrow> generation_request \<Rightarrow> (world, unit) io" where
  "handle_request E D m req =
     (\<lambda>w. case build_result D req w of
        (Inl e, w') \<Rightarrow>
          try_finally (if is_Exception e then emit_failed E D m req else raise e)
            (emit_event (EvDurationMetric ''unknown'')) w'
      | (Inr r, w') \<Rightarrow>
          try_finally (try_except (emit_and_count E D m req r) is_Exception (\<lambda>_. emit_failed E D m req))
            (emit_event (EvDurationMetric (status_value (res_status r)))) w')"

definition handle_message :: "env \<Rightarrow> pydantic \<Rightarrow> 'r handler_deps \<Rightarrow> msg \<Rightarrow> (world, unit) io" where
  "handle_message E pd D m =
     (case decode pd (msg_data m) of
        None \<Rightarrow> drop_undecodable E D m
      | Some req \<Rightarrow> handle_request E D m req)"

end
