(* ===== verification/RenderPaths.thy ===== *)
theory RenderPaths
  imports Ports
begin

text \<open>
  What the four renderers share: \<open>adapters/renderers/_paths.py\<close>, which keeps a manifest's
  entrypoint inside the template's directory, and the \<open>try\<close> statement around each engine's
  body, which turns whatever a library raises into a transient \<open>RenderError\<close>. A renderer is a
  function of the local disk, since it runs in one piece.
\<close>

definition resolve_template_file :: "fs \<Rightarrow> path \<Rightarrow> string \<Rightarrow> exn + path" where
  "resolve_template_file d root name =
     (case resolve_under root name of
        Inl e \<Rightarrow> Inl e
      | Inr target \<Rightarrow>
          if target \<noteq> root \<and> \<not> in_parents root target
          then Inl (DocGenError TemplateNotFoundError
                 (''template entrypoint escapes the template root: '' @ py_repr name))
          else if \<not> is_file d target
          then Inl (DocGenError TemplateNotFoundError (''template entrypoint not found: '' @ py_repr name))
          else Inr target)"

text \<open>The two \<open>except\<close> clauses of every \<open>render\<close> method.\<close>

definition classify_render :: "string \<Rightarrow> exn + 'a \<Rightarrow> exn + 'a" where
  "classify_render label r =
     (case r of
        Inr x \<Rightarrow> Inr x
      | Inl e \<Rightarrow> if is_DocGenError e then Inl e
                else if is_Exception e then Inl (DocGenError RenderError (label @ '': '' @ exn_str e))
                else Inl e)"

section \<open>Confinement and classification\<close>

lemma resolve_template_file_Inr:
  "resolve_template_file d root name = Inr t \<longleftrightarrow>
     resolve_under root name = Inr t \<and> prefix root t \<and> is_file d t"
  by (auto simp: resolve_template_file_def in_parents_def strict_prefix_def split: sum.splits)

text \<open>A regular relative entrypoint of a file that is there resolves to that file.\<close>

lemma resolve_template_file_regular:
  assumes "list_all clean_name (split_char CHR ''/'' name)" "CHR 0x00 \<notin> set name"
    and "is_file d (root @ split_char CHR ''/'' name)"
  shows "resolve_template_file d root name = Inr (root @ split_char CHR ''/'' name)"
proof -
  have "\<not> startswith name ''/''"
  proof
    assume "startswith name ''/''"
    then obtain t where "name = CHR ''/'' # t" by (auto simp: startswith_iff)
    with assms(1) show False by (simp add: clean_name_def)
  qed
  with assms show ?thesis
    by (simp add: resolve_template_file_Inr resolve_under_def resolve_parts_clean)
qed

text \<open>An entrypoint that leaves the directory, or names no file, is a permanent error.\<close>

lemma resolve_template_file_rejects:
  assumes "resolve_under root name = Inr t" "\<not> prefix root t \<or> \<not> is_file d t"
  shows "\<exists>msg. resolve_template_file d root name = Inl (DocGenError TemplateNotFoundError msg)"
  using assms
  by (auto simp: resolve_template_file_def in_parents_def strict_prefix_def)

lemma classify_render_simps [simp]:
  "classify_render l (Inr x) = Inr x"
  "classify_render l (Inl (DocGenError c m)) = Inl (DocGenError c m)"
  by (simp_all add: classify_render_def)

lemma classify_render_Inr [simp]: "classify_render l r = Inr x \<longleftrightarrow> r = Inr x"
  by (auto simp: classify_render_def split: sum.splits if_splits)

lemma classify_render_Inl: "classify_render l r = Inl e \<Longrightarrow> is_DocGenError e \<or> \<not> is_Exception e"
  by (auto simp: classify_render_def split: sum.splits if_splits)

lemma classify_render_other:
  "\<not> is_DocGenError e \<Longrightarrow> is_Exception e \<Longrightarrow>
   classify_render l (Inl e) = Inl (DocGenError RenderError (l @ '': '' @ exn_str e))"
  by (simp add: classify_render_def)

end
