(* ===== verification/JinjaHtml.thy ===== *)
theory JinjaHtml
  imports RenderPaths
begin

text \<open>
  \<open>adapters/renderers/jinja_html_pdf.py\<close>. Jinja2 and WeasyPrint are parameters: the text that
  the template renders to, from the files below the template's directory, and the PDF of an
  HTML text, whose assets WeasyPrint looks up from the directory as base url.
\<close>

record jinja_lib =
  jj_render :: "fs \<Rightarrow> path \<Rightarrow> string \<Rightarrow> pydict \<Rightarrow> string option \<Rightarrow> exn + string"
  wp_write_pdf :: "fs \<Rightarrow> string \<Rightarrow> path \<Rightarrow> exn + bytes"

definition render_html ::
  "jinja_lib \<Rightarrow> fs \<Rightarrow> template_bundle \<Rightarrow> pydict \<Rightarrow> string option \<Rightarrow> exn + string" where
  "render_html J d bundle data loc =
     res_bind (resolve_entrypoint (bun_manifest bundle)) (\<lambda>entrypoint.
     res_bind (resolve_template_file d (bun_root bundle) entrypoint) (\<lambda>_.
     jj_render J d (bun_root bundle) entrypoint data loc))"

definition jinja_render ::
  "jinja_lib \<Rightarrow> fs \<Rightarrow> template_bundle \<Rightarrow> pydict \<Rightarrow> output_format \<Rightarrow> string option \<Rightarrow>
   exn + rendered_artifact" where
  "jinja_render J d bundle data fmt loc =
     res_bind
       (classify_render ''jinja-html render failed''
         (res_bind (render_html J d bundle data loc) (\<lambda>html.
          if fmt = HTML then Inr (encode_utf8 html)
          else if fmt = PDF then wp_write_pdf J d html (bun_root bundle)
          else Inl (DocGenError RenderError
                 (''jinja-html engine cannot produce '' @ py_repr (format_value fmt)))))) (\<lambda>content.
     Inr \<lparr>ra_format = fmt, ra_filename = filename_for (bun_manifest bundle) fmt, ra_content = content\<rparr>)"

lemma jinja_render_names:
  "jinja_render J d b data fmt loc = Inr a \<Longrightarrow>
   ra_format a = fmt \<and> ra_filename a = filename_for (bun_manifest b) fmt"
  by (auto simp: jinja_render_def res_bind_Inr)

lemma jinja_render_Inl:
  "jinja_render J d b data fmt loc = Inl e \<Longrightarrow> is_DocGenError e \<or> \<not> is_Exception e"
  by (auto simp: jinja_render_def res_bind_Inl dest: classify_render_Inl)

end
