(* ===== verification/Ooxml.thy ===== *)
theory Ooxml
  imports RenderPaths
begin

text \<open>
  \<open>adapters/renderers/_ooxml.py\<close>: repacking an OOXML package so that nothing of the clock is
  left in it. A package is the list of its zip members; the zip format itself (\<open>zipfile\<close> with
  deflate) is a parameter, a reader and a writer of such lists.
\<close>

section \<open>The package\<close>

record zip_member =
  zm_name :: string
  zm_date :: "int list"
  zm_data :: bytes

record zip_lib =
  zip_read :: "bytes \<Rightarrow> exn + zip_member list"
  zip_write :: "zip_member list \<Rightarrow> exn + bytes"

definition fixed_zip_date :: "int list" where
  "fixed_zip_date = [1980, 1, 1, 0, 0, 0]"

definition fixed_iso :: bytes where
  "fixed_iso = ''2000-01-01T00:00:00Z''"

definition core_props :: string where
  "core_props = ''docProps/core.xml''"

definition content_types :: string where
  "content_types = ''[Content_Types].xml''"

section \<open>The regular expressions\<close>

text \<open>
  \<open>(<TAG[^>]*>)[^<]*(</TAG>)\<close> matched at the start of a text: the first group, the second
  group and what follows. Both classes exclude the character that must come next, so there is
  one way to match.
\<close>

definition match_tag :: "string \<Rightarrow> bytes \<Rightarrow> (bytes \<times> bytes \<times> bytes) option" where
  "match_tag tag s =
     (if \<not> startswith s (''<'' @ tag) then None
      else
        (let attrs = takeWhile (\<lambda>c. c \<noteq> CHR ''>'') (drop (length (''<'' @ tag)) s);
             after = drop (length (''<'' @ tag @ attrs)) s
         in if after = [] then None
            else (let close = dropWhile (\<lambda>c. c \<noteq> CHR ''<'') (tl after)
                  in if startswith close (''</'' @ tag @ ''>'')
                     then Some (''<'' @ tag @ attrs @ ''>'', ''</'' @ tag @ ''>'',
                                drop (length (''</'' @ tag @ ''>'')) close)
                     else None)))"

lemma match_tag_shorter: "match_tag tag s = Some (a, b, rest) \<Longrightarrow> length rest < length s"
proof -
  assume m: "match_tag tag s = Some (a, b, rest)"
  then obtain t where s: "s = ''<'' @ tag @ t"
    by (auto simp: match_tag_def startswith_iff split: if_splits)
  let ?after = "drop (length (takeWhile (\<lambda>c. c \<noteq> CHR ''>'') t)) t"
  from m s have "rest = drop (length (''</'' @ tag @ ''>'')) (dropWhile (\<lambda>c. c \<noteq> CHR ''<'') (tl ?after))"
    by (auto simp: match_tag_def Let_def split: if_splits)
  then have "length rest \<le> length (dropWhile (\<lambda>c. c \<noteq> CHR ''<'') (tl ?after))" by simp
  also have "\<dots> \<le> length (tl ?after)" by (rule length_dropWhile_le)
  also have "\<dots> \<le> length t" by simp
  finally show ?thesis using s by simp
qed

text \<open>\<open>PATTERN.sub(rb"\\g<1>" + ISO + rb"\\g<2>", data)\<close>: leftmost matches, from left to right.\<close>

function sub_tag :: "string \<Rightarrow> bytes \<Rightarrow> bytes" where
  "sub_tag tag [] = []"
| "sub_tag tag (c # s) =
     (case match_tag tag (c # s) of
        None \<Rightarrow> c # sub_tag tag s
      | Some (opening, closing, rest) \<Rightarrow> opening @ fixed_iso @ closing @ sub_tag tag rest)"
  by pat_completeness auto

termination
  by (relation "measure (\<lambda>(tag, s). length s)") (auto dest: match_tag_shorter)

definition pin_core_dates :: "bytes \<Rightarrow> bytes" where
  "pin_core_dates data = sub_tag ''dcterms:modified'' (sub_tag ''dcterms:created'' data)"

section \<open>Repacking\<close>

text \<open>
  \<open>{name: src.read(name) for name in src.namelist()}\<close>: \<open>read\<close> of a name that occurs twice
  gives the last member of that name.
\<close>

definition zip_members :: "zip_member list \<Rightarrow> (string \<times> bytes) list" where
  "zip_members ms = foldl (\<lambda>d m. dict_set d (zm_name m) (zm_data m)) [] ms"

definition ordered_names :: "string list \<Rightarrow> string list" where
  "ordered_names names =
     (if content_types \<in> set names then [content_types] else []) @
     sort (filter (\<lambda>n. n \<noteq> content_types) names)"

definition repacked_member :: "(string \<times> bytes) list \<Rightarrow> string \<Rightarrow> zip_member" where
  "repacked_member members name =
     (let data = (case map_of members name of None \<Rightarrow> [] | Some c \<Rightarrow> c)
      in \<lparr>zm_name = name, zm_date = fixed_zip_date,
          zm_data = (if name = core_props then pin_core_dates data else data)\<rparr>)"

definition normalise_ooxml_bytes :: "zip_lib \<Rightarrow> bytes \<Rightarrow> exn + bytes" where
  "normalise_ooxml_bytes Z raw =
     res_bind (zip_read Z raw) (\<lambda>src.
       let members = zip_members src
       in zip_write Z (map (repacked_member members) (ordered_names (map fst members))))"

section \<open>What the substitution does\<close>

definition xml_element :: "string \<Rightarrow> string \<Rightarrow> bytes \<Rightarrow> bytes" where
  "xml_element tag attrs body = ''<'' @ tag @ attrs @ ''>'' @ body @ ''</'' @ tag @ ''>''"

lemma match_tag_element:
  assumes "CHR ''>'' \<notin> set attrs" "CHR ''<'' \<notin> set body"
  shows "match_tag tag (xml_element tag attrs body @ rest) =
    Some (''<'' @ tag @ attrs @ ''>'', ''</'' @ tag @ ''>'', rest)"
proof -
  let ?tail = "body @ ''</'' @ tag @ ''>'' @ rest"
  have "takeWhile (\<lambda>c. c \<noteq> CHR ''>'') (attrs @ ''>'' @ ?tail) = attrs"
    using assms(1) by (subst takeWhile_append2) auto
  moreover have "dropWhile (\<lambda>c. c \<noteq> CHR ''<'') ?tail = ''</'' @ tag @ ''>'' @ rest"
    using assms(2) by (subst dropWhile_append2) auto
  ultimately show ?thesis
    by (simp add: match_tag_def xml_element_def Let_def startswith_def)
qed

lemma sub_tag_element:
  assumes "CHR ''>'' \<notin> set attrs" "CHR ''<'' \<notin> set body"
  shows "sub_tag tag (xml_element tag attrs body @ rest) = xml_element tag attrs fixed_iso @ sub_tag tag rest"
proof -
  have "\<exists>c s. xml_element tag attrs body @ rest = c # s" by (simp add: xml_element_def)
  then obtain c s where cs: "xml_element tag attrs body @ rest = c # s" by blast
  show ?thesis
    using match_tag_element [OF assms, of tag rest] by (simp add: cs xml_element_def)
qed

text \<open>A text in which the element's opening does not occur is copied as it is.\<close>

lemma sub_tag_copies:
  assumes "CHR ''<'' \<notin> set tag" "b = [] \<or> hd b = CHR ''<''"
  shows "\<not> sublist (''<'' @ tag) a \<Longrightarrow> sub_tag tag (a @ b) = a @ sub_tag tag b"
proof (induction a)
  case (Cons c a)
  have "\<not> startswith (c # a @ b) (''<'' @ tag)"
  proof
    assume "startswith (c # a @ b) (''<'' @ tag)"
    then obtain t where t: "(c # a) @ b = (''<'' @ tag) @ t" by (auto simp: startswith_iff)
    have "\<not> prefix (''<'' @ tag) (c # a)" using Cons.prems prefix_imp_sublist by blast
    then obtain u where u: "''<'' @ tag = (c # a) @ u" "u \<noteq> []" "b = u @ t"
      using t by (auto simp: append_eq_append_conv2 prefix_def)
    then have "hd u = CHR ''<''" using assms(2) by (cases u) auto
    moreover have "hd u \<in> set tag" using u by (cases u) auto
    ultimately show False using assms(1) by simp
  qed
  then have "match_tag tag (c # a @ b) = None" by (simp add: match_tag_def)
  moreover have "\<not> sublist (''<'' @ tag) a" using Cons.prems by (meson sublist_Cons_right)
  ultimately show ?case using Cons.IH by simp
qed simp

lemma sub_tag_copies_all: "CHR ''<'' \<notin> set tag \<Longrightarrow> \<not> sublist (''<'' @ tag) a \<Longrightarrow> sub_tag tag a = a"
  using sub_tag_copies [of tag "[]" a] by simp

text \<open>
  The core properties of a document, as both writers write them: one \<open>created\<close> and one
  \<open>modified\<close> element.
\<close>

definition core_xml :: "bytes \<Rightarrow> string \<Rightarrow> bytes \<Rightarrow> bytes \<Rightarrow> string \<Rightarrow> bytes \<Rightarrow> bytes \<Rightarrow> bytes" where
  "core_xml a ca t b ma u c =
     a @ xml_element ''dcterms:created'' ca t @ b @ xml_element ''dcterms:modified'' ma u @ c"

definition plain_text :: "bytes \<Rightarrow> bool" where
  "plain_text s \<longleftrightarrow> \<not> sublist ''<dcterms:created'' s \<and> \<not> sublist ''<dcterms:modified'' s"

text \<open>No occurrence in the parts, none across a joint at a tag.\<close>

lemma sublist_tag_joint:
  assumes "CHR ''<'' \<notin> set tag" "b = [] \<or> hd b = CHR ''<''"
  shows "sublist (''<'' @ tag) (a @ b) \<longleftrightarrow> sublist (''<'' @ tag) a \<or> sublist (''<'' @ tag) b"
proof
  assume "sublist (''<'' @ tag) (a @ b)"
  then consider "sublist (''<'' @ tag) a" | "sublist (''<'' @ tag) b"
    | x y where "''<'' @ tag = x @ y" "x \<noteq> []" "y \<noteq> []" "suffix x a" "prefix y b"
    by (auto simp: sublist_append) (metis append_Nil append_Nil2 prefix_imp_sublist suffix_imp_sublist)
  then show "sublist (''<'' @ tag) a \<or> sublist (''<'' @ tag) b"
  proof cases
    case 3
    then have "hd y = CHR ''<''" using assms(2) by (cases y; cases b) auto
    moreover have "hd y \<in> set tag" using 3(1-3) by (cases x; cases y) auto
    ultimately show ?thesis using assms(1) by simp
  qed auto
next
  assume "sublist (''<'' @ tag) a \<or> sublist (''<'' @ tag) b"
  then show "sublist (''<'' @ tag) (a @ b)"
    by (auto simp: sublist_append)
qed

lemma sublist_skip: "x \<notin> set y \<Longrightarrow> sublist (x # p) (y @ b) \<longleftrightarrow> sublist (x # p) b"
  by (induction y) (auto simp: sublist_Cons_right)

definition regular_core :: "bytes \<Rightarrow> string \<Rightarrow> bytes \<Rightarrow> string \<Rightarrow> bytes \<Rightarrow> bool" where
  "regular_core a ca b ma c \<longleftrightarrow> plain_text a \<and> plain_text b \<and> plain_text c \<and>
     list_all (\<lambda>x. x \<noteq> CHR ''<'' \<and> x \<noteq> CHR ''>'') (ca @ ma)"

lemma pin_core_dates_core_xml:
  assumes reg: "regular_core a ca b ma c" and t: "CHR ''<'' \<notin> set t" "CHR ''<'' \<notin> set u"
  shows "pin_core_dates (core_xml a ca t b ma u c) = core_xml a ca fixed_iso b ma fixed_iso c"
proof -
  let ?C = "''dcterms:created''" and ?M = "''dcterms:modified''"
  have ca: "CHR ''<'' \<notin> set ca" "CHR ''>'' \<notin> set ca" and ma: "CHR ''<'' \<notin> set ma" "CHR ''>'' \<notin> set ma"
    using reg by (auto simp: regular_core_def list_all_iff)
  have no: "\<not> sublist (''<'' @ ?C) x" "\<not> sublist (''<'' @ ?M) x" if "x \<in> {a, b, c}" for x
    using reg that by (auto simp: regular_core_def plain_text_def)
  have joint: "xml_element tag x y @ z = [] \<or> hd (xml_element tag x y @ z) = CHR ''<''" for tag x y z
    by (simp add: xml_element_def)
  have rest: "\<not> sublist (''<'' @ ?C) (b @ xml_element ?M ma u @ c)"
    using no [of b] no [of c] ma(1) t(2)
    by (subst sublist_tag_joint [OF _ joint])
      (simp_all add: xml_element_def sublist_Cons_right sublist_skip)
  have first: "\<not> sublist (''<'' @ ?M) (a @ xml_element ?C ca fixed_iso @ b)"
    using no [of a] no [of b] ca(1)
    by (subst sublist_tag_joint [OF _ joint])
      (simp_all add: xml_element_def sublist_Cons_right sublist_skip fixed_iso_def)
  have "sub_tag ?C (core_xml a ca t b ma u c) = a @ xml_element ?C ca fixed_iso @ b @ xml_element ?M ma u @ c"
    unfolding core_xml_def
    using sub_tag_copies [OF _ joint no(1)] sub_tag_element [OF ca(2) t(1)] sub_tag_copies_all [OF _ rest]
    by simp
  moreover have "sub_tag ?M ((a @ xml_element ?C ca fixed_iso @ b) @ xml_element ?M ma u @ c) =
      (a @ xml_element ?C ca fixed_iso @ b) @ xml_element ?M ma fixed_iso @ c"
    using sub_tag_copies [OF _ joint first] sub_tag_element [OF ma(2) t(2)] sub_tag_copies_all [OF _ no(2) [of c]]
    by simp
  ultimately show ?thesis by (simp add: pin_core_dates_def core_xml_def)
qed

section \<open>The repacked package\<close>

lemma zip_members_Nil [simp]: "zip_members [] = []"
  by (simp add: zip_members_def)

lemma zip_members_snoc: "zip_members (ms @ [m]) = dict_set (zip_members ms) (zm_name m) (zm_data m)"
  by (simp add: zip_members_def)

lemma zip_members_keys: "distinct (map fst (zip_members ms)) \<and> fst ` set (zip_members ms) = zm_name ` set ms"
  by (induction ms rule: rev_induct) (auto simp: zip_members_snoc)

text \<open>The content of a part: the last member of its name.\<close>

lemma zip_members_part:
  "map_of (zip_members ms) n = map_option zm_data (find (\<lambda>m. zm_name m = n) (rev ms))"
  by (induction ms rule: rev_induct) (auto simp: zip_members_snoc)

lemma ordered_names_set [simp]: "set (ordered_names ns) = set ns"
  by (auto simp: ordered_names_def)

lemma ordered_names_distinct: "distinct ns \<Longrightarrow> distinct (ordered_names ns)"
  by (auto simp: ordered_names_def)

text \<open>The order depends on the set of names only, and the content types come first.\<close>

lemma ordered_names_cong:
  assumes "set ns = set ns'" "distinct ns" "distinct ns'"
  shows "ordered_names ns = ordered_names ns'"
proof -
  have "sort (filter (\<lambda>n. n \<noteq> content_types) ns) = sort (filter (\<lambda>n. n \<noteq> content_types) ns')"
    by (rule sorted_distinct_set_unique) (use assms in auto)
  with assms(1) show ?thesis by (simp add: ordered_names_def)
qed

lemma ordered_names_first: "content_types \<in> set ns \<Longrightarrow> hd (ordered_names ns) = content_types"
  by (simp add: ordered_names_def)

definition part :: "zip_member list \<Rightarrow> string \<Rightarrow> bytes option" where
  "part ms name = map_of (zip_members ms) name"

text \<open>A part up to the two dates of the core properties.\<close>

definition undated_part :: "zip_member list \<Rightarrow> string \<Rightarrow> bytes option" where
  "undated_part ms name = map_option (if name = core_props then pin_core_dates else id) (part ms name)"

lemma repacked_member_undated:
  "repacked_member (zip_members ms) n =
     \<lparr>zm_name = n, zm_date = fixed_zip_date,
      zm_data = (case undated_part ms n of Some c \<Rightarrow> c | None \<Rightarrow> if n = core_props then pin_core_dates [] else [])\<rparr>"
  by (cases "map_of (zip_members ms) n")
    (simp_all add: undated_part_def part_def repacked_member_def Let_def)

lemma undated_part_dom: "n \<in> fst ` set (zip_members ms) \<longleftrightarrow> undated_part ms n \<noteq> None"
  by (simp add: undated_part_def part_def map_of_eq_None_iff)

lemma repacked_cong:
  assumes "\<And>n. undated_part ms n = undated_part ms' n"
  shows "map (repacked_member (zip_members ms)) (ordered_names (map fst (zip_members ms))) =
    map (repacked_member (zip_members ms')) (ordered_names (map fst (zip_members ms')))"
proof -
  have "fst ` set (zip_members ms) = fst ` set (zip_members ms')"
    by (rule set_eqI) (simp only: undated_part_dom assms)
  then have "ordered_names (map fst (zip_members ms)) = ordered_names (map fst (zip_members ms'))"
    using zip_members_keys by (intro ordered_names_cong) auto
  moreover have "repacked_member (zip_members ms) n = repacked_member (zip_members ms') n" for n
    by (simp add: repacked_member_undated assms)
  ultimately show ?thesis by simp
qed

text \<open>
  Two packages with the same parts, up to the dates in the core properties, become the same
  bytes, whatever the order, the dates and the repetitions of their members.
\<close>

lemma normalise_ooxml_cong:
  assumes "zip_read Z raw = Inr ms" "zip_read Z raw' = Inr ms'"
    and "\<And>n. undated_part ms n = undated_part ms' n"
  shows "normalise_ooxml_bytes Z raw = normalise_ooxml_bytes Z raw'"
  using assms(1,2) repacked_cong [OF assms(3)] by (simp add: normalise_ooxml_bytes_def Let_def)

text \<open>Two packages that were written at different times, or in a different order.\<close>

definition redated :: "zip_lib \<Rightarrow> bytes \<Rightarrow> bytes \<Rightarrow> bool" where
  "redated Z raw raw' \<longleftrightarrow>
     (\<exists>ms ms' a ca b ma c t u t' u'.
        zip_read Z raw = Inr ms \<and> zip_read Z raw' = Inr ms' \<and> regular_core a ca b ma c \<and>
        list_all (\<lambda>s. CHR ''<'' \<notin> set s) [t, u, t', u'] \<and>
        part ms core_props = Some (core_xml a ca t b ma u c) \<and>
        part ms' core_props = Some (core_xml a ca t' b ma u' c) \<and>
        (\<forall>n. n \<noteq> core_props \<longrightarrow> part ms n = part ms' n))"

lemma redated_normalised:
  assumes "redated Z raw raw'"
  shows "normalise_ooxml_bytes Z raw = normalise_ooxml_bytes Z raw'"
proof -
  from assms obtain ms ms' a ca b ma c t u t' u' where
    z: "zip_read Z raw = Inr ms" "zip_read Z raw' = Inr ms'" and reg: "regular_core a ca b ma c"
    and t: "CHR ''<'' \<notin> set t" "CHR ''<'' \<notin> set u" "CHR ''<'' \<notin> set t'" "CHR ''<'' \<notin> set u'"
    and core: "part ms core_props = Some (core_xml a ca t b ma u c)" "part ms' core_props = Some (core_xml a ca t' b ma u' c)"
    and rest: "\<And>n. n \<noteq> core_props \<Longrightarrow> part ms n = part ms' n"
    by (auto simp: redated_def)
  have "undated_part ms n = undated_part ms' n" for n
    using core rest pin_core_dates_core_xml [OF reg] t by (cases "n = core_props") (simp_all add: undated_part_def)
  then show ?thesis by (rule normalise_ooxml_cong [OF z])
qed

text \<open>The members handed to the writer.\<close>

lemma normalise_ooxml_members:
  assumes "zip_read Z raw = Inr ms"
  obtains ms' where "normalise_ooxml_bytes Z raw = zip_write Z ms'"
    and "map zm_name ms' = ordered_names (map fst (zip_members ms))"
    and "list_all (\<lambda>m. zm_date m = fixed_zip_date \<and> undated_part ms (zm_name m) = Some (zm_data m)) ms'"
proof
  let ?ms' = "map (repacked_member (zip_members ms)) (ordered_names (map fst (zip_members ms)))"
  show "normalise_ooxml_bytes Z raw = zip_write Z ?ms'"
    using assms by (simp add: normalise_ooxml_bytes_def Let_def)
  show "map zm_name ?ms' = ordered_names (map fst (zip_members ms))"
    by (simp add: repacked_member_def comp_def Let_def)
  have "undated_part ms n = Some (zm_data (repacked_member (zip_members ms) n))"
    if "n \<in> fst ` set (zip_members ms)" for n
    using that by (cases "undated_part ms n") (simp_all add: undated_part_dom repacked_member_undated)
  then show "list_all (\<lambda>m. zm_date m = fixed_zip_date \<and> undated_part ms (zm_name m) = Some (zm_data m)) ?ms'"
    by (simp add: list_all_iff) (simp add: repacked_member_def Let_def)
qed

end
