(* ===== verification/DocxRender.thy ===== *)
theory DocxRender
  imports Ooxml
begin

text \<open>
  \<open>adapters/renderers/docx.py\<close>. docxtpl is a parameter: rendering the template (which may
  raise), and the bytes of the saved document with the given core properties. The two
  settings of the Jinja environment that the renderer chooses, escaping and the finalizer, are
  arguments of it.
\<close>

record core_properties =
  cp_created :: "int \<times> int \<times> int"
  cp_modified :: "int \<times> int \<times> int"
  cp_last_modified_by :: string
  cp_author :: string
  cp_revision :: int

record jinja_environment =
  je_strict_undefined :: bool
  je_autoescape :: bool
  je_finalize :: "pyval \<Rightarrow> pyval"

record docx_lib =
  dx_render :: "bytes \<Rightarrow> (string \<times> pyval) list \<Rightarrow> jinja_environment \<Rightarrow> exn + unit"
  dx_save :: "bytes \<Rightarrow> (string \<times> pyval) list \<Rightarrow> jinja_environment \<Rightarrow> core_properties \<Rightarrow> exn + bytes"

text \<open>\<open>_normalise_properties\<close>: what the saved document says about its author and dates.\<close>

definition normalised_properties :: core_properties where
  "normalised_properties =
     \<lparr>cp_created = (2000, 1, 1), cp_modified = (2000, 1, 1),
      cp_last_modified_by = ''document-generation'', cp_author = ''document-generation'',
      cp_revision = 1\<rparr>"

definition docx_environment :: jinja_environment where
  "docx_environment =
     \<lparr>je_strict_undefined = True, je_autoescape = True,
      je_finalize = (\<lambda>value. if value = PyNone then PyStr [] else value)\<rparr>"

definition locale_value :: "string option \<Rightarrow> pyval" where
  "locale_value loc = (case loc of None \<Rightarrow> PyNone | Some l \<Rightarrow> PyStr l)"

definition docx_content ::
  "docx_lib \<Rightarrow> zip_lib \<Rightarrow> fs \<Rightarrow> template_bundle \<Rightarrow> pydict \<Rightarrow> string option \<Rightarrow> exn + bytes" where
  "docx_content X Z d bundle data loc =
     res_bind (resolve_entrypoint (bun_manifest bundle)) (\<lambda>entrypoint.
     res_bind (resolve_template_file d (bun_root bundle) entrypoint) (\<lambda>entry.
     res_bind (read_bytes entry d) (\<lambda>raw.
     let context = [(''data'', PyDict data), (''locale'', locale_value loc)]
     in res_bind (dx_render X raw context docx_environment) (\<lambda>_.
        res_bind (dx_save X raw context docx_environment normalised_properties) (\<lambda>saved.
        normalise_ooxml_bytes Z saved)))))"

definition docx_render ::
  "docx_lib \<Rightarrow> zip_lib \<Rightarrow> fs \<Rightarrow> template_bundle \<Rightarrow> pydict \<Rightarrow> output_format \<Rightarrow> string option \<Rightarrow>
   exn + rendered_artifact" where
  "docx_render X Z d bundle data fmt loc =
     (if fmt \<noteq> DOCX
      then Inl (DocGenError RenderError (''docx engine cannot produce '' @ py_repr (format_value fmt)))
      else
        res_bind (classify_render ''docx render failed'' (docx_content X Z d bundle data loc)) (\<lambda>content.
        Inr \<lparr>ra_format = fmt, ra_filename = filename_for (bun_manifest bundle) fmt, ra_content = content\<rparr>))"

lemma docx_render_names:
  "docx_render X Z d b data fmt loc = Inr a \<Longrightarrow>
   ra_format a = fmt \<and> ra_filename a = filename_for (bun_manifest b) fmt"
  by (auto simp: docx_render_def res_bind_Inr split: if_splits)

lemma docx_render_Inl:
  "docx_render X Z d b data fmt loc = Inl e \<Longrightarrow> is_DocGenError e \<or> \<not> is_Exception e"
  by (auto simp: docx_render_def res_bind_Inl split: if_splits dest: classify_render_Inl)

end
