(* ===== verification/PdfForm.thy ===== *)
theory PdfForm
  imports RenderPaths
begin

text \<open>
  \<open>adapters/renderers/pdf_form.py\<close>: which value goes into which field of an AcroForm. pypdf is
  a parameter: the fields a form declares, its number of pages, whether its writer has an
  identifier to pin, and the bytes written after a list of commands.
\<close>

record pdf_field =
  pf_type :: "string option"
  pf_states :: "string list option"

datatype pdf_command =
    NeedAppearances
  | UpdatePage nat "(string \<times> string) list"
  | PinId bytes

record pdf_lib =
  pf_fields :: "bytes \<Rightarrow> exn + (string \<times> pdf_field) list"
  pf_pages :: "bytes \<Rightarrow> nat"
  pf_has_id :: "bytes \<Rightarrow> bool"
  pf_write :: "bytes \<Rightarrow> pdf_command list \<Rightarrow> exn + bytes"
  pf_sha256 :: "bytes \<Rightarrow> bytes"

section \<open>Values of fields\<close>

definition is_checked :: "pyval \<Rightarrow> bool" where
  "is_checked value =
     (case value of
        PyStr s \<Rightarrow> lower (strip_ws s) \<in> set [''true'', ''yes'', ''oui'', ''on'', ''1'', ''x'']
      | _ \<Rightarrow> truthy value)"

definition coerce :: "pdf_field \<Rightarrow> pyval \<Rightarrow> string" where
  "coerce field value =
     (if pf_type field = Some ''/Btn''
      then
        (let states = filter (\<lambda>s. s \<noteq> ''/Off'') (case pf_states field of None \<Rightarrow> [] | Some ss \<Rightarrow> ss);
             on_state = (if states \<noteq> [] then hd states else ''/Yes'')
         in if is_checked value then on_state else ''/Off'')
      else
        (case value of
           PyNone \<Rightarrow> []
         | PyBool b \<Rightarrow> if b then ''Oui'' else ''Non''
         | _ \<Rightarrow> str_val value))"

definition comb_characters :: "pyval \<Rightarrow> string" where
  "comb_characters value = (case value of PyNone \<Rightarrow> [] | _ \<Rightarrow> str_val value)"

text \<open>The loop over a comb's fields: the characters from the left, then empty boxes.\<close>

fun fill_comb :: "(string \<times> string) list \<Rightarrow> string list \<Rightarrow> string \<Rightarrow> (string \<times> string) list" where
  "fill_comb vals [] characters = vals"
| "fill_comb vals (field_name # names) characters =
     fill_comb (dict_set vals field_name (case characters of [] \<Rightarrow> [] | c # _ \<Rightarrow> [c])) names (tl characters)"

fun target_names :: "field_target \<Rightarrow> string list" where
  "target_names (OneField name) = [name]"
| "target_names (CombFields names) = names"

definition first_undeclared :: "(string \<times> pdf_field) list \<Rightarrow> field_target \<Rightarrow> string option" where
  "first_undeclared declared target = find (\<lambda>n. n \<notin> fst ` set declared) (target_names target)"

text \<open>The two ways a supplied value is entered.\<close>

definition put_target ::
  "(string \<times> pdf_field) list \<Rightarrow> (string \<times> string) list \<Rightarrow> field_target \<Rightarrow> pyval \<Rightarrow> (string \<times> string) list" where
  "put_target declared vals target v =
     (case target of
        OneField name \<Rightarrow> dict_set vals name (coerce (the (map_of declared name)) v)
      | CombFields names \<Rightarrow> fill_comb vals names (comb_characters v))"

fun resolve_values ::
  "(string \<times> field_target) list \<Rightarrow> (string \<times> pdf_field) list \<Rightarrow> pydict \<Rightarrow> (string \<times> string) list \<Rightarrow>
   exn + (string \<times> string) list" where
  "resolve_values [] declared data vals = Inr vals"
| "resolve_values ((key, target) # mapping) declared data vals =
     (case first_undeclared declared target of
        Some field_name \<Rightarrow>
          Inl (DocGenError TemplateNotFoundError
            (''manifest maps '' @ py_repr key @ '' to AcroForm field '' @ py_repr field_name @
             '', which this PDF does not declare''))
      | None \<Rightarrow>
          (case map_of data key of
             None \<Rightarrow> resolve_values mapping declared data vals
           | Some v \<Rightarrow> resolve_values mapping declared data (put_target declared vals target v)))"

section \<open>Filling the form\<close>

definition document_id :: "pdf_lib \<Rightarrow> string \<Rightarrow> string \<Rightarrow> bytes" where
  "document_id F template_id version =
     take 16 (pf_sha256 F (encode_utf8 (template_id @ '':'' @ version)))"

definition pdf_commands ::
  "pdf_lib \<Rightarrow> bytes \<Rightarrow> manifest \<Rightarrow> (string \<times> string) list \<Rightarrow> pdf_command list" where
  "pdf_commands F raw m vals =
     [NeedAppearances] @
     (if vals \<noteq> [] then map (\<lambda>page. UpdatePage page vals) [0..<pf_pages F raw] else []) @
     (if pf_has_id F raw then [PinId (document_id F (man_id m) (man_version m))] else [])"

definition pdf_content ::
  "pdf_lib \<Rightarrow> fs \<Rightarrow> template_bundle \<Rightarrow> pydict \<Rightarrow> exn + bytes" where
  "pdf_content F d bundle data =
     (let m = bun_manifest bundle
      in res_bind (resolve_entrypoint m) (\<lambda>entrypoint.
         res_bind (resolve_template_file d (bun_root bundle) entrypoint) (\<lambda>entry.
         res_bind (read_bytes entry d) (\<lambda>raw.
         res_bind (pf_fields F raw) (\<lambda>declared.
         if declared = []
         then Inl (DocGenError TemplateNotFoundError
                (''template '' @ py_repr (man_id m) @ '' declares engine 'pdf-form' but '' @
                 py_repr entrypoint @ '' has no AcroForm fields''))
         else
           res_bind (resolve_values (man_fields m) declared data []) (\<lambda>vals.
           pf_write F raw (pdf_commands F raw m vals)))))))"

definition pdf_render ::
  "pdf_lib \<Rightarrow> fs \<Rightarrow> template_bundle \<Rightarrow> pydict \<Rightarrow> output_format \<Rightarrow> string option \<Rightarrow>
   exn + rendered_artifact" where
  "pdf_render F d bundle data fmt loc =
     (if fmt \<noteq> PDF
      then Inl (DocGenError RenderError (''pdf-form engine cannot produce '' @ py_repr (format_value fmt)))
      else
        res_bind (classify_render ''pdf-form render failed'' (pdf_content F d bundle data)) (\<lambda>content.
        Inr \<lparr>ra_format = fmt, ra_filename = filename_for (bun_manifest bundle) fmt, ra_content = content\<rparr>))"

lemma pdf_render_names:
  "pdf_render F d b data fmt loc = Inr a \<Longrightarrow>
   ra_format a = fmt \<and> ra_filename a = filename_for (bun_manifest b) fmt"
  by (auto simp: pdf_render_def res_bind_Inr split: if_splits)

lemma pdf_render_Inl:
  "pdf_render F d b data fmt loc = Inl e \<Longrightarrow> is_DocGenError e \<or> \<not> is_Exception e"
  by (auto simp: pdf_render_def res_bind_Inl split: if_splits dest: classify_render_Inl)

section \<open>Correctness of the values\<close>

lemma coerce_checkbox:
  assumes "pf_type field = Some ''/Btn''"
  shows "coerce field v = ''/Off'' \<longleftrightarrow> \<not> is_checked v"
    and "is_checked v \<Longrightarrow> pf_states field = Some states \<Longrightarrow> \<exists>s \<in> set states. s \<noteq> ''/Off'' \<Longrightarrow>
      coerce field v \<in> set states"
proof -
  have hd_in: "hd (filter P xs) \<in> set xs \<and> P (hd (filter P xs))" if "filter P xs \<noteq> []" for P and xs :: "string list"
    using hd_in_set [OF that] by simp
  show "coerce field v = ''/Off'' \<longleftrightarrow> \<not> is_checked v"
    using assms hd_in by (auto simp: coerce_def Let_def)
  show "coerce field v \<in> set states"
    if "is_checked v" "pf_states field = Some states" "\<exists>s \<in> set states. s \<noteq> ''/Off''"
    using assms that hd_in [of "\<lambda>s. s \<noteq> ''/Off''" states]
    by (auto simp: coerce_def Let_def filter_empty_conv)
qed

lemma fill_comb_other: "n \<notin> set names \<Longrightarrow> map_of (fill_comb vals names cs) n = map_of vals n"
  by (induction vals names cs rule: fill_comb.induct) auto

lemma fill_comb_keys: "fst ` set (fill_comb vals names cs) = fst ` set vals \<union> set names"
  by (induction vals names cs rule: fill_comb.induct) auto

lemma fill_comb_nth:
  "distinct names \<Longrightarrow> i < length names \<Longrightarrow>
   map_of (fill_comb vals names cs) (names ! i) = Some (if i < length cs then [cs ! i] else [])"
proof (induction vals names cs arbitrary: i rule: fill_comb.induct)
  case (2 vals n names cs)
  then show ?case
    by (cases i; cases cs) (auto simp: fill_comb_other)
qed simp

text \<open>Read from left to right, the boxes of a comb spell the value, up to their number.\<close>

lemma fill_comb_spells:
  assumes "distinct names"
  shows "concat (map (\<lambda>n. the (map_of (fill_comb vals names cs) n)) names) = take (length names) cs"
proof -
  have "map (\<lambda>n. the (map_of (fill_comb vals names cs) n)) names =
      map (\<lambda>i. if i < length cs then [cs ! i] else []) [0..<length names]"
    by (rule nth_equalityI) (simp_all add: fill_comb_nth [OF assms])
  moreover have "concat (map (\<lambda>i. if i < length cs then [cs ! i] else []) [0..<n]) = take n cs" for n
    by (induction n) (simp_all add: take_Suc_conv_app_nth)
  ultimately show ?thesis by simp
qed

lemma first_undeclared_None:
  "first_undeclared declared target = None \<longleftrightarrow> set (target_names target) \<subseteq> fst ` set declared"
  by (auto simp: first_undeclared_def find_None_iff)

text \<open>A mapping to a field that the form does not have fails, whatever the data.\<close>

lemma resolve_values_undeclared:
  assumes "(key, target) \<in> set mapping" "n \<in> set (target_names target)" "n \<notin> fst ` set declared"
  shows "\<exists>msg. resolve_values mapping declared data vals = Inl (DocGenError TemplateNotFoundError msg)"
  using assms(1)
proof (induction mapping arbitrary: vals)
  case (Cons kt mapping)
  have "first_undeclared declared target \<noteq> None" using assms(2,3) first_undeclared_None by blast
  with Cons show ?case by (cases kt) (auto split: option.splits)
qed simp

lemma resolve_values_total:
  "list_all (\<lambda>kt. set (target_names (snd kt)) \<subseteq> fst ` set declared) mapping \<Longrightarrow>
   \<exists>vs. resolve_values mapping declared data vals = Inr vs"
  by (induction mapping arbitrary: vals)
    (auto simp: first_undeclared_None [THEN iffD2] split: option.splits)

lemma put_target_keys:
  "fst ` set (put_target declared vals target v) = fst ` set vals \<union> set (target_names target)"
  by (cases target) (auto simp: put_target_def fill_comb_keys)

lemma put_target_other:
  "n \<notin> set (target_names target) \<Longrightarrow> map_of (put_target declared vals target v) n = map_of vals n"
  by (cases target) (auto simp: put_target_def fill_comb_other)

text \<open>One step of a run that succeeds.\<close>

lemma resolve_values_ConsE:
  assumes "resolve_values ((key, target) # mapping) declared data vals = Inr vs"
  obtains (absent) "map_of data key = None" "resolve_values mapping declared data vals = Inr vs"
  | (supplied) v where "map_of data key = Some v"
      "resolve_values mapping declared data (put_target declared vals target v) = Inr vs"
  using assms by (auto split: option.splits)

text \<open>Exactly the fields of the supplied keys get a value.\<close>

definition supplied :: "pydict \<Rightarrow> (string \<times> field_target) list \<Rightarrow> string list" where
  "supplied data mapping =
     concat (map (\<lambda>kt. target_names (snd kt)) (filter (\<lambda>kt. map_of data (fst kt) \<noteq> None) mapping))"

lemma resolve_values_keys:
  "resolve_values mapping declared data vals = Inr vs \<Longrightarrow>
   fst ` set vs = fst ` set vals \<union> set (supplied data mapping)"
proof (induction mapping arbitrary: vals)
  case (Cons kt mapping)
  obtain key target where kt: "kt = (key, target)" by (cases kt)
  from Cons.prems [unfolded kt] show ?case
  proof (cases rule: resolve_values_ConsE)
    case absent
    then show ?thesis using Cons.IH kt by (simp add: supplied_def)
  next
    case (supplied v)
    then show ?thesis using Cons.IH [OF supplied(2)] kt by (auto simp: supplied_def put_target_keys)
  qed
qed (simp add: supplied_def)

text \<open>A field that no later entry of the mapping names keeps the value it has.\<close>

lemma resolve_values_keeps:
  "resolve_values mapping declared data vals = Inr vs \<Longrightarrow>
   list_all (\<lambda>kt. n \<notin> set (target_names (snd kt))) mapping \<Longrightarrow> map_of vs n = map_of vals n"
proof (induction mapping arbitrary: vals)
  case (Cons kt mapping)
  obtain key target where kt: "kt = (key, target)" by (cases kt)
  from Cons.prems(1) [unfolded kt] show ?case
  proof (cases rule: resolve_values_ConsE)
    case absent
    then show ?thesis using Cons kt by simp
  next
    case (supplied v)
    then show ?thesis using Cons.IH [OF supplied(2)] Cons.prems(2) kt by (simp add: put_target_other)
  qed
qed simp

text \<open>
  When no two entries share a field, the value of an entry that the data supplies is the one
  \<open>put_target\<close> enters.
\<close>

lemma resolve_values_entry:
  assumes "resolve_values (m1 @ (key, target) # m2) declared data vals = Inr vs" "map_of data key = Some v"
    and "n \<in> set (target_names target)"
    and "list_all (\<lambda>kt. n \<notin> set (target_names (snd kt))) m2"
  shows "\<exists>vals'. map_of vs n = map_of (put_target declared vals' target v) n"
  using assms(1)
proof (induction m1 arbitrary: vals)
  case Nil
  then show ?case
    using resolve_values_keeps [OF _ assms(4)] assms(2) by (auto split: option.splits)
next
  case (Cons kt m1)
  obtain k t where "kt = (k, t)" by (cases kt)
  with Cons show ?case by (auto split: option.splits)
qed

end
