(* ===== verification/Xlsx.thy ===== *)
theory Xlsx
  imports Ooxml
begin

text \<open>
  \<open>adapters/renderers/xlsx.py\<close>: what is written into the cells of a template workbook, in
  which order. openpyxl is a parameter: a workbook is the bytes it was loaded from and the list
  of writes done so far, and every question to it (does a write raise, is a cell part of a
  merged range, the bytes of the saved file) is answered as a function of the two.
\<close>

section \<open>The workbook\<close>

datatype sheet_ref = NamedSheet string | ActiveSheet

record xl_properties =
  xp_created :: "int \<times> int \<times> int"
  xp_modified :: "int \<times> int \<times> int"
  xp_creator :: string
  xp_last_modified_by :: string

datatype xl_write =
    SetRef sheet_ref pyval pyval
  | TouchCell sheet_ref int int
  | SetCell sheet_ref int int pyval
  | HideRow sheet_ref int
  | SetProperties xl_properties

record merged_range =
  mr_min_row :: int
  mr_max_row :: int
  mr_min_col :: int
  mr_max_col :: int

record xl_lib =
  xl_load :: "bytes \<Rightarrow> exn + unit"
  xl_defined_names :: "bytes \<Rightarrow> (string \<times> (string \<times> string) list) list"
  xl_sheet :: "bytes \<Rightarrow> sheet_ref \<Rightarrow> exn + unit"
  xl_accepts :: "bytes \<Rightarrow> xl_write list \<Rightarrow> xl_write \<Rightarrow> exn + unit"
  xl_is_merged :: "bytes \<Rightarrow> xl_write list \<Rightarrow> sheet_ref \<Rightarrow> int \<Rightarrow> int \<Rightarrow> bool"
  xl_merged_ranges :: "bytes \<Rightarrow> sheet_ref \<Rightarrow> merged_range list"
  xl_coordinate :: "string \<Rightarrow> exn + int \<times> int"
  xl_save :: "bytes \<Rightarrow> xl_write list \<Rightarrow> exn + bytes"

type_synonym 'a xl = "(xl_write list, 'a) io"

definition xl_do :: "xl_lib \<Rightarrow> bytes \<Rightarrow> xl_write \<Rightarrow> unit xl" where
  "xl_do X raw wr = (\<lambda>log. case xl_accepts X raw log wr of
     Inl e \<Rightarrow> (Inl e, log) | Inr _ \<Rightarrow> (Inr (), log @ [wr]))"

text \<open>\<open>(row, column) in merged.cells\<close>.\<close>

definition covers :: "merged_range \<Rightarrow> int \<Rightarrow> int \<Rightarrow> bool" where
  "covers mr row col \<longleftrightarrow> mr_min_row mr \<le> row \<and> row \<le> mr_max_row mr \<and> mr_min_col mr \<le> col \<and> col \<le> mr_max_col mr"

definition without_dollar :: "string \<Rightarrow> string" where
  "without_dollar s = filter (\<lambda>c. c \<noteq> CHR ''$'') s"

section \<open>Defined names\<close>

fun apply_destinations :: "xl_lib \<Rightarrow> bytes \<Rightarrow> pyval \<Rightarrow> (string \<times> string) list \<Rightarrow> unit xl" where
  "apply_destinations X raw v [] = ret ()"
| "apply_destinations X raw v ((sheet_name, coordinate) # dests) =
     (let coord = without_dollar coordinate
      in if CHR '':'' \<in> set coord then apply_destinations X raw v dests
         else
           and_then (lift_result (xl_sheet X raw (NamedSheet sheet_name))) (\<lambda>_.
           and_then (xl_do X raw (SetRef (NamedSheet sheet_name) (PyStr coord) v)) (\<lambda>_.
           apply_destinations X raw v dests)))"

fun apply_defined_names ::
  "xl_lib \<Rightarrow> bytes \<Rightarrow> pydict \<Rightarrow> string list \<Rightarrow> (string \<times> (string \<times> string) list) list \<Rightarrow> unit xl" where
  "apply_defined_names X raw data skip [] = ret ()"
| "apply_defined_names X raw data skip ((name, dests) # names) =
     (case map_of data name of
        None \<Rightarrow> apply_defined_names X raw data skip names
      | Some v \<Rightarrow>
          if name \<in> set skip then apply_defined_names X raw data skip names
          else and_then (apply_destinations X raw v dests) (\<lambda>_.
               apply_defined_names X raw data skip names))"

section \<open>Repeating blocks\<close>

definition normalise_value :: "pyval \<Rightarrow> pyval" where
  "normalise_value v = (if v = PyStr [] then PyNone else v)"

text \<open>\<open>row.get(key)\<close>.\<close>

definition row_get :: "pyval \<Rightarrow> string \<Rightarrow> exn + pyval" where
  "row_get row key =
     (case row of PyDict d \<Rightarrow> Inr (dict_get d key)
      | _ \<Rightarrow> Inl (OtherError (py_repr (type_name row) @ '' object has no attribute '' @ py_repr ''get'')))"

definition set_cell :: "xl_lib \<Rightarrow> bytes \<Rightarrow> sheet_ref \<Rightarrow> int \<Rightarrow> int \<Rightarrow> pyval \<Rightarrow> unit xl" where
  "set_cell X raw sheet row col v =
     and_then (xl_do X raw (TouchCell sheet row col)) (\<lambda>_ log.
       if xl_is_merged X raw log sheet row col
       then (case find (\<lambda>mr. covers mr row col) (xl_merged_ranges X raw sheet) of
               Some mr \<Rightarrow> xl_do X raw (SetCell sheet (mr_min_row mr) (mr_min_col mr) v) log
             | None \<Rightarrow> ret () log)
       else xl_do X raw (SetCell sheet row col v) log)"

fun set_columns :: "xl_lib \<Rightarrow> bytes \<Rightarrow> sheet_ref \<Rightarrow> int \<Rightarrow> int \<Rightarrow> pyval \<Rightarrow> string list \<Rightarrow> unit xl" where
  "set_columns X raw sheet r c row [] = ret ()"
| "set_columns X raw sheet r c row (key # keys) =
     and_then (lift_result (row_get row key)) (\<lambda>v.
     and_then (set_cell X raw sheet r c (normalise_value v)) (\<lambda>_.
     set_columns X raw sheet r (c + 1) row keys))"

fun set_rows :: "xl_lib \<Rightarrow> bytes \<Rightarrow> sheet_ref \<Rightarrow> int \<Rightarrow> int \<Rightarrow> string list \<Rightarrow> pyval list \<Rightarrow> unit xl" where
  "set_rows X raw sheet r c keys [] = ret ()"
| "set_rows X raw sheet r c keys (row # rows) =
     and_then (set_columns X raw sheet r c row keys) (\<lambda>_.
     set_rows X raw sheet (r + 1) c keys rows)"

fun hide_rows :: "xl_lib \<Rightarrow> bytes \<Rightarrow> sheet_ref \<Rightarrow> int list \<Rightarrow> unit xl" where
  "hide_rows X raw sheet [] = ret ()"
| "hide_rows X raw sheet (r # rs) =
     and_then (xl_do X raw (HideRow sheet r)) (\<lambda>_. hide_rows X raw sheet rs)"

text \<open>\<open>_resolve_anchor\<close>: the sheet and the first row and column, from 1.\<close>

definition anchor_reference :: "xl_lib \<Rightarrow> bytes \<Rightarrow> block_spec \<Rightarrow> exn + string" where
  "anchor_reference X raw b =
     (case blk_anchor_name b of
        Some name \<Rightarrow>
          (case map_of (xl_defined_names X raw) name of
             None \<Rightarrow> Inl (DocGenError SchemaValidationError
               (''block '' @ py_repr (blk_source b) @ '' anchors on defined name '' @ py_repr name @
                '', which the workbook does not declare''))
           | Some [] \<Rightarrow> Inl (OtherError [])
           | Some ((sheet_name, coordinate) # _) \<Rightarrow> Inr (sheet_name @ ''!'' @ coordinate))
      | None \<Rightarrow> Inr (case blk_anchor b of None \<Rightarrow> [] | Some a \<Rightarrow> a))"

definition resolve_anchor :: "xl_lib \<Rightarrow> bytes \<Rightarrow> block_spec \<Rightarrow> exn + (sheet_ref \<times> int \<times> int)" where
  "resolve_anchor X raw b =
     res_bind (anchor_reference X raw b) (\<lambda>reference.
     let (sheet_name, separator, coordinate) = rpartition_char CHR ''!'' reference;
         sheet = (if separator then NamedSheet sheet_name else ActiveSheet)
     in res_bind (xl_sheet X raw sheet) (\<lambda>_.
        res_bind (xl_coordinate X (without_dollar coordinate)) (\<lambda>(row, column).
        Inr (sheet, row, column))))"

text \<open>\<open>data.get(block.source) or []\<close>, which must be a list.\<close>

definition block_rows :: "pydict \<Rightarrow> block_spec \<Rightarrow> exn + pyval list" where
  "block_rows data b =
     (let found = dict_get data (blk_source b);
          rows = (if truthy found then found else PyList [])
      in case rows of
           PyList xs \<Rightarrow> Inr xs
         | v \<Rightarrow> Inl (DocGenError SchemaValidationError
             (''block source '' @ py_repr (blk_source b) @ '' must be a list, got '' @ type_name v)))"

definition apply_block :: "xl_lib \<Rightarrow> bytes \<Rightarrow> manifest \<Rightarrow> pydict \<Rightarrow> block_spec \<Rightarrow> unit xl" where
  "apply_block X raw m data b =
     and_then (lift_result (block_rows data b)) (\<lambda>rows.
     and_then (lift_result (block_capacity m b)) (\<lambda>capacity.
     if int (length rows) > capacity
     then raise (DocGenError SchemaValidationError
            (int_str (int (length rows)) @ '' rows supplied for block '' @ py_repr (blk_source b) @
             '' but the template reserves only '' @ int_str capacity))
     else
       and_then (lift_result (resolve_anchor X raw b)) (\<lambda>(sheet, first_row, first_col).
       and_then (set_rows X raw sheet first_row first_col (blk_columns b) rows) (\<lambda>_.
       if blk_hide_unused_rows b
       then hide_rows X raw sheet [first_row + int (length rows)..first_row + capacity - 1]
       else ret ()))))"

fun apply_blocks :: "xl_lib \<Rightarrow> bytes \<Rightarrow> manifest \<Rightarrow> pydict \<Rightarrow> block_spec list \<Rightarrow> unit xl" where
  "apply_blocks X raw m data [] = ret ()"
| "apply_blocks X raw m data (b # bs) =
     and_then (apply_block X raw m data b) (\<lambda>_. apply_blocks X raw m data bs)"

section \<open>Explicit cells\<close>

text \<open>
  \<open>dict(cells).items()\<close>: of a dict, its items; of another iterable, its elements read as
  pairs. Equal keys share an entry: \<open>True\<close> equals \<open>1\<close> (floats are compared by their \<open>repr\<close>).
\<close>

definition hashable :: "pyval \<Rightarrow> bool" where
  "hashable v = (case v of PyList _ \<Rightarrow> False | PyDict _ \<Rightarrow> False | _ \<Rightarrow> True)"

fun same_key :: "pyval \<Rightarrow> pyval \<Rightarrow> bool" where
  "same_key (PyBool a) (PyInt i) = (i = (if a then 1 else 0))"
| "same_key (PyInt i) (PyBool a) = (i = (if a then 1 else 0))"
| "same_key a b = (a = b)"

fun pair_set :: "(pyval \<times> pyval) list \<Rightarrow> pyval \<Rightarrow> pyval \<Rightarrow> (pyval \<times> pyval) list" where
  "pair_set [] k v = [(k, v)]"
| "pair_set ((k', v') # d) k v = (if same_key k' k then (k', v) # d else (k', v') # pair_set d k v)"

definition as_pair :: "pyval \<Rightarrow> (pyval \<times> pyval) option" where
  "as_pair v =
     (case v of
        PyList [k, x] \<Rightarrow> Some (k, x)
      | PyStr [a, b] \<Rightarrow> Some (PyStr [a], PyStr [b])
      | PyDict [(a, _), (b, _)] \<Rightarrow> Some (PyStr a, PyStr b)
      | _ \<Rightarrow> None)"

fun dict_of_pairs :: "nat \<Rightarrow> pyval list \<Rightarrow> (pyval \<times> pyval) list \<Rightarrow> exn + (pyval \<times> pyval) list" where
  "dict_of_pairs n [] d = Inr d"
| "dict_of_pairs n (x # xs) d =
     (case as_pair x of
        None \<Rightarrow> Inl (OtherError (''cannot convert dictionary update sequence element #'' @ nat_str n))
      | Some (k, v) \<Rightarrow>
          if \<not> hashable k then Inl (OtherError (''unhashable type: '' @ py_repr (type_name k)))
          else dict_of_pairs (Suc n) xs (pair_set d k v))"

definition cells_items :: "pyval \<Rightarrow> exn + (pyval \<times> pyval) list" where
  "cells_items cells =
     (case cells of
        PyDict d \<Rightarrow> Inr (map (\<lambda>(k, v). (PyStr k, v)) d)
      | PyList xs \<Rightarrow> dict_of_pairs 0 xs []
      | PyStr s \<Rightarrow> dict_of_pairs 0 (map (\<lambda>c. PyStr [c]) s) []
      | v \<Rightarrow> Inl (OtherError (py_repr (type_name v) @ '' object is not iterable'')))"

fun apply_cell_items :: "xl_lib \<Rightarrow> bytes \<Rightarrow> (pyval \<times> pyval) list \<Rightarrow> unit xl" where
  "apply_cell_items X raw [] = ret ()"
| "apply_cell_items X raw ((ref, v) # items) =
     (let (sheet_name, separator, coordinate) = partition_char CHR ''!'' (str_val ref)
      in and_then
           (if separator
            then and_then (lift_result (xl_sheet X raw (NamedSheet sheet_name))) (\<lambda>_.
                 xl_do X raw (SetRef (NamedSheet sheet_name) (PyStr coordinate) v))
            else xl_do X raw (SetRef ActiveSheet ref v)) (\<lambda>_.
         apply_cell_items X raw items))"

definition apply_cells :: "xl_lib \<Rightarrow> bytes \<Rightarrow> pyval \<Rightarrow> unit xl" where
  "apply_cells X raw cells = and_then (lift_result (cells_items cells)) (apply_cell_items X raw)"

section \<open>The render method\<close>

definition xlsx_properties :: xl_properties where
  "xlsx_properties =
     \<lparr>xp_created = (2000, 1, 1), xp_modified = (2000, 1, 1),
      xp_creator = ''document-generation'', xp_last_modified_by = ''document-generation''\<rparr>"

definition data_cells :: "pydict \<Rightarrow> pyval" where
  "data_cells data = (case map_of data ''cells'' of None \<Rightarrow> PyDict [] | Some v \<Rightarrow> v)"

definition fill_workbook :: "xl_lib \<Rightarrow> bytes \<Rightarrow> manifest \<Rightarrow> pydict \<Rightarrow> unit xl" where
  "fill_workbook X raw m data =
     and_then (apply_defined_names X raw data (map blk_source (man_blocks m)) (xl_defined_names X raw)) (\<lambda>_.
     and_then (apply_blocks X raw m data (man_blocks m)) (\<lambda>_.
     and_then (apply_cells X raw (data_cells data)) (\<lambda>_.
     xl_do X raw (SetProperties xlsx_properties))))"

definition xlsx_content ::
  "xl_lib \<Rightarrow> zip_lib \<Rightarrow> fs \<Rightarrow> template_bundle \<Rightarrow> pydict \<Rightarrow> exn + bytes" where
  "xlsx_content X Z d bundle data =
     res_bind (resolve_entrypoint (bun_manifest bundle)) (\<lambda>entrypoint.
     res_bind (resolve_template_file d (bun_root bundle) entrypoint) (\<lambda>entry.
     res_bind (read_bytes entry d) (\<lambda>raw.
     res_bind (xl_load X raw) (\<lambda>_.
     case fill_workbook X raw (bun_manifest bundle) data [] of
       (Inl e, _) \<Rightarrow> Inl e
     | (Inr _, log) \<Rightarrow> res_bind (xl_save X raw log) (normalise_ooxml_bytes Z)))))"

definition xlsx_render ::
  "xl_lib \<Rightarrow> zip_lib \<Rightarrow> fs \<Rightarrow> template_bundle \<Rightarrow> pydict \<Rightarrow> output_format \<Rightarrow> string option \<Rightarrow>
   exn + rendered_artifact" where
  "xlsx_render X Z d bundle data fmt loc =
     (if fmt \<noteq> XLSX
      then Inl (DocGenError RenderError (''xlsx engine cannot produce '' @ py_repr (format_value fmt)))
      else
        res_bind (classify_render ''xlsx render failed'' (xlsx_content X Z d bundle data)) (\<lambda>content.
        Inr \<lparr>ra_format = fmt, ra_filename = filename_for (bun_manifest bundle) fmt, ra_content = content\<rparr>))"

lemma xlsx_render_names:
  "xlsx_render X Z d b data fmt loc = Inr a \<Longrightarrow>
   ra_format a = fmt \<and> ra_filename a = filename_for (bun_manifest b) fmt"
  by (auto simp: xlsx_render_def res_bind_Inr split: if_splits)

lemma xlsx_render_Inl:
  "xlsx_render X Z d b data fmt loc = Inl e \<Longrightarrow> is_DocGenError e \<or> \<not> is_Exception e"
  by (auto simp: xlsx_render_def res_bind_Inl split: if_splits dest: classify_render_Inl)

end
