(* ===== verification/XlsxCells.thy ===== *)
theory XlsxCells
  imports Xlsx
begin

text \<open>
  Which cells the xlsx engine touches: a block stays in the band of rows and columns that the
  template reserves for it (or in the corner of a merged range that reaches into the band), it
  never writes an empty string, it hides exactly the rows it leaves unused, and the explicit
  cells come after everything else.
\<close>

section \<open>Logs that grow\<close>

definition grows :: "('e \<Rightarrow> bool) \<Rightarrow> 'e list \<Rightarrow> 'e list \<Rightarrow> bool" where
  "grows P log log' \<longleftrightarrow> (\<exists>ws. log' = log @ ws \<and> list_all P ws)"

lemma grows_order [simp, preserves_intros]: "reflp (grows P)" "transp (grows P)"
  by (auto simp: grows_def reflp_def intro: exI [of _ "[]"]) (fastforce simp: grows_def transp_def)

lemma preserves_grows_mono:
  "preserves (grows P) m \<Longrightarrow> (\<And>x. P x \<Longrightarrow> Q x) \<Longrightarrow> preserves (grows Q) m"
  unfolding preserves_def grows_def by (metis list_all_iff)

lemma grows_xl_do: "P wr \<Longrightarrow> preserves (grows P) (xl_do X raw wr)"
  by (auto simp: preserves_def xl_do_def grows_def split: sum.splits intro: exI [of _ "[]"])

text \<open>A choice that looks at the log.\<close>

lemma preserves_state: "(\<And>w. preserves R (m w)) \<Longrightarrow> preserves R (\<lambda>w. m w w)"
  by (simp add: preserves_def)

lemma xl_do_Inr: "xl_do X raw wr log = (Inr u, log') \<Longrightarrow> log' = log @ [wr]"
  by (auto simp: xl_do_def split: sum.splits)

section \<open>The band of a block\<close>

definition row_write :: "xl_lib \<Rightarrow> bytes \<Rightarrow> sheet_ref \<Rightarrow> int \<Rightarrow> int \<Rightarrow> int \<Rightarrow> xl_write \<Rightarrow> bool" where
  "row_write X raw sheet r c0 c1 wr =
     (case wr of
        TouchCell s r' c \<Rightarrow> s = sheet \<and> r' = r \<and> c0 \<le> c \<and> c < c1
      | SetCell s r' c v \<Rightarrow> s = sheet \<and> v \<noteq> PyStr [] \<and>
          (r' = r \<and> c0 \<le> c \<and> c < c1 \<or>
           (\<exists>mr \<in> set (xl_merged_ranges X raw sheet). \<exists>k. c0 \<le> k \<and> k < c1 \<and> covers mr r k \<and>
              r' = mr_min_row mr \<and> c = mr_min_col mr))
      | _ \<Rightarrow> False)"

definition band_write :: "xl_lib \<Rightarrow> bytes \<Rightarrow> sheet_ref \<Rightarrow> int \<Rightarrow> int \<Rightarrow> int \<Rightarrow> int \<Rightarrow> xl_write \<Rightarrow> bool" where
  "band_write X raw sheet r0 r1 c0 c1 wr \<longleftrightarrow> (\<exists>r. r0 \<le> r \<and> r < r1 \<and> row_write X raw sheet r c0 c1 wr)"

lemma normalise_value_not_empty [simp]: "normalise_value v \<noteq> PyStr []"
  by (simp add: normalise_value_def)

lemma grows_set_cell:
  assumes "v \<noteq> PyStr []" "c0 \<le> c" "c < c1"
  shows "preserves (grows (row_write X raw sheet r c0 c1)) (set_cell X raw sheet r c v)"
proof -
  have merged: "row_write X raw sheet r c0 c1 (SetCell sheet (mr_min_row mr) (mr_min_col mr) v)"
    if "find (\<lambda>mr. covers mr r c) (xl_merged_ranges X raw sheet) = Some mr" for mr
    using that assms by (auto simp: row_write_def find_Some_iff intro!: bexI [of _ mr])
  have plain: "row_write X raw sheet r c0 c1 (TouchCell sheet r c)" "row_write X raw sheet r c0 c1 (SetCell sheet r c v)"
    using assms by (simp_all add: row_write_def)
  show ?thesis
    unfolding set_cell_def
  proof (intro preserves_and_then grows_order grows_xl_do plain(1) preservesI)
    fix u log x log'
    assume run: "(if xl_is_merged X raw log sheet r c
       then (case find (\<lambda>mr. covers mr r c) (xl_merged_ranges X raw sheet) of
               Some mr \<Rightarrow> xl_do X raw (SetCell sheet (mr_min_row mr) (mr_min_col mr) v) log
             | None \<Rightarrow> ret () log)
       else xl_do X raw (SetCell sheet r c v) log) = (x, log')"
    then consider "xl_do X raw (SetCell sheet r c v) log = (x, log')" | "log' = log"
      | mr where "find (\<lambda>mr. covers mr r c) (xl_merged_ranges X raw sheet) = Some mr"
          "xl_do X raw (SetCell sheet (mr_min_row mr) (mr_min_col mr) v) log = (x, log')"
      by (auto split: if_splits option.splits)
    then show "grows (row_write X raw sheet r c0 c1) log log'"
    proof cases
      case 1
      then show ?thesis using preservesD [OF grows_xl_do [where P = "row_write X raw sheet r c0 c1", OF plain(2)]] by blast
    next
      case 2
      then show ?thesis by (simp add: grows_def)
    next
      case 3
      then show ?thesis using preservesD [OF grows_xl_do [where P = "row_write X raw sheet r c0 c1", OF merged]] by blast
    qed
  qed
qed

lemma grows_set_columns:
  assumes "c0 \<le> c" "c + int (length keys) \<le> c1"
  shows "preserves (grows (row_write X raw sheet r c0 c1)) (set_columns X raw sheet r c row keys)"
  using assms
proof (induction keys arbitrary: c)
  case (Cons key keys)
  then show ?case by (auto intro!: preserves_intros grows_set_cell)
qed (auto intro: preserves_ret preserves_Pair)

lemma grows_set_rows:
  assumes "r0 \<le> r" "r + int (length rows) \<le> r1"
  shows "preserves (grows (band_write X raw sheet r0 r1 c (c + int (length keys))))
    (set_rows X raw sheet r c keys rows)"
  using assms
proof (induction rows arbitrary: r)
  case (Cons row rows)
  have "preserves (grows (band_write X raw sheet r0 r1 c (c + int (length keys))))
      (set_columns X raw sheet r c row keys)"
    using Cons.prems
    by (intro preserves_grows_mono [OF grows_set_columns [of c c keys "c + int (length keys)"]])
      (auto simp: band_write_def intro!: exI [of _ r])
  with Cons show ?case by (auto intro!: preserves_intros)
qed (auto intro: preserves_ret preserves_Pair)

lemma hide_rows_log:
  "hide_rows X raw sheet rs log = (Inr u, log') \<Longrightarrow> log' = log @ map (HideRow sheet) rs"
proof (induction rs arbitrary: log)
  case (Cons r rs)
  from Cons.prems have "hide_rows X raw sheet rs (log @ [HideRow sheet r]) = (Inr u, log')"
    by (auto simp: io_simps split: prod.splits sum.splits dest!: xl_do_Inr)
  from Cons.IH [OF this] show ?case by simp
qed simp

text \<open>What a block that succeeds has written.\<close>

lemma apply_block_band:
  assumes "apply_block X raw m data b log = (Inr u, log')"
  obtains rows capacity sheet r0 c0 ws where
    "block_rows data b = Inr rows" "block_capacity m b = Inr capacity" "int (length rows) \<le> capacity"
    "resolve_anchor X raw b = Inr (sheet, r0, c0)"
    "log' = log @ ws @ (if blk_hide_unused_rows b
       then map (HideRow sheet) [r0 + int (length rows)..r0 + capacity - 1] else [])"
    "list_all (band_write X raw sheet r0 (r0 + int (length rows)) c0 (c0 + int (length (blk_columns b)))) ws"
proof -
  from assms obtain rows capacity sheet r0 c0 log1 where
    a: "block_rows data b = Inr rows" "block_capacity m b = Inr capacity" "int (length rows) \<le> capacity"
      "resolve_anchor X raw b = Inr (sheet, r0, c0)"
    and rows: "set_rows X raw sheet r0 c0 (blk_columns b) rows log = (Inr (), log1)"
    and hide: "(if blk_hide_unused_rows b
       then hide_rows X raw sheet [r0 + int (length rows)..r0 + capacity - 1] else ret ()) log1 = (Inr u, log')"
    by (auto simp: apply_block_def io_simps split: sum.splits if_splits prod.splits)
  from preservesD [OF grows_set_rows [of r0 r0 rows "r0 + int (length rows)"] rows]
  obtain ws where "log1 = log @ ws"
    "list_all (band_write X raw sheet r0 (r0 + int (length rows)) c0 (c0 + int (length (blk_columns b)))) ws"
    by (auto simp: grows_def)
  moreover have "log' = log1 @ (if blk_hide_unused_rows b
       then map (HideRow sheet) [r0 + int (length rows)..r0 + capacity - 1] else [])"
    using hide hide_rows_log [of X raw sheet _ log1 u log'] by (auto split: if_splits)
  ultimately show ?thesis using that [OF a, of ws] by simp
qed

text \<open>
  Without merged cells, the writes of a block are determined cell by cell.
\<close>

definition cell_value :: "pyval \<Rightarrow> string \<Rightarrow> pyval" where
  "cell_value row key = normalise_value (case row of PyDict d \<Rightarrow> dict_get d key | _ \<Rightarrow> PyNone)"

definition row_plan :: "sheet_ref \<Rightarrow> int \<Rightarrow> int \<Rightarrow> string list \<Rightarrow> pyval \<Rightarrow> xl_write list" where
  "row_plan sheet r c keys row =
     concat (map (\<lambda>(j, key). [TouchCell sheet r (c + int j), SetCell sheet r (c + int j) (cell_value row key)])
       (enumerate 0 keys))"

definition rows_plan :: "sheet_ref \<Rightarrow> int \<Rightarrow> int \<Rightarrow> string list \<Rightarrow> pyval list \<Rightarrow> xl_write list" where
  "rows_plan sheet r c keys rows =
     concat (map (\<lambda>(i, row). row_plan sheet (r + int i) c keys row) (enumerate 0 rows))"

lemma enumerate_Cons_shift: "enumerate 0 (x # xs) = (0, x) # map (apfst Suc) (enumerate 0 xs)"
  by (simp add: enumerate_Suc_eq)

lemma row_plan_Cons:
  "row_plan sheet r c (k # ks) row =
     [TouchCell sheet r c, SetCell sheet r c (cell_value row k)] @ row_plan sheet r (c + 1) ks row"
  by (simp add: row_plan_def enumerate_Cons_shift comp_def case_prod_unfold algebra_simps del: enumerate_simps(2))

lemma rows_plan_Cons:
  "rows_plan sheet r c ks (row # rows) = row_plan sheet r c ks row @ rows_plan sheet (r + 1) c ks rows"
  by (simp add: rows_plan_def enumerate_Cons_shift comp_def case_prod_unfold algebra_simps del: enumerate_simps(2))

lemma set_columns_plan:
  assumes "\<And>log r c. \<not> xl_is_merged X raw log sheet r c"
  shows "set_columns X raw sheet r c row keys log = (Inr u, log') \<Longrightarrow> log' = log @ row_plan sheet r c keys row"
proof (induction keys arbitrary: c log)
  case (Cons k keys)
  from Cons.prems obtain v log1 where
    "row_get row k = Inr v" and cell: "set_cell X raw sheet r c (normalise_value v) log = (Inr (), log1)"
    and rest: "set_columns X raw sheet r (c + 1) row keys log1 = (Inr u, log')"
    by (auto simp: io_simps split: prod.splits sum.splits)
  moreover from this have "cell_value row k = normalise_value v"
    by (auto simp: cell_value_def row_get_def split: pyval.splits)
  moreover have "log1 = log @ [TouchCell sheet r c, SetCell sheet r c (normalise_value v)]"
    using cell assms by (auto simp: set_cell_def io_simps split: prod.splits sum.splits dest!: xl_do_Inr)
  ultimately show ?case using Cons.IH [OF rest] by (simp add: row_plan_Cons)
qed (simp add: row_plan_def)

lemma set_rows_plan:
  assumes "\<And>log r c. \<not> xl_is_merged X raw log sheet r c"
  shows "set_rows X raw sheet r c keys rows log = (Inr u, log') \<Longrightarrow> log' = log @ rows_plan sheet r c keys rows"
proof (induction rows arbitrary: r log)
  case (Cons row rows)
  from Cons.prems obtain log1 where
    one: "set_columns X raw sheet r c row keys log = (Inr (), log1)"
    and rest: "set_rows X raw sheet (r + 1) c keys rows log1 = (Inr u, log')"
    by (auto simp: io_simps split: prod.splits sum.splits)
  from Cons.IH [OF rest] set_columns_plan [OF assms one] show ?case by (simp add: rows_plan_Cons)
qed (simp add: rows_plan_def)

lemma apply_block_plan:
  assumes "apply_block X raw m data b log = (Inr u, log')"
    and "\<And>log sheet r c. \<not> xl_is_merged X raw log sheet r c"
  obtains rows capacity sheet r0 c0 where
    "block_rows data b = Inr rows" "block_capacity m b = Inr capacity"
    "resolve_anchor X raw b = Inr (sheet, r0, c0)"
    "log' = log @ rows_plan sheet r0 c0 (blk_columns b) rows @ (if blk_hide_unused_rows b
       then map (HideRow sheet) [r0 + int (length rows)..r0 + capacity - 1] else [])"
proof -
  from assms(1) obtain rows capacity sheet r0 c0 log1 where
    a: "block_rows data b = Inr rows" "block_capacity m b = Inr capacity"
      "resolve_anchor X raw b = Inr (sheet, r0, c0)"
    and rows: "set_rows X raw sheet r0 c0 (blk_columns b) rows log = (Inr (), log1)"
    and hide: "(if blk_hide_unused_rows b
       then hide_rows X raw sheet [r0 + int (length rows)..r0 + capacity - 1] else ret ()) log1 = (Inr u, log')"
    by (auto simp: apply_block_def io_simps split: sum.splits if_splits prod.splits)
  have "log' = log1 @ (if blk_hide_unused_rows b
       then map (HideRow sheet) [r0 + int (length rows)..r0 + capacity - 1] else [])"
    using hide hide_rows_log [of X raw sheet _ log1 u log'] by (auto split: if_splits)
  with that [OF a] set_rows_plan [OF assms(2) rows] show ?thesis by simp
qed

text \<open>Too many rows, and rows that are not a list, are permanent errors that write nothing.\<close>

lemma apply_block_overflow:
  assumes "block_rows data b = Inr rows" "block_capacity m b = Inr capacity" "capacity < int (length rows)"
  shows "\<exists>msg. apply_block X raw m data b log = (Inl (DocGenError SchemaValidationError msg), log)"
  using assms by (simp add: apply_block_def io_simps)

lemma block_rows_cases:
  "block_rows data b =
     (case dict_get data (blk_source b) of
        PyList xs \<Rightarrow> Inr xs
      | v \<Rightarrow> if truthy v
             then Inl (DocGenError SchemaValidationError
               (''block source '' @ py_repr (blk_source b) @ '' must be a list, got '' @ type_name v))
             else Inr [])"
  by (auto simp: block_rows_def Let_def split: pyval.splits)

text \<open>
  The anchor of a block: \<open>exactly_one_anchor\<close> reads the two fields by truth value, the lookup
  by \<open>is not None\<close>. A block with an empty anchor name next to its anchor passes the first and
  fails the second.
\<close>

lemma empty_anchor_name_fails:
  assumes "blk_anchor_name b = Some []" "map_of (xl_defined_names X raw) [] = None"
    and "block_rows data b = Inr rows" "block_capacity m b = Inr capacity" "int (length rows) \<le> capacity"
  shows "\<exists>msg. apply_block X raw m data b log = (Inl (DocGenError SchemaValidationError msg), log)"
  using assms by (simp add: apply_block_def io_simps resolve_anchor_def anchor_reference_def)

section \<open>The order of the writes\<close>

definition name_write :: "pydict \<Rightarrow> string list \<Rightarrow> xl_write \<Rightarrow> bool" where
  "name_write data skip wr =
     (case wr of
        SetRef (NamedSheet _) (PyStr coord) v \<Rightarrow>
          CHR '':'' \<notin> set coord \<and> (\<exists>n. map_of data n = Some v \<and> n \<notin> set skip)
      | _ \<Rightarrow> False)"

lemma grows_destinations:
  assumes "map_of data n = Some v" "n \<notin> set skip"
  shows "preserves (grows (name_write data skip)) (apply_destinations X raw v dests)"
proof (induction dests)
  case (Cons sc dests)
  obtain sheet coordinate where sc: "sc = (sheet, coordinate)" by (cases sc)
  have "name_write data skip (SetRef (NamedSheet sheet) (PyStr (without_dollar coordinate)) v)"
    if "CHR '':'' \<notin> set (without_dollar coordinate)"
    using that assms by (auto simp: name_write_def)
  with Cons show ?case
    by (auto simp: sc Let_def intro!: preserves_intros
        grows_xl_do [where P = "name_write data skip"])
qed (auto intro: preserves_ret preserves_Pair)

lemma grows_defined_names:
  "preserves (grows (name_write data skip)) (apply_defined_names X raw data skip names)"
proof (induction names)
  case (Cons nd names)
  then show ?case
    by (cases nd) (auto intro!: preserves_intros grows_destinations split: option.splits)
qed (auto intro: preserves_ret preserves_Pair)

definition is_block_write :: "xl_write \<Rightarrow> bool" where
  "is_block_write wr = (case wr of TouchCell _ _ _ \<Rightarrow> True | SetCell _ _ _ v \<Rightarrow> v \<noteq> PyStr [] | HideRow _ _ \<Rightarrow> True | _ \<Rightarrow> False)"

lemma apply_blocks_log:
  "apply_blocks X raw m data bs log = (Inr u, log') \<Longrightarrow> grows is_block_write log log'"
proof (induction bs arbitrary: log)
  case (Cons b bs)
  from Cons.prems obtain log1 where
    one: "apply_block X raw m data b log = (Inr (), log1)" and rest: "apply_blocks X raw m data bs log1 = (Inr u, log')"
    by (auto simp: io_simps split: prod.splits sum.splits)
  have band: "list_all is_block_write ws" if "list_all (band_write X raw sheet r0 r1 c0 c1) ws"
    for sheet r0 r1 c0 c1 ws
    using that by (auto simp: list_all_iff band_write_def row_write_def is_block_write_def split: xl_write.splits)
  from one have "grows is_block_write log log1"
  proof (cases rule: apply_block_band)
    case (1 rows capacity sheet r0 c0 ws)
    then show ?thesis using band [OF 1(6)]
      by (auto simp: grows_def list_all_iff is_block_write_def)
  qed
  with Cons.IH [OF rest] show ?case using grows_order(2) by (metis transpD)
qed (auto simp: grows_def)

definition cell_write :: "pyval \<times> pyval \<Rightarrow> xl_write" where
  "cell_write kv =
     (let (sheet_name, separator, coordinate) = partition_char CHR ''!'' (str_val (fst kv))
      in if separator then SetRef (NamedSheet sheet_name) (PyStr coordinate) (snd kv)
         else SetRef ActiveSheet (fst kv) (snd kv))"

lemma apply_cell_items_log:
  "apply_cell_items X raw items log = (Inr u, log') \<Longrightarrow> log' = log @ map cell_write items"
proof (induction items arbitrary: log)
  case (Cons kv items)
  from Cons.prems have "apply_cell_items X raw items (log @ [cell_write kv]) = (Inr u, log')"
    by (cases kv)
      (auto simp: io_simps cell_write_def Let_def split: prod.splits sum.splits if_splits dest!: xl_do_Inr)
  from Cons.IH [OF this] show ?case by simp
qed simp

text \<open>Names, then blocks, then explicit cells in the order of the data, then the properties.\<close>

lemma fill_workbook_log:
  assumes "fill_workbook X raw m data [] = (Inr u, log)"
  obtains names blocks items where
    "log = names @ blocks @ map cell_write items @ [SetProperties xlsx_properties]"
    "list_all (name_write data (map blk_source (man_blocks m))) names"
    "list_all is_block_write blocks"
    "cells_items (data_cells data) = Inr items"
proof -
  from assms obtain l1 l2 items l3 where
    n: "apply_defined_names X raw data (map blk_source (man_blocks m)) (xl_defined_names X raw) [] = (Inr (), l1)"
    and b: "apply_blocks X raw m data (man_blocks m) l1 = (Inr (), l2)"
    and i: "cells_items (data_cells data) = Inr items" "apply_cell_items X raw items l2 = (Inr (), l3)"
    and p: "xl_do X raw (SetProperties xlsx_properties) l3 = (Inr u, log)"
    by (auto simp: fill_workbook_def apply_cells_def io_simps split: prod.splits sum.splits)
  from preservesD [OF grows_defined_names n] apply_blocks_log [OF b] apply_cell_items_log [OF i(2)]
    xl_do_Inr [OF p] i(1) that
  show ?thesis by (auto simp: grows_def)
qed

end
