(* ===== verification/StorageClient.thy ===== *)
theory StorageClient
  imports World
begin

text \<open>
  \<open>core/storage/client.py\<close>: the S3 operations, by bucket and key. Each makes one call of the
  service and sorts what it raises into \<open>ObjectNotFound\<close>, \<open>TransientStorageError\<close> and the rest.
\<close>

definition not_found_codes :: "string list" where
  "not_found_codes = [''NoSuchKey'', ''404'']"

definition missing_bucket_codes :: "string list" where
  "missing_bucket_codes = [''NoSuchBucket'']"

definition is_ClientError :: "exn \<Rightarrow> bool" where
  "is_ClientError e = (case e of ClientError _ _ _ \<Rightarrow> True | _ \<Rightarrow> False)"

definition is_transport_error :: "exn \<Rightarrow> bool" where
  "is_transport_error e = (case e of TimeoutError _ \<Rightarrow> True | BotoTransportError _ \<Rightarrow> True | _ \<Rightarrow> False)"

definition classify_client_error :: "exn \<Rightarrow> string \<Rightarrow> exn" where
  "classify_client_error e key =
     (case e of ClientError code status text \<Rightarrow>
        if code \<in> set missing_bucket_codes then TransientStorageError (''missing bucket for '' @ key)
        else if code \<in> set not_found_codes \<or> status = Some 404 then ObjectNotFound key
        else (case status of
           Some st \<Rightarrow> if 500 \<le> st \<and> st < 600
                      then TransientStorageError (''storage '' @ int_str st @ '' for '' @ key) else e
         | None \<Rightarrow> e)
      | _ \<Rightarrow> e)"

text \<open>The two \<open>except\<close> clauses that \<open>get_bytes\<close>, \<open>list_prefix\<close> and \<open>put_bytes\<close> share.\<close>

definition classify_errors :: "string \<Rightarrow> ('w, 'a) io \<Rightarrow> ('w, 'a) io" where
  "classify_errors key m =
     try_except m (\<lambda>e. is_ClientError e \<or> is_transport_error e)
       (\<lambda>e. if is_ClientError e then raise (classify_client_error e key)
            else raise (TransientStorageError (''storage transport: '' @ exn_str e)))"

definition get_bytes :: "env \<Rightarrow> string \<Rightarrow> string \<Rightarrow> (world, bytes) io" where
  "get_bytes E bucket key =
     classify_errors key (await E (\<lambda>tr. env_get E tr bucket key) (EvGet bucket key))"

text \<open>The service answers with pages of keys, which are collected in order.\<close>

definition list_prefix :: "env \<Rightarrow> string \<Rightarrow> string \<Rightarrow> (world, string list) io" where
  "list_prefix E bucket pre =
     classify_errors pre
       (and_then (await E (\<lambda>tr. env_list E tr bucket pre) (EvList bucket pre)) (\<lambda>pages.
        ret (concat pages)))"

definition put_bytes :: "env \<Rightarrow> string \<Rightarrow> string \<Rightarrow> bytes \<Rightarrow> string option \<Rightarrow> (world, unit) io" where
  "put_bytes E bucket key content ctype =
     (let extra = (if str_truthy ctype then ctype else None)
      in classify_errors key
           (await E (\<lambda>tr. env_put E tr bucket key content extra) (EvPut bucket key content extra)))"

definition presign_get :: "env \<Rightarrow> string \<Rightarrow> string \<Rightarrow> int \<Rightarrow> (world, string) io" where
  "presign_get E bucket key expires_in =
     await E (\<lambda>tr. env_presign E tr bucket key expires_in) (EvPresign bucket key expires_in)"

text \<open>\<open>delete\<close> logs what it catches and never raises an \<open>Exception\<close>.\<close>

definition delete_object :: "env \<Rightarrow> string \<Rightarrow> string \<Rightarrow> (world, unit) io" where
  "delete_object E bucket key =
     try_except (await E (\<lambda>tr. env_delete E tr bucket key) (EvDelete bucket key))
       is_Exception (\<lambda>_. ret ())"

section \<open>What the operations raise and record\<close>

lemma classify_errors_run [io_simps]:
  "classify_errors key m w =
     (case m w of
        (Inl e, w') \<Rightarrow> (Inl (if is_ClientError e then classify_client_error e key
                          else if is_transport_error e then TransientStorageError (''storage transport: '' @ exn_str e)
                          else e), w')
      | (Inr x, w') \<Rightarrow> (Inr x, w'))"
  by (auto simp: classify_errors_def io_simps split: prod.splits sum.splits)

text \<open>
  The classification: a missing bucket is transient even though its status is 404, a missing
  key is not found, a server error or a broken connection is transient, and any other client
  error stays what it was.
\<close>

lemma classify_client_error_cases:
  "classify_client_error (ClientError code status text) key =
     (if code = ''NoSuchBucket'' then TransientStorageError (''missing bucket for '' @ key)
      else if code = ''NoSuchKey'' \<or> code = ''404'' \<or> status = Some 404 then ObjectNotFound key
      else if \<exists>st. status = Some st \<and> 500 \<le> st \<and> st < 600
        then TransientStorageError (''storage '' @ int_str (the status) @ '' for '' @ key)
      else ClientError code status text)"
  by (auto simp: classify_client_error_def missing_bucket_codes_def not_found_codes_def split: option.splits)

lemma delete_object_never_raises:
  "delete_object E bucket key w = (Inl e, w') \<Longrightarrow> \<not> is_Exception e"
  by (auto simp: delete_object_def io_simps split: sum.splits if_splits)

lemma adds_classify [preserves_intros]: "preserves R m \<Longrightarrow> preserves R (classify_errors key m)"
  by (auto simp: preserves_def io_simps split: prod.splits sum.splits)

lemma adds_get_bytes [preserves_intros]:
  "(\<And>ok. P (EvGet bucket key ok)) \<Longrightarrow> preserves (adds P) (get_bytes E bucket key)"
  unfolding get_bytes_def by (intro preserves_intros)

lemma adds_list_prefix [preserves_intros]:
  "(\<And>ok. P (EvList bucket pre ok)) \<Longrightarrow> preserves (adds P) (list_prefix E bucket pre)"
  unfolding list_prefix_def by (intro preserves_intros)

lemma adds_presign_get [preserves_intros]:
  "(\<And>ok. P (EvPresign bucket key ttl ok)) \<Longrightarrow> preserves (adds P) (presign_get E bucket key ttl)"
  unfolding presign_get_def by (intro preserves_intros)

lemma put_bytes_writes:
  "put_bytes E bucket key c ct w = (Inr u, w') \<Longrightarrow> bucket_writes bucket w' = bucket_writes bucket w @ [(key, c)]"
  "put_bytes E bucket key c ct w = (Inl e, w') \<Longrightarrow> bucket_writes bucket w' = bucket_writes bucket w"
  "put_bytes E bucket key c ct w = (x, w') \<Longrightarrow> possible_writes bucket w' = possible_writes bucket w @ [(key, c)]"
  by (auto simp: put_bytes_def io_simps bucket_writes_def written_def possible_writes_def tried_def Let_def
      split: prod.splits sum.splits)

end
