(* ===== verification/ObjectStore.thy ===== *)
theory ObjectStore
  imports StorageClient
begin

text \<open>
  \<open>adapters/object_store.py\<close>: write one artifact to the output bucket and describe it. The
  SHA-256 of the bytes is a parameter.
\<close>

definition is_Transient :: "exn \<Rightarrow> bool" where
  "is_Transient e = (case e of TransientStorageError _ \<Rightarrow> True | _ \<Rightarrow> False)"

definition object_uri :: "string \<Rightarrow> string \<Rightarrow> string" where
  "object_uri bucket key = ''s3://'' @ bucket @ ''/'' @ key"

definition put_artifact ::
  "env \<Rightarrow> (bytes \<Rightarrow> string) \<Rightarrow> string \<Rightarrow> string \<Rightarrow> bytes \<Rightarrow> string \<Rightarrow> int option \<Rightarrow>
   (world, stored_artifact) io" where
  "put_artifact E sha256 bucket key content ctype presign_ttl =
     and_then
       (try_except (put_bytes E bucket key content (Some ctype)) is_Transient
          (\<lambda>e. raise (DocGenError StorageError (''upload '' @ py_repr key @ '': '' @ exn_str e)))) (\<lambda>_.
     and_then
       (case presign_ttl of
          None \<Rightarrow> ret None
        | Some ttl \<Rightarrow>
            try_except (and_then (presign_get E bucket key ttl) (\<lambda>url. ret (Some url)))
              is_Exception (\<lambda>_. ret None)) (\<lambda>presigned.
     ret \<lparr>st_uri = object_uri bucket key, st_size_bytes = int (length content),
          st_sha256 = sha256 content, st_presigned_url = presigned\<rparr>))"

lemma presign_writes:
  "presign_get E b k ttl w = (x, w') \<Longrightarrow> bucket_writes b' w' = bucket_writes b' w"
  "presign_get E b k ttl w = (x, w') \<Longrightarrow> possible_writes b' w' = possible_writes b' w"
  by (auto simp: presign_get_def io_simps bucket_writes_def written_def possible_writes_def tried_def)

text \<open>
  The adapter keeps the contract twice: for the objects whose write was confirmed, of which only a
  cancellation (in the signing that follows) can leave one behind, and for those that may be there.
\<close>

interpretation os: object_store_port "put_artifact E sha256 bucket" "object_uri bucket" sha256
    "bucket_writes bucket" "\<lambda>e. \<not> is_Exception e" for E sha256 bucket
proof
  fix k c t ttl w s w'
  assume run: "put_artifact E sha256 bucket k c t ttl w = (Inr s, w')"
  show "st_uri s = object_uri bucket k \<and> st_size_bytes s = int (length c) \<and> st_sha256 s = sha256 c \<and>
      (ttl = None \<longrightarrow> st_presigned_url s = None)"
    using run by (auto simp: put_artifact_def io_simps split: prod.splits sum.splits option.splits if_splits)
  show "bucket_writes bucket w' = bucket_writes bucket w @ [(k, c)]"
    using run
    by (auto simp: put_artifact_def io_simps split: prod.splits sum.splits option.splits if_splits
        dest!: put_bytes_writes(1) presign_writes(1) [where b' = bucket])
next
  fix k c t ttl w e w'
  assume "put_artifact E sha256 bucket k c t ttl w = (Inl e, w')"
  then show "bucket_writes bucket w' = bucket_writes bucket w \<or>
      \<not> is_Exception e \<and> bucket_writes bucket w' = bucket_writes bucket w @ [(k, c)]"
    by (auto simp: put_artifact_def io_simps split: prod.splits sum.splits option.splits if_splits
        dest!: put_bytes_writes(1,2) presign_writes(1) [where b' = bucket])
qed

lemma put_artifact_tries:
  "put_artifact E sha256 bucket k c t ttl w = (x, w') \<Longrightarrow>
   possible_writes bucket w' = possible_writes bucket w @ [(k, c)]"
  by (auto simp: put_artifact_def io_simps split: prod.splits sum.splits option.splits if_splits
      dest!: put_bytes_writes(3) presign_writes(2) [where b' = bucket])

interpretation os_possible: object_store_port "put_artifact E sha256 bucket" "object_uri bucket" sha256
    "possible_writes bucket" "\<lambda>_. True" for E sha256 bucket
  by unfold_locales (use os.put_describes put_artifact_tries in blast)+

text \<open>
  Signing is best effort: an upload that succeeds is reported as stored whatever signing does,
  short of a cancellation.
\<close>

lemma presign_never_fails_put:
  assumes "put_bytes E bucket k c (Some t) w = (Inr u, w1)"
    and "put_artifact E sha256 bucket k c t ttl w = (Inl e, w')"
  shows "\<not> is_Exception e"
  using assms by (auto simp: put_artifact_def io_simps split: prod.splits sum.splits option.splits if_splits)

end
