(* ===== verification/Validator.thy ===== *)
theory Validator
  imports Ports
begin

text \<open>
  \<open>adapters/validator_jsonschema.py\<close>: the gate in front of rendering. The jsonschema library
  is a parameter: \<open>js_check_schema\<close> is \<open>Draft202012Validator.check_schema\<close> (the message of its
  \<open>SchemaError\<close>), and \<open>js_best_match\<close> is \<open>best_match\<close> of the errors of the data (path and
  message of the error it picks, or the text of an exception the library raises itself).
\<close>

record jsonschema =
  js_check_schema :: "pydict \<Rightarrow> string option"
  js_best_match :: "pydict \<Rightarrow> pydict \<Rightarrow> string + (pyval list \<times> string) option"

definition error_location :: "pyval list \<Rightarrow> string" where
  "error_location absolute_path =
     (let location = join ''/'' (map str_val absolute_path)
      in if location = [] then ''<root>'' else location)"

definition validate :: "jsonschema \<Rightarrow> pydict \<Rightarrow> pydict \<Rightarrow> exn + unit" where
  "validate js data schema =
     (if schema = [] then Inr ()
      else case js_check_schema js schema of
        Some msg \<Rightarrow> Inl (DocGenError SchemaValidationError (''invalid required_fields schema: '' @ msg))
      | None \<Rightarrow>
          (case js_best_match js schema data of
             Inl text \<Rightarrow> Inl (OtherError text)
           | Inr None \<Rightarrow> Inr ()
           | Inr (Some (path, msg)) \<Rightarrow>
               Inl (DocGenError SchemaValidationError
                 (''data invalid at '' @ error_location path @ '': '' @ msg))))"

interpretation js: validator_port "validate js" for js
  by unfold_locales (auto simp: validate_def split: if_splits option.splits sum.splits)

lemma validate_Inr_iff:
  "validate js data schema = Inr () \<longleftrightarrow>
     schema = [] \<or> js_check_schema js schema = None \<and> js_best_match js schema data = Inr None"
  by (auto simp: validate_def split: if_splits option.splits sum.splits)

end
