(* ===== verification/TemplateStore.thy ===== *)
theory TemplateStore
  imports StorageClient ObjectStore
begin

text \<open>
  \<open>adapters/template_store.py\<close>: from an \<open>s3://\<close> uri to a directory of the local cache with the
  template's files, downloading the prefix when the cache has no manifest for it. A download
  goes to a fresh directory inside the cache and is renamed into place.
\<close>

record template_store =
  ts_bucket :: string
  ts_cache_dir :: path

definition manifest_name :: string where
  "manifest_name = ''manifest.json''"

definition parse_s3_uri :: "string \<Rightarrow> exn + (string \<times> string)" where
  "parse_s3_uri uri =
     (if \<not> startswith uri ''s3://''
      then Inl (ValueError (''template uri must use the s3:// scheme: '' @ py_repr uri))
      else
        (let remainder = drop (length ''s3://'') uri;
             (bucket, _, rest) = partition_char CHR ''/'' remainder
         in if bucket = [] then Inl (ValueError (''template uri has no bucket: '' @ py_repr uri))
            else (let pre = strip_char CHR ''/'' rest
                  in Inr (bucket, if pre \<noteq> [] then pre @ ''/'' else []))))"

text \<open>\<open>_local_dir_for\<close>: the cache directory of a prefix; one outside the cache is refused.\<close>

definition local_dir_for :: "template_store \<Rightarrow> string \<Rightarrow> exn + path" where
  "local_dir_for S pre =
     (let cache_root = ts_cache_dir S
      in case resolve_under cache_root pre of
           Inl e \<Rightarrow> Inl e
         | Inr candidate \<Rightarrow>
             if cache_root \<noteq> candidate \<and> \<not> in_parents cache_root candidate
             then Inl (DocGenError TemplateNotFoundError
                    (''template prefix escapes the cache root: '' @ py_repr pre))
             else Inr candidate)"

text \<open>\<open>PurePosixPath(key).name\<close>.\<close>

definition posix_name :: "string \<Rightarrow> string" where
  "posix_name key =
     (case filter (\<lambda>c. c \<noteq> [] \<and> c \<noteq> ''.'') (split_char CHR ''/'' key) of
        [] \<Rightarrow> [] | cs \<Rightarrow> last cs)"

text \<open>The download loop of \<open>_download_prefix\<close>, over the listed keys.\<close>

fun download_keys ::
  "env \<Rightarrow> template_store \<Rightarrow> string \<Rightarrow> path \<Rightarrow> string list \<Rightarrow> (world, unit) io" where
  "download_keys E S pre tmp_dir [] = ret ()"
| "download_keys E S pre tmp_dir (key # keys) =
     (let rel = drop (length pre) key
      in if rel = [] \<or> endswith_char key CHR ''/'' then download_keys E S pre tmp_dir keys
         else
           and_then (lift_result (resolve_under tmp_dir rel)) (\<lambda>target.
           if \<not> in_parents tmp_dir target
           then raise (DocGenError TemplateNotFoundError
                  (''template object escapes its prefix: '' @ py_repr key))
           else
             and_then (disk_op (mkdir_parents (butlast target))) (\<lambda>_.
             and_then
               (try_except (get_bytes E (ts_bucket S) key)
                  (\<lambda>e. case e of ObjectNotFound _ \<Rightarrow> True | TransientStorageError _ \<Rightarrow> True | _ \<Rightarrow> False)
                  (\<lambda>e. case e of
                      ObjectNotFound _ \<Rightarrow>
                        raise (DocGenError TemplateNotFoundError (''template object vanished: '' @ py_repr key))
                    | _ \<Rightarrow>
                        raise (DocGenError StorageError
                          (''download template object '' @ py_repr key @ '': '' @ exn_str e)))) (\<lambda>content.
             and_then (disk_op (write_bytes target content)) (\<lambda>_.
             download_keys E S pre tmp_dir keys)))))"

text \<open>
  \<open>_publish\<close>. Other processes that share the cache may run between the test and the rename.
\<close>

definition publish :: "env \<Rightarrow> path \<Rightarrow> path \<Rightarrow> (world, unit) io" where
  "publish E tmp_dir local_dir =
     and_then (disk_read (\<lambda>d. Inr (path_exists d local_dir))) (\<lambda>there.
     if there then ret ()
     else
       and_then (disk_op (mkdir_parents (butlast local_dir))) (\<lambda>_.
       and_then (others_run E) (\<lambda>_.
       try_except (disk_op (replace_dir tmp_dir local_dir)) is_OSError
         (\<lambda>e. and_then (disk_read (\<lambda>d. Inr (path_exists d local_dir))) (\<lambda>there.
              if \<not> there then raise e else ret ())))))"

text \<open>\<open>tempfile.mkdtemp(dir=cache_dir)\<close>: a new directory under a name the system chooses.\<close>

definition mkdtemp :: "env \<Rightarrow> path \<Rightarrow> (world, path) io" where
  "mkdtemp E dir = (\<lambda>w. and_then (disk_op (mkdir_new (dir @ [env_tmp_name E (trace w)])))
     (\<lambda>_. ret (dir @ [env_tmp_name E (trace w)])) w)"

definition rmtree :: "path \<Rightarrow> (world, unit) io" where
  "rmtree p = disk_op (\<lambda>d. Inr (remove_tree p d))"

definition download_prefix :: "env \<Rightarrow> template_store \<Rightarrow> string \<Rightarrow> path \<Rightarrow> (world, unit) io" where
  "download_prefix E S pre local_dir =
     and_then
       (try_except (list_prefix E (ts_bucket S) pre) is_Transient
          (\<lambda>e. raise (DocGenError StorageError
             (''list template prefix '' @ py_repr pre @ '': '' @ exn_str e)))) (\<lambda>keys.
     if \<not> list_ex (\<lambda>k. posix_name k = manifest_name) keys
     then raise (DocGenError TemplateNotFoundError
            (''no manifest.json under template prefix '' @ py_repr pre))
     else
       and_then (disk_op (mkdir_parents (ts_cache_dir S))) (\<lambda>_.
       and_then (mkdtemp E (ts_cache_dir S)) (\<lambda>tmp_dir.
       try_finally
         (and_then (download_keys E S pre tmp_dir keys) (\<lambda>_. publish E tmp_dir local_dir))
         (rmtree tmp_dir))))"

definition load_manifest :: "pydantic \<Rightarrow> path \<Rightarrow> string \<Rightarrow> (world, manifest) io" where
  "load_manifest pd manifest_path uri =
     try_except
       (disk_read (\<lambda>d. case read_bytes manifest_path d of
          Inl e \<Rightarrow> Inl e
        | Inr raw \<Rightarrow> model_validate_json pd ''Manifest'' (decode_manifest pd) raw))
       (\<lambda>e. is_OSError e \<or> is_ValueError e)
       (\<lambda>e. if is_OSError e
            then raise (DocGenError TemplateNotFoundError
                   (''manifest unreadable for '' @ py_repr uri @ '': '' @ exn_str e))
            else raise (DocGenError TemplateNotFoundError
                   (''invalid manifest for '' @ py_repr uri @ '': '' @ exn_str e)))"

definition fetch :: "env \<Rightarrow> pydantic \<Rightarrow> template_store \<Rightarrow> string \<Rightarrow> (world, template_bundle) io" where
  "fetch E pd S uri =
     (case parse_s3_uri uri of
        Inl e \<Rightarrow> raise (DocGenError TemplateNotFoundError (exn_str e))
      | Inr (bucket, pre) \<Rightarrow>
          if bucket \<noteq> ts_bucket S
          then raise (DocGenError TemplateNotFoundError
                 (''template uri bucket '' @ py_repr bucket @ '' is not the templates bucket '' @
                  py_repr (ts_bucket S)))
          else if pre = []
          then raise (DocGenError TemplateNotFoundError (''template uri has no prefix: '' @ py_repr uri))
          else
            and_then (lift_result (local_dir_for S pre)) (\<lambda>local_dir.
            and_then (disk_read (\<lambda>d. Inr (is_file d (local_dir @ [manifest_name])))) (\<lambda>cached.
            and_then (if \<not> cached then download_prefix E S pre local_dir else ret ()) (\<lambda>_.
            and_then (load_manifest pd (local_dir @ [manifest_name]) uri) (\<lambda>m.
            ret \<lparr>bun_manifest = m, bun_root = local_dir\<rparr>)))))"

section \<open>Addresses\<close>

text \<open>An \<open>s3://\<close> uri is read as its bucket and its prefix without the slashes around it.\<close>

lemma parse_s3_uri_bucket_prefix:
  assumes "CHR ''/'' \<notin> set b" "b \<noteq> []" "p \<noteq> []" "hd p \<noteq> CHR ''/''" "last p \<noteq> CHR ''/''"
  shows "parse_s3_uri (''s3://'' @ b @ ''/'' @ replicate m CHR ''/'' @ p @ replicate n CHR ''/'') =
    Inr (b, p @ ''/'')"
proof -
  let ?s = "CHR ''/''"
  have "strip_char ?s (replicate m ?s @ p @ replicate n ?s) = p"
    using assms(3-5)
    by (simp add: strip_char_def lstrip_char_replicate lstrip_char_append lstrip_char_id
        rstrip_char_replicate rstrip_char_id)
  then show ?thesis using assms(1-3) by (simp add: parse_s3_uri_def Let_def startswith_def)
qed

lemma parse_s3_uri_shape:
  assumes "parse_s3_uri uri = Inr (b, pre)"
  shows "b \<noteq> [] \<and> CHR ''/'' \<notin> set b \<and>
    (pre = [] \<or> (\<exists>p. pre = p @ ''/'' \<and> p \<noteq> [] \<and> hd p \<noteq> CHR ''/'' \<and> last p \<noteq> CHR ''/''))"
  using assms
  by (auto simp: parse_s3_uri_def Let_def partition_char_def strip_char_hd strip_char_last
      split: if_splits dest: set_takeWhileD)

lemma parse_s3_uri_raises: "parse_s3_uri uri = Inl e \<Longrightarrow> is_ValueError e"
  by (auto simp: parse_s3_uri_def Let_def is_ValueError_def split: if_splits prod.splits)

text \<open>Two uris of one bucket that differ in slashes around the prefix only are the same uri.\<close>

lemma local_dir_for_inside:
  "local_dir_for S pre = Inr dir \<Longrightarrow> prefix (ts_cache_dir S) dir"
  by (auto simp: local_dir_for_def Let_def in_parents_def split: sum.splits if_splits)

section \<open>The calls a fetch makes\<close>

definition reads_bucket :: "string \<Rightarrow> event \<Rightarrow> bool" where
  "reads_bucket b ev = (case ev of EvList b' _ _ \<Rightarrow> b' = b | EvGet b' _ _ \<Rightarrow> b' = b | _ \<Rightarrow> False)"

lemma reads_bucket_simps [simp]: "reads_bucket b (EvList b k ok)" "reads_bucket b (EvGet b k ok)"
  by (simp_all add: reads_bucket_def)

lemma download_keys_reads: "preserves (adds (reads_bucket (ts_bucket S))) (download_keys E S pre tmp keys)"
proof (induction keys)
  case (Cons key keys)
  then show ?case
    by (auto simp: Let_def intro!: preserves_intros split: exn.splits)
qed (simp add: preserves_Pair)

lemma publish_reads: "preserves (adds P) (publish E tmp dir)"
  unfolding publish_def
  by (intro preserves_intros adds_transp adds_reflp; (simp add: preserves_intros)?)

lemma mkdtemp_reads: "preserves (adds P) (mkdtemp E dir)"
  by (auto simp: preserves_def mkdtemp_def io_simps adds_def split: sum.splits)

lemma rmtree_reads: "preserves (adds P) (rmtree p)"
  by (simp add: rmtree_def preserves_intros)

lemma download_prefix_reads:
  "preserves (adds (reads_bucket (ts_bucket S))) (download_prefix E S pre dir)"
  unfolding download_prefix_def
  by (auto intro!: preserves_intros download_keys_reads publish_reads mkdtemp_reads rmtree_reads)

lemma load_manifest_reads: "preserves (adds P) (load_manifest pd p uri)"
  unfolding load_manifest_def by (auto intro!: preserves_intros)

text \<open>A fetch talks to the templates bucket only, and only to read.\<close>

lemma fetch_reads: "preserves (adds (reads_bucket (ts_bucket S))) (fetch E pd S uri)"
  unfolding fetch_def
  by (auto intro!: preserves_intros download_prefix_reads load_manifest_reads
      split: sum.splits prod.splits)

lemma reads_bucket_no_put: "reads_bucket b ev \<Longrightarrow> no_put ev"
  by (simp add: reads_bucket_def no_put_def split: event.splits)

lemma fetch_puts_nothing: "fetch E pd S uri w = (x, w') \<Longrightarrow> adds no_put w w'"
  using preservesD [OF fetch_reads] adds_mono reads_bucket_no_put by metis

interpretation ts: template_store_port "fetch E pd S" "bucket_writes bucket" for E pd S bucket
  by unfold_locales (rule adds_no_put(1) [OF fetch_puts_nothing])

interpretation ts_possible: template_store_port "fetch E pd S" "possible_writes bucket" for E pd S bucket
  by unfold_locales (rule adds_no_put(2) [OF fetch_puts_nothing])

end
