(* ===== verification/Renderers.thy ===== *)
theory Renderers
  imports JinjaHtml DocxRender PdfForm XlsxCells ObjectStore Validator TemplateStore Orchestrator
begin

text \<open>
  \<open>adapters/renderers/registry.py\<close> and \<open>adapters/render_executor.py\<close>: which renderer serves an
  engine and a format, and how a render is run, on the calling thread or in the process pool.
  The libraries of the four renderers are the parameter \<open>libs\<close>; the pool's own behaviour
  (a broken worker, a cancellation, an executor that is shut down) is \<open>env_pool\<close>.
\<close>

section \<open>The registry\<close>

datatype renderer = JinjaHtmlRenderer | XlsxRenderer | DocxRenderer | PdfFormRenderer

definition registry :: "((engine \<times> output_format) \<times> renderer) list" where
  "registry =
     [((JINJA_HTML, PDF), JinjaHtmlRenderer), ((JINJA_HTML, HTML), JinjaHtmlRenderer),
      ((XLSX_ENGINE, XLSX), XlsxRenderer), ((DOCX_ENGINE, DOCX), DocxRenderer),
      ((PDF_FORM, PDF), PdfFormRenderer)]"

definition registry_get :: "engine \<Rightarrow> output_format \<Rightarrow> renderer option" where
  "registry_get engine fmt = map_of registry (engine, fmt)"

definition registry_engines :: "engine set" where
  "registry_engines = set (map (fst \<circ> fst) registry)"

record libs =
  lib_jinja :: jinja_lib
  lib_docx :: docx_lib
  lib_pdf :: pdf_lib
  lib_xl :: xl_lib
  lib_zip :: zip_lib

text \<open>\<open>renderer.render(...)\<close>, the method of the renderer's class.\<close>

fun render ::
  "libs \<Rightarrow> renderer \<Rightarrow> fs \<Rightarrow> template_bundle \<Rightarrow> pydict \<Rightarrow> output_format \<Rightarrow> string option \<Rightarrow>
   exn + rendered_artifact" where
  "render L JinjaHtmlRenderer d b data fmt loc = jinja_render (lib_jinja L) d b data fmt loc"
| "render L XlsxRenderer d b data fmt loc = xlsx_render (lib_xl L) (lib_zip L) d b data fmt loc"
| "render L DocxRenderer d b data fmt loc = docx_render (lib_docx L) (lib_zip L) d b data fmt loc"
| "render L PdfFormRenderer d b data fmt loc = pdf_render (lib_pdf L) d b data fmt loc"

section \<open>Running a render\<close>

definition is_BrokenExecutor :: "exn \<Rightarrow> bool" where
  "is_BrokenExecutor e = (case e of BrokenExecutor _ \<Rightarrow> True | _ \<Rightarrow> False)"

text \<open>\<open>InlineRenderExecutor.run\<close>.\<close>

definition run_inline ::
  "libs \<Rightarrow> renderer \<Rightarrow> template_bundle \<Rightarrow> pydict \<Rightarrow> output_format \<Rightarrow> string option \<Rightarrow>
   (world, rendered_artifact) io" where
  "run_inline L r b data fmt loc =
     try_except (disk_read (\<lambda>d. render L r d b data fmt loc)) is_Exception
       (\<lambda>e. if is_DocGenError e then raise e
            else raise (DocGenError RenderError (''render failed: '' @ exn_str e)))"

text \<open>
  \<open>ProcessPoolRenderExecutor.run\<close>. Waiting for the semaphore and for the pool is one wait; the
  render itself reads the disk as it is when the pool gets to it.
\<close>

definition run_in_pool ::
  "env \<Rightarrow> libs \<Rightarrow> renderer \<Rightarrow> template_bundle \<Rightarrow> pydict \<Rightarrow> output_format \<Rightarrow> string option \<Rightarrow>
   (world, rendered_artifact) io" where
  "run_in_pool E L r b data fmt loc =
     try_except
       (and_then (await E (env_pool E) (EvRender fmt)) (\<lambda>_.
        disk_read (\<lambda>d. render L r d b data fmt loc))) is_Exception
       (\<lambda>e. if is_DocGenError e then raise e
            else if is_BrokenExecutor e
            then raise (DocGenError RenderError (''render pool broken: '' @ exn_str e))
            else raise (DocGenError RenderError (''render failed: '' @ exn_str e)))"

section \<open>Contracts\<close>

text \<open>Every engine has a renderer, and a registered pair is one that its renderer can produce.\<close>

lemma registry_complete: "registry_engines = UNIV"
proof -
  have "registry_engines = set (Enum.enum :: engine list)"
    by (auto simp: registry_engines_def registry_def enum_engine_def)
  then show ?thesis by (simp add: UNIV_enum)
qed

definition produces :: "renderer \<Rightarrow> output_format \<Rightarrow> bool" where
  "produces r fmt \<longleftrightarrow>
     (case r of JinjaHtmlRenderer \<Rightarrow> fmt = PDF \<or> fmt = HTML | XlsxRenderer \<Rightarrow> fmt = XLSX
      | DocxRenderer \<Rightarrow> fmt = DOCX | PdfFormRenderer \<Rightarrow> fmt = PDF)"

lemma registry_produces: "registry_get engine fmt = Some r \<Longrightarrow> produces r fmt"
  by (cases engine; cases fmt) (auto simp: registry_get_def registry_def produces_def)

lemma render_names:
  "render L r d b data fmt loc = Inr a \<Longrightarrow>
   ra_format a = fmt \<and> ra_filename a = filename_for (bun_manifest b) fmt"
  by (cases r) (auto dest: jinja_render_names xlsx_render_names docx_render_names pdf_render_names)

text \<open>Whatever happens inside a renderer, its caller sees a classified failure or a cancellation.\<close>

lemma render_Inl: "render L r d b data fmt loc = Inl e \<Longrightarrow> is_DocGenError e \<or> \<not> is_Exception e"
  by (cases r) (auto dest: jinja_render_Inl xlsx_render_Inl docx_render_Inl pdf_render_Inl)

lemma render_unsupported:
  "\<not> produces r fmt \<Longrightarrow> \<exists>e. render L r d b data fmt loc = Inl e"
  by (cases r; cases "render_html (lib_jinja L) d b data loc")
    (auto simp: produces_def jinja_render_def xlsx_render_def docx_render_def pdf_render_def
      classify_render_def)

lemma run_in_pool_Inr:
  assumes "run_in_pool E L r b data fmt loc w = (Inr a, w')"
  shows "render L r (disk w') b data fmt loc = Inr a \<and> trace w' = trace w @ [EvRender fmt True]"
  using assms
  by (auto simp: run_in_pool_def io_simps disk_read_def split: sum.splits if_splits)

lemma run_in_pool_Inl:
  assumes "run_in_pool E L r b data fmt loc w = (Inl e, w')"
  shows "is_DocGenError e \<or> \<not> is_Exception e"
  using assms render_Inl
  by (fastforce simp: run_in_pool_def io_simps disk_read_def split: sum.splits if_splits)

lemma run_in_pool_adds: "(\<And>ok. P (EvRender fmt ok)) \<Longrightarrow> preserves (adds P) (run_in_pool E L r b data fmt loc)"
  unfolding run_in_pool_def by (auto intro!: preserves_intros)

lemma run_in_pool_names:
  "run_in_pool E L r b data fmt loc w = (Inr a, w') \<Longrightarrow>
   ra_format a = fmt \<and> ra_filename a = filename_for (bun_manifest b) fmt"
  using run_in_pool_Inr render_names by blast

lemma run_in_pool_puts_nothing: "run_in_pool E L r b data fmt loc w = (x, w') \<Longrightarrow> adds no_put w w'"
  using preservesD [OF run_in_pool_adds [where P = no_put]] by (simp add: no_put_def)

interpretation pool: render_executor_port "run_in_pool E L" "bucket_writes bucket" for E L bucket
  by unfold_locales (rule run_in_pool_names, assumption, rule adds_no_put(1) [OF run_in_pool_puts_nothing])

interpretation pool_possible: render_executor_port "run_in_pool E L" "possible_writes bucket" for E L bucket
  by unfold_locales (rule run_in_pool_names, assumption, rule adds_no_put(2) [OF run_in_pool_puts_nothing])

text \<open>The inline executor keeps the same contract, and agrees with a pool that works.\<close>

interpretation inline: render_executor_port "run_inline L" "bucket_writes bucket" for L bucket
  by unfold_locales
    (auto simp: run_inline_def io_simps disk_read_def render_names split: sum.splits if_splits)

lemma inline_agrees_with_pool:
  assumes "env_pool E (trace w) = Inr ()"
  shows "fst (run_in_pool E L r b data fmt loc w) =
    fst (run_inline L r b data fmt loc (w\<lparr>disk := env_others E (trace w) (disk w)\<rparr>))"
  using assms
  by (auto simp: run_in_pool_def run_inline_def io_simps disk_read_def
      split: sum.splits if_splits dest: render_Inl)

section \<open>The deployed pipeline\<close>

record settings =
  set_templates_bucket :: string
  set_output_bucket :: string
  set_cache_dir :: path

definition live_ports ::
  "env \<Rightarrow> pydantic \<Rightarrow> jsonschema \<Rightarrow> libs \<Rightarrow> (bytes \<Rightarrow> string) \<Rightarrow> settings \<Rightarrow> (world, renderer) ports" where
  "live_ports E pd js L sha cfg =
     \<lparr>p_fetch = fetch E pd \<lparr>ts_bucket = set_templates_bucket cfg, ts_cache_dir = set_cache_dir cfg\<rparr>,
      p_validate = validate js,
      p_get_renderer = registry_get,
      p_run = run_in_pool E L,
      p_put = put_artifact E sha (set_output_bucket cfg)\<rparr>"

interpretation live: pipeline "live_ports E pd js L sha cfg" "object_uri (set_output_bucket cfg)" sha
    "bucket_writes (set_output_bucket cfg)" "\<lambda>e. \<not> is_Exception e" for E pd js L sha cfg
  unfolding pipeline_def
  using os.object_store_port_axioms pool.render_executor_port_axioms ts.template_store_port_axioms
    js.validator_port_axioms
  by (simp add: live_ports_def)

interpretation live_possible: pipeline "live_ports E pd js L sha cfg" "object_uri (set_output_bucket cfg)" sha
    "possible_writes (set_output_bucket cfg)" "\<lambda>_. True" for E pd js L sha cfg
  unfolding pipeline_def
  using os_possible.object_store_port_axioms pool_possible.render_executor_port_axioms
    ts_possible.template_store_port_axioms js.validator_port_axioms
  by (simp add: live_ports_def)

text \<open>The document of a format as one render of the template on the disk \<open>d\<close> gives it.\<close>

definition rendered_document ::
  "libs \<Rightarrow> fs \<Rightarrow> template_bundle \<Rightarrow> generation_request \<Rightarrow> output_format \<Rightarrow> exn + bytes" where
  "rendered_document L d tpl req fmt =
     (case registry_get (man_engine (bun_manifest tpl)) fmt of
        None \<Rightarrow> Inl (DocGenError UnsupportedFormatError [])
      | Some r \<Rightarrow> res_bind (render L r d tpl (req_data req) fmt (opt_locale (req_options req))) (\<lambda>a. Inr (ra_content a)))"

definition cache_of :: "settings \<Rightarrow> template_store" where
  "cache_of cfg = \<lparr>ts_bucket = set_templates_bucket cfg, ts_cache_dir = set_cache_dir cfg\<rparr>"

lemma live_produces:
  assumes "produced (live_ports E pd js L sha cfg) tpl req fmt c"
  shows "\<exists>d. rendered_document L d tpl req fmt = Inr c"
proof -
  from assms obtain r a w w' where "registry_get (man_engine (bun_manifest tpl)) fmt = Some r"
    "run_in_pool E L r tpl (req_data req) fmt (opt_locale (req_options req)) w = (Inr a, w')" "ra_content a = c"
    by (auto simp: produced_def live_ports_def)
  then have "rendered_document L (disk w') tpl req fmt = Inr c"
    using run_in_pool_Inr by (fastforce simp: rendered_document_def)
  then show ?thesis ..
qed

end
