(* ===== verification/Delivery.thy ===== *)
theory Delivery
  imports Dispatcher Renderers
begin

text \<open>
  What the broker sees of one delivered request: the sequence of publishes, acknowledgements
  and refusals, as an inductive specification of the outcome matrix, errors of the broker and
  cancellations included. The handler refines it; the properties of the deliveries follow from
  the specification.
\<close>

section \<open>The calls of the broker\<close>

definition is_broker :: "event \<Rightarrow> bool" where
  "is_broker ev = (case ev of EvPublish _ _ _ _ \<Rightarrow> True | EvAck _ \<Rightarrow> True | EvNak _ _ \<Rightarrow> True | _ \<Rightarrow> False)"

definition broker :: "world \<Rightarrow> event list" where
  "broker w = filter is_broker (trace w)"

lemma is_broker_simps [simp]:
  "is_broker (EvPublish s p h ok)" "is_broker (EvAck ok)" "is_broker (EvNak d ok)"
  "\<not> is_broker (EvMessageMetric s)" "\<not> is_broker (EvDocumentMetric s)" "\<not> is_broker (EvDurationMetric s)"
  by (simp_all add: is_broker_def)

lemma broker_other: "adds (\<lambda>ev. \<not> is_broker ev) w w' \<Longrightarrow> broker w' = broker w"
  by (auto simp: adds_def broker_def list_all_iff)

section \<open>The specification\<close>

text \<open>
  \<open>emits P Q delay terminal final evs ok\<close>: the calls of one attempt to emit a result. \<open>P\<close> is the
  publish of the result, \<open>Q\<close> that to the dead-letter subject, each with whether it succeeded;
  \<open>terminal\<close> says that no retry could change the result, \<open>final\<close> that this is the last
  delivery; \<open>ok\<close> that every call succeeded.
\<close>

inductive emits :: "(bool \<Rightarrow> event) \<Rightarrow> (bool \<Rightarrow> event) \<Rightarrow> int \<Rightarrow> bool \<Rightarrow> bool \<Rightarrow> event list \<Rightarrow> bool \<Rightarrow> bool"
  for P Q delay terminal final where
  reported: "terminal \<Longrightarrow> emits P Q delay terminal final [P True, EvAck ok] ok"
| unreported: "terminal \<or> final \<Longrightarrow> emits P Q delay terminal final [P False] False"
| refused: "\<not> terminal \<Longrightarrow> \<not> final \<Longrightarrow> emits P Q delay terminal final [EvNak delay ok] ok"
| unrouted: "\<not> terminal \<Longrightarrow> final \<Longrightarrow> emits P Q delay terminal final [P True, Q False] False"
| routed: "\<not> terminal \<Longrightarrow> final \<Longrightarrow> emits P Q delay terminal final [P True, Q True, EvAck ok] ok"

text \<open>The calls after a failed attempt; the flag is false when a cancellation ends them.\<close>

inductive recovers :: "(bool \<Rightarrow> event) \<Rightarrow> int \<Rightarrow> bool \<Rightarrow> event list \<Rightarrow> bool \<Rightarrow> bool"
  for Q delay final where
  refuse: "\<not> final \<Longrightarrow> recovers Q delay final [EvNak delay ok] (ok \<or> fin)"
| give_up: "final \<Longrightarrow> recovers Q delay final [Q ok, EvAck ok'] (ok' \<or> fin)"
| cut: "final \<Longrightarrow> recovers Q delay final [Q False] False"

inductive handles ::
  "(bool \<Rightarrow> event) \<Rightarrow> (bool \<Rightarrow> event) \<Rightarrow> (bool \<Rightarrow> event) \<Rightarrow> int \<Rightarrow> bool \<Rightarrow> bool \<Rightarrow> event list \<Rightarrow> bool \<Rightarrow> bool"
  for P Q Q' delay terminal final where
  emitted: "emits P Q delay terminal final evs True \<Longrightarrow> handles P Q Q' delay terminal final evs True"
| recovered: "emits P Q delay terminal final evs False \<Longrightarrow> recovers Q' delay final evs' fin \<Longrightarrow>
    handles P Q Q' delay terminal final (evs @ evs') fin"
| cancelled: "emits P Q delay terminal final evs False \<Longrightarrow> handles P Q Q' delay terminal final evs False"

inductive_cases emitsE: "emits P Q delay terminal final evs ok"
inductive_cases recoversE: "recovers Q delay final evs fin"
inductive_cases handlesE: "handles P Q Q' delay terminal final evs fin"

text \<open>Facts of the specification.\<close>

definition is_publish :: "event \<Rightarrow> bool" where
  "is_publish ev = (case ev of EvPublish _ _ _ _ \<Rightarrow> True | _ \<Rightarrow> False)"

lemma handles_finished_acks:
  assumes "handles P Q Q' delay terminal final evs True"
  shows "if final then \<exists>ok. EvAck ok \<in> set evs else EvAck True \<in> set evs \<or> (\<exists>ok. EvNak delay ok \<in> set evs)"
  using assms by (cases rule: handles.cases; elim emitsE; (elim recoversE)?) auto

lemma handles_nak_under_bound:
  assumes "handles P Q Q' delay terminal final evs fin" "EvNak d ok \<in> set evs"
    "\<And>b. is_publish (P b)" "\<And>b. is_publish (Q b)" "\<And>b. is_publish (Q' b)"
  shows "\<not> final \<and> d = delay"
proof -
  have ne: "EvNak d ok \<noteq> P b" "EvNak d ok \<noteq> Q b" "EvNak d ok \<noteq> Q' b" for b
    using assms(3-5) [of b] by (auto simp: is_publish_def split: event.splits)
  show ?thesis
    using assms(1) by (cases rule: handles.cases; elim emitsE; (elim recoversE)?) (use assms(2) ne in auto)
qed

lemma handles_ack_reports:
  assumes "handles P Q Q' delay terminal final evs fin" "EvAck True \<in> set evs"
    "\<And>b. is_publish (P b)" "\<And>b. is_publish (Q b)" "\<And>b. is_publish (Q' b)"
  shows "\<exists>before. evs = before @ [EvAck True] \<and> (P True \<in> set before \<or> final \<and> (\<exists>ok. before = [P False, Q' ok]))"
proof -
  have ne: "EvAck c \<noteq> P b" "EvAck c \<noteq> Q b" "EvAck c \<noteq> Q' b" for b c
    using assms(3-5) [of b] by (auto simp: is_publish_def split: event.splits)
  show ?thesis
    using assms(1) by (cases rule: handles.cases; elim emitsE; (elim recoversE)?) (use assms(2) ne in auto)
qed

lemma handles_never_both:
  assumes "handles P Q Q' delay terminal final evs fin" "EvAck True \<in> set evs"
    "\<And>b. is_publish (P b)" "\<And>b. is_publish (Q b)" "\<And>b. is_publish (Q' b)"
  shows "EvNak d ok \<notin> set evs"
proof -
  have ne: "EvAck c \<noteq> P b" "EvAck c \<noteq> Q b" "EvAck c \<noteq> Q' b" "EvNak d ok \<noteq> P b" "EvNak d ok \<noteq> Q b" "EvNak d ok \<noteq> Q' b" for b c
    using assms(3-5) [of b] by (auto simp: is_publish_def split: event.splits)
  show ?thesis
    using assms(1) by (cases rule: handles.cases; elim emitsE; (elim recoversE)?) (use assms(2) ne in auto)
qed

section \<open>The handler refines it\<close>

definition result_publish :: "(generation_result \<Rightarrow> bytes) \<Rightarrow> generation_request \<Rightarrow> generation_result \<Rightarrow> bool \<Rightarrow> event" where
  "result_publish wire req r = EvPublish (req_reply_to req) (wire r) (result_headers r)"

definition dlq_publish :: "string \<Rightarrow> msg \<Rightarrow> generation_request \<Rightarrow> generation_result \<Rightarrow> bool \<Rightarrow> event" where
  "dlq_publish dlq m req r = EvPublish dlq (msg_data m) (dlq_headers req r)"

definition failure_publish :: "string \<Rightarrow> msg \<Rightarrow> generation_request \<Rightarrow> bool \<Rightarrow> event" where
  "failure_publish dlq m req = EvPublish dlq (msg_data m)
     [(HEADER_REQUEST_ID, req_request_id req), (HEADER_DLQ_REASON, ''emit_failure'')]"

lemmas publish_defs = result_publish_def dlq_publish_def failure_publish_def

lemma publishes [simp]:
  "is_publish (result_publish wire req r b)" "is_publish (dlq_publish dlq m req r b)"
  "is_publish (failure_publish dlq m req b)"
  by (simp_all add: publish_defs is_publish_def)

definition is_final :: "'r handler_deps \<Rightarrow> msg \<Rightarrow> bool" where
  "is_final D m \<longleftrightarrow> dep_max_deliver D \<le> num_delivered m"

lemma msg_ack_trace: "msg_ack E w = (x, w') \<Longrightarrow> trace w' = trace w @ [EvAck (is_ok x)]"
  by (auto simp: msg_ack_def io_simps)

lemma msg_nak_trace: "msg_nak E d w = (x, w') \<Longrightarrow> trace w' = trace w @ [EvNak d (is_ok x)]"
  by (auto simp: msg_nak_def io_simps)

lemma count_documents_run:
  "count_documents as w = (Inr (), w\<lparr>trace := trace w @ map (\<lambda>a. EvDocumentMetric (format_value (art_format a))) as\<rparr>)"
  by (induction as arbitrary: w) (auto simp: io_simps)

locale delivery =
  message_transport "dep_publish_result D" "dep_publish_dlq D" wire dlq
  for D :: "'r handler_deps" and wire :: "generation_result \<Rightarrow> bytes" and dlq :: string +
  assumes pipeline_calls: "process_request (dep_ports D) req g w = (x, w') \<Longrightarrow>
      adds (\<lambda>ev. \<not> is_broker ev) w w'"
begin

lemma build_result_broker: "build_result D req w = (x, w') \<Longrightarrow> broker w' = broker w"
  by (auto simp: build_result_def io_simps split: prod.splits sum.splits if_splits
      dest!: pipeline_calls broker_other)

lemma build_result_Inl: "build_result D req w = (Inl e, w') \<Longrightarrow> \<not> is_Exception e"
  by (auto simp: build_result_def io_simps split: prod.splits sum.splits if_splits)

lemma emit_spec:
  assumes "emit E D m req r w = (x, w')"
  shows "\<exists>evs. trace w' = trace w @ evs \<and> list_all is_broker evs \<and>
    emits (result_publish wire req r) (dlq_publish dlq m req r) (dep_nak_delay D) (is_terminal r) (is_final D m)
      evs (is_ok x)"
proof (cases "is_terminal r")
  case True
  with assms show ?thesis
    by (auto simp: emit_def io_simps split: prod.splits sum.splits
        dest!: pub_result_trace msg_ack_trace intro!: emits.intros simp: publish_defs)
next
  case False
  show ?thesis
  proof (cases "is_final D m")
    case True
    with False assms show ?thesis
      by (auto simp: emit_def is_final_def io_simps split: prod.splits sum.splits
          dest!: pub_result_trace pub_dlq_trace msg_ack_trace intro!: emits.intros simp: publish_defs)
  next
    case nf: False
    with False assms show ?thesis
      by (auto simp: emit_def is_final_def io_simps split: prod.splits sum.splits
          dest!: msg_nak_trace intro!: emits.intros)
  qed
qed

lemma handle_emit_failure_spec:
  assumes "handle_emit_failure E D m req w = (x, w')"
  shows "(\<exists>evs. trace w' = trace w @ evs \<and> list_all is_broker evs \<and>
      recovers (failure_publish dlq m req) (dep_nak_delay D) (is_final D m) evs (is_ok x)) \<and>
    (\<forall>e. x = Inl e \<longrightarrow> \<not> is_Exception e)"
proof (cases "is_final D m")
  case True
  then have "\<not> num_delivered m < dep_max_deliver D" by (simp add: is_final_def)
  with assms obtain y w1 where pub: "dep_publish_dlq D (msg_data m)
        [(HEADER_REQUEST_ID, req_request_id req), (HEADER_DLQ_REASON, ''emit_failure'')] w = (y, w1)"
    and rest: "(\<exists>e. y = Inl e \<and> \<not> is_Exception e \<and> x = Inl e \<and> w' = w1) \<or>
      (\<exists>z. msg_ack E w1 = (z, w') \<and> (x = Inr ''emit_error_dlq'' \<or>
        (\<exists>e. z = Inl e \<and> \<not> is_Exception e \<and> x = Inl e)))"
    by (auto simp: handle_emit_failure_def io_simps split: prod.splits sum.splits if_splits)
  have t1: "trace w1 = trace w @ [failure_publish dlq m req (is_ok y)]"
    using pub_dlq_trace [OF pub] by (simp add: failure_publish_def)
  from rest show ?thesis
  proof
    assume "\<exists>e. y = Inl e \<and> \<not> is_Exception e \<and> x = Inl e \<and> w' = w1"
    then show ?thesis using t1 recovers.cut [OF True] by (auto simp: failure_publish_def)
  next
    assume "\<exists>z. msg_ack E w1 = (z, w') \<and> (x = Inr ''emit_error_dlq'' \<or>
        (\<exists>e. z = Inl e \<and> \<not> is_Exception e \<and> x = Inl e))"
    then obtain z where z: "msg_ack E w1 = (z, w')" "x = Inr ''emit_error_dlq'' \<or>
        (\<exists>e. z = Inl e \<and> \<not> is_Exception e \<and> x = Inl e)" by blast
    have "recovers (failure_publish dlq m req) (dep_nak_delay D) (is_final D m)
        [failure_publish dlq m req (is_ok y), EvAck (is_ok z)] (is_ok z \<or> is_ok x)"
      using recovers.give_up [OF True] .
    then show ?thesis using z t1 msg_ack_trace [OF z(1)] by (auto simp: failure_publish_def)
  qed
next
  case False
  then have "num_delivered m < dep_max_deliver D" by (simp add: is_final_def)
  with assms obtain z where z: "msg_nak E (dep_nak_delay D) w = (z, w')"
    and x: "x = Inr ''emit_error_nak'' \<or> (\<exists>e. z = Inl e \<and> \<not> is_Exception e \<and> x = Inl e)"
    by (auto simp: handle_emit_failure_def io_simps split: prod.splits sum.splits if_splits)
  have "recovers (failure_publish dlq m req) (dep_nak_delay D) (is_final D m)
      [EvNak (dep_nak_delay D) (is_ok z)] (is_ok z \<or> is_ok x)"
    using recovers.refuse [OF False] .
  then show ?thesis using x msg_nak_trace [OF z] by auto
qed

lemma emit_failed_spec:
  assumes "emit_failed E D m req w = (x, w')"
  shows "(\<exists>evs. broker w' = broker w @ evs \<and>
      recovers (failure_publish dlq m req) (dep_nak_delay D) (is_final D m) evs (is_ok x)) \<and>
    (\<forall>e. x = Inl e \<longrightarrow> \<not> is_Exception e)"
proof -
  obtain y w1 where y: "handle_emit_failure E D m req w = (y, w1)" by (cases "handle_emit_failure E D m req w")
  then have "broker w' = broker w1 \<and> is_ok x = is_ok y \<and> (\<forall>e. x = Inl e \<longrightarrow> y = Inl e)"
    using assms by (cases y) (auto simp: emit_failed_def io_simps broker_def)
  moreover from handle_emit_failure_spec [OF y] obtain evs where
    evs: "trace w1 = trace w @ evs" "list_all is_broker evs"
    and rec: "recovers (failure_publish dlq m req) (dep_nak_delay D) (is_final D m) evs (is_ok y)"
    and e: "\<forall>e. y = Inl e \<longrightarrow> \<not> is_Exception e" by blast
  moreover have "broker w1 = broker w @ evs" using evs by (simp add: broker_def filter_id_conv list_all_iff)
  ultimately show ?thesis by auto
qed

text \<open>The whole attempt: emit, and recover when the broker raised.\<close>

lemma emit_try_spec:
  assumes "try_except (emit_and_count E D m req r) is_Exception (\<lambda>_. emit_failed E D m req) w = (x, w')"
  shows "(\<exists>evs. broker w' = broker w @ evs \<and>
      handles (result_publish wire req r) (dlq_publish dlq m req r) (failure_publish dlq m req)
        (dep_nak_delay D) (is_terminal r) (is_final D m) evs (is_ok x)) \<and>
    (\<forall>e. x = Inl e \<longrightarrow> \<not> is_Exception e)"
proof -
  obtain y w1 where y: "emit E D m req r w = (y, w1)" by (cases "emit E D m req r w")
  from emit_spec [OF y] obtain evs where evs: "trace w1 = trace w @ evs" "list_all is_broker evs"
    and em: "emits (result_publish wire req r) (dlq_publish dlq m req r) (dep_nak_delay D)
      (is_terminal r) (is_final D m) evs (is_ok y)" by blast
  have b1: "broker w1 = broker w @ evs" using evs by (simp add: broker_def filter_id_conv list_all_iff)
  show ?thesis
  proof (cases y)
    case (Inr outcome)
    with y assms have "x = Inr ()" "broker w' = broker w1"
      by (auto simp: emit_and_count_def io_simps count_documents_run broker_def comp_def split: if_splits)
    with b1 em Inr show ?thesis by (auto intro: handles.emitted)
  next
    case (Inl e)
    then have run: "emit_and_count E D m req r w = (Inl e, w1)" using y by (simp add: emit_and_count_def io_simps)
    show ?thesis
    proof (cases "is_Exception e")
      case True
      with run assms have "emit_failed E D m req w1 = (x, w')" by (simp add: io_simps)
      from emit_failed_spec [OF this] obtain evs' where
        "broker w' = broker w1 @ evs'" "recovers (failure_publish dlq m req) (dep_nak_delay D) (is_final D m) evs' (is_ok x)"
        "\<forall>e. x = Inl e \<longrightarrow> \<not> is_Exception e" by blast
      with b1 em Inl show ?thesis by (auto intro: handles.recovered)
    next
      case False
      with run assms have "x = Inl e" "w' = w1" by (auto simp: io_simps)
      with b1 em Inl False show ?thesis by (auto intro: handles.cancelled)
    qed
  qed
qed

text \<open>
  One delivered request: either it is cancelled before it has a result, and the broker has
  seen nothing, or its result is emitted as the specification says.
\<close>

lemma handle_request_spec:
  assumes "handle_request E D m req w = (x, w')"
  obtains (unbuilt) e w1 where "build_result D req w = (Inl e, w1)" "broker w' = broker w"
      "x = Inl e" "\<not> is_Exception e"
  | (built) r w1 evs where "build_result D req w = (Inr r, w1)" "broker w' = broker w @ evs"
      "handles (result_publish wire req r) (dlq_publish dlq m req r) (failure_publish dlq m req)
        (dep_nak_delay D) (is_terminal r) (is_final D m) evs (is_ok x)"
      "\<forall>e. x = Inl e \<longrightarrow> \<not> is_Exception e"
proof (cases "build_result D req w")
  case (Pair y w1)
  note b1 = build_result_broker [OF Pair]
  show ?thesis
  proof (cases y)
    case (Inl e)
    then have e: "\<not> is_Exception e" using Pair build_result_Inl by blast
    with Inl Pair assms have "x = Inl e" "broker w' = broker w1"
      by (auto simp: handle_request_def io_simps broker_def)
    with unbuilt Pair Inl e b1 show ?thesis by simp
  next
    case (Inr r)
    obtain z w2 where z: "try_except (emit_and_count E D m req r) is_Exception (\<lambda>_. emit_failed E D m req) w1 = (z, w2)"
      by (cases "try_except (emit_and_count E D m req r) is_Exception (\<lambda>_. emit_failed E D m req) w1")
    have "x = z" "broker w' = broker w2"
      using assms Pair Inr z by (auto simp: handle_request_def try_finally_run emit_event_run broker_def)
    then show ?thesis using built [of r w1] Pair Inr emit_try_spec [OF z] b1 by auto
  qed
qed

end

end
