(* ===== verification/TemplateCache.thy ===== *)
theory TemplateCache
  imports TemplateStore
begin

text \<open>
  What a fetch does to the local disk: it writes nowhere outside the cache directory whatever
  keys the bucket lists, a download that fails changes no file at all, and a download that
  succeeds leaves a directory that mirrors the prefix. Also the case in which the cache gets in
  the way: a directory without a manifest is never replaced.
\<close>

section \<open>Nothing outside the cache\<close>

text \<open>
  \<open>confined root d d'\<close>: the two disks agree outside \<open>root\<close>, except that missing directories
  above it may have been created.
\<close>

definition confined :: "path \<Rightarrow> fs \<Rightarrow> fs \<Rightarrow> bool" where
  "confined root d d' \<longleftrightarrow>
     (\<forall>p. \<not> prefix root p \<longrightarrow>
        node_at d' p = node_at d p \<or>
        node_at d p = None \<and> node_at d' p = Some Dir \<and> strict_prefix p root)"

definition disk_confined :: "path \<Rightarrow> world \<Rightarrow> world \<Rightarrow> bool" where
  "disk_confined root w w' \<longleftrightarrow> confined root (disk w) (disk w')"

text \<open>The other users of the disk keep to the cache as well.\<close>

definition others_confined :: "env \<Rightarrow> path \<Rightarrow> bool" where
  "others_confined E root \<longleftrightarrow> (\<forall>tr d. confined root d (env_others E tr d))"

lemma confined_refl [simp]: "confined root d d"
  by (simp add: confined_def)

lemma confined_trans: "confined root d d' \<Longrightarrow> confined root d' d'' \<Longrightarrow> confined root d d''"
  unfolding confined_def by (metis option.distinct(1))

lemma disk_confined_reflp [simp, preserves_intros]: "reflp (disk_confined root)"
  by (simp add: reflp_def disk_confined_def)

lemma disk_confined_transp [simp, preserves_intros]: "transp (disk_confined root)"
  unfolding transp_def disk_confined_def using confined_trans by blast

lemma confined_disk_op:
  "(\<And>d d'. f d = Inr d' \<Longrightarrow> confined root d d') \<Longrightarrow> preserves (disk_confined root) (disk_op f)"
  by (auto simp: preserves_def disk_op_def disk_confined_def split: sum.splits)

lemma confined_disk_read: "preserves (disk_confined root) (disk_read f)"
  by (auto simp: preserves_def disk_read_def disk_confined_def)

lemma confined_await: "others_confined E root \<Longrightarrow> preserves (disk_confined root) (await E a ev)"
  by (auto simp: preserves_def await_def disk_confined_def others_confined_def)

lemma confined_others_run: "others_confined E root \<Longrightarrow> preserves (disk_confined root) (others_run E)"
  by (auto simp: preserves_def others_run_def disk_confined_def others_confined_def)

lemma confined_mkdir_parents:
  assumes "mkdir_parents q d = Inr d'" "prefix root q \<or> prefix q root"
  shows "confined root d d'"
proof -
  have "strict_prefix p root" if "\<not> prefix root p" "prefix p q" for p
  proof -
    have "prefix p root" using assms(2) that
      by (metis prefix_order.trans prefix_same_cases)
    with that show ?thesis by (auto simp: strict_prefix_def)
  qed
  then show ?thesis by (auto simp: confined_def node_at_mkdir_parents [OF assms(1)])
qed

lemma confined_mkdir_new: "mkdir_new q d = Inr d' \<Longrightarrow> prefix root q \<Longrightarrow> confined root d d'"
  by (auto simp: mkdir_new_def confined_def node_at_dict_set split: if_splits)

lemma confined_write_bytes: "write_bytes q c d = Inr d' \<Longrightarrow> prefix root q \<Longrightarrow> confined root d d'"
  by (auto simp: write_bytes_def confined_def node_at_dict_set split: if_splits)

lemma confined_remove_tree: "prefix root q \<Longrightarrow> confined root d (remove_tree q d)"
  unfolding confined_def
  by (metis node_at_remove_tree node_at_root prefix_order.trans)

lemma confined_replace_dir:
  assumes "replace_dir src dst d = Inr d'" "prefix root src" "prefix root dst"
  shows "confined root d d'"
proof (cases "src = dst")
  case True
  with assms(1) have "d' = d" by (auto simp: replace_dir_def split: if_splits)
  then show ?thesis by simp
next
  case False
  have "\<not> prefix src p" "\<not> prefix dst p" if "\<not> prefix root p" for p
    using that assms(2,3) prefix_order.trans by blast+
  then show ?thesis by (simp add: confined_def node_at_replace_dir [OF assms(1) False])
qed

lemma confined_get_bytes: "others_confined E root \<Longrightarrow> preserves (disk_confined root) (get_bytes E b k)"
  unfolding get_bytes_def by (intro adds_classify confined_await)

lemma confined_list_prefix: "others_confined E root \<Longrightarrow> preserves (disk_confined root) (list_prefix E b k)"
  unfolding list_prefix_def by (intro preserves_intros confined_await; simp)

lemma in_parents_under:
  assumes "prefix root tmp" "in_parents tmp target"
  shows "prefix root target" "prefix root (butlast target)"
  using assms strict_prefix_butlast unfolding in_parents_def
  by (meson prefix_order.trans prefix_order.less_imp_le)+

lemma confined_target:
  assumes "prefix root tmp" "in_parents tmp target"
  shows "preserves (disk_confined root) (disk_op (mkdir_parents (butlast target)))"
    and "preserves (disk_confined root) (disk_op (write_bytes target c))"
  using confined_mkdir_parents confined_write_bytes in_parents_under [OF assms]
  by (blast intro: confined_disk_op)+

lemma confined_download_keys:
  assumes "others_confined E root" "prefix root tmp"
  shows "preserves (disk_confined root) (download_keys E S pre tmp keys)"
proof (induction keys)
  case (Cons key keys)
  then show ?case
    by (auto simp: Let_def intro!: preserves_intros confined_get_bytes assms confined_target [OF assms(2)]
        split: exn.splits)
qed (simp add: preserves_Pair)

lemma confined_publish:
  assumes "others_confined E root" "prefix root tmp" "prefix root dir"
  shows "preserves (disk_confined root) (publish E tmp dir)"
proof -
  have "prefix root (butlast dir) \<or> prefix (butlast dir) root"
    using assms(3) by (metis prefix_order.dual_order.trans prefix_same_cases prefixeq_butlast)
  then show ?thesis
    unfolding publish_def
    by (intro preserves_intros disk_confined_transp disk_confined_reflp confined_disk_op confined_disk_read
        confined_others_run [OF assms(1)])
      (auto intro!: preserves_intros confined_disk_op confined_disk_read confined_others_run [OF assms(1)]
        intro: confined_mkdir_parents confined_replace_dir [OF _ assms(2,3)])
qed

lemma confined_mkdtemp: "preserves (disk_confined root) (mkdtemp E root)"
  unfolding mkdtemp_def preserves_def
  by (auto simp: io_simps disk_confined_def split: sum.splits intro: confined_mkdir_new)

lemma confined_rmtree: "prefix root p \<Longrightarrow> preserves (disk_confined root) (rmtree p)"
  unfolding rmtree_def by (rule confined_disk_op) (auto intro: confined_remove_tree)

lemma mkdtemp_Inr:
  "mkdtemp E dir w = (Inr p, w') \<Longrightarrow> p = dir @ [env_tmp_name E (trace w)] \<and> trace w' = trace w \<and>
     mkdir_new p (disk w) = Inr (disk w')"
  by (auto simp: mkdtemp_def io_simps split: sum.splits)

lemma mkdtemp_under: "mkdtemp E dir w = (Inr p, w') \<Longrightarrow> prefix dir p"
  using mkdtemp_Inr by (metis prefixI)

lemma confined_download_prefix:
  assumes "others_confined E (ts_cache_dir S)" "prefix (ts_cache_dir S) dir"
  shows "preserves (disk_confined (ts_cache_dir S)) (download_prefix E S pre dir)"
proof -
  let ?R = "disk_confined (ts_cache_dir S)"
  have mk: "preserves ?R (disk_op (mkdir_parents (ts_cache_dir S)))"
    by (rule confined_disk_op) (auto intro: confined_mkdir_parents)
  have body: "preserves ?R (try_finally
      (and_then (download_keys E S pre tmp keys) (\<lambda>_. publish E tmp dir)) (rmtree tmp))"
    if "prefix (ts_cache_dir S) tmp" for tmp keys
    using that assms by (intro preserves_intros confined_download_keys confined_publish confined_rmtree; simp)
  have tmp: "preserves ?R (and_then (mkdtemp E (ts_cache_dir S)) (\<lambda>tmp. try_finally
      (and_then (download_keys E S pre tmp keys) (\<lambda>_. publish E tmp dir)) (rmtree tmp)))" for keys
    by (rule preserves_and_then_dep [OF _ confined_mkdtemp body]) (auto dest: mkdtemp_under)
  show ?thesis
    unfolding download_prefix_def
    by (rule preserves_and_then)
      (auto intro!: preserves_try_except preserves_raise preserves_and_then [OF _ mk] tmp
        confined_list_prefix assms(1))
qed

lemma confined_load_manifest: "preserves (disk_confined root) (load_manifest pd p u)"
  unfolding load_manifest_def by (auto intro!: preserves_intros confined_disk_read)

lemma confined_fetch:
  assumes "others_confined E (ts_cache_dir S)"
  shows "preserves (disk_confined (ts_cache_dir S)) (fetch E pd S uri)"
proof -
  let ?R = "disk_confined (ts_cache_dir S)"
  have step: "preserves ?R (and_then (disk_read (\<lambda>d. Inr (is_file d (dir @ [manifest_name])))) (\<lambda>cached.
       and_then (if \<not> cached then download_prefix E S pre dir else ret ()) (\<lambda>_.
       and_then (load_manifest pd (dir @ [manifest_name]) uri) (\<lambda>m.
       ret \<lparr>bun_manifest = m, bun_root = dir\<rparr>))))" if "prefix (ts_cache_dir S) dir" for dir pre
    using that by (auto intro!: preserves_intros confined_disk_read confined_load_manifest
          confined_download_prefix [OF assms])
  have "preserves ?R
      (and_then (lift_result (local_dir_for S pre)) (\<lambda>local_dir.
       and_then (disk_read (\<lambda>d. Inr (is_file d (local_dir @ [manifest_name])))) (\<lambda>cached.
       and_then (if \<not> cached then download_prefix E S pre local_dir else ret ()) (\<lambda>_.
       and_then (load_manifest pd (local_dir @ [manifest_name]) uri) (\<lambda>m.
       ret \<lparr>bun_manifest = m, bun_root = local_dir\<rparr>)))))" for pre
    by (rule preserves_and_then_dep)
      (simp_all add: step local_dir_for_inside preserves_lift preserves_Pair)
  then show ?thesis
    unfolding fetch_def by (auto intro!: preserves_intros split: sum.splits prod.splits)
qed

section \<open>Cached templates and blocked directories\<close>

text \<open>A template whose manifest is in the cache is served from the cache alone.\<close>

lemma fetch_cached:
  assumes "parse_s3_uri uri = Inr (ts_bucket S, pre)" "pre \<noteq> []" "local_dir_for S pre = Inr dir"
    and "is_file (disk w) (dir @ [manifest_name])"
  shows "fetch E pd S uri w = and_then (load_manifest pd (dir @ [manifest_name]) uri)
      (\<lambda>m. ret \<lparr>bun_manifest = m, bun_root = dir\<rparr>) w"
    and "snd (fetch E pd S uri w) = w"
  using assms
  by (auto simp: fetch_def io_simps load_manifest_def split: sum.splits prod.splits)

definition quiet :: "env \<Rightarrow> bool" where
  "quiet E \<longleftrightarrow> (\<forall>tr d. env_others E tr d = d)"

lemma quietD [simp]: "quiet E \<Longrightarrow> env_others E tr d = d"
  by (simp add: quiet_def)

lemma quiet_confined: "quiet E \<Longrightarrow> others_confined E root"
  by (simp add: quiet_def others_confined_def)

text \<open>
  \<open>adds_dirs Q d d'\<close>: every path is as it was, except that missing directories on the way to
  the paths \<open>Q\<close> may have been created: no file appears, changes or vanishes.
\<close>

definition adds_dirs :: "path list \<Rightarrow> fs \<Rightarrow> fs \<Rightarrow> bool" where
  "adds_dirs Q d d' \<longleftrightarrow>
     (\<forall>p. node_at d' p = node_at d p \<or>
          node_at d p = None \<and> node_at d' p = Some Dir \<and> list_ex (prefix p) Q)"

lemma adds_dirs_refl [simp]: "adds_dirs Q d d"
  by (simp add: adds_dirs_def)

lemma adds_dirs_trans: "adds_dirs Q d d' \<Longrightarrow> adds_dirs Q d' d'' \<Longrightarrow> adds_dirs Q d d''"
  unfolding adds_dirs_def by (metis option.distinct(1))

lemma adds_dirs_mkdir_parents: "mkdir_parents q d = Inr d' \<Longrightarrow> q \<in> set Q \<Longrightarrow> adds_dirs Q d d'"
  by (auto simp: adds_dirs_def node_at_mkdir_parents list_ex_iff)

lemma adds_dirs_file: "adds_dirs Q d d' \<Longrightarrow> node_at d' p = Some (File c) \<longleftrightarrow> node_at d p = Some (File c)"
  unfolding adds_dirs_def by (metis node.distinct(1) option.distinct(1) option.inject)

lemma adds_dirs_is_file: "adds_dirs Q d d' \<Longrightarrow> is_file d' p = is_file d p"
  by (simp add: is_file_iff adds_dirs_file)

text \<open>What a scratch directory that was not there leaves behind once it is removed.\<close>

lemma adds_dirs_scratch:
  assumes "wf_fs d" "tmp \<noteq> []" "mkdir_new tmp d = Inr d1" "confined tmp d1 d2" "butlast tmp \<in> set Q"
  shows "adds_dirs Q d (remove_tree tmp d2)"
proof -
  have absent: "\<not> path_exists d tmp" using assms(3) by (auto simp: mkdir_new_def split: if_splits)
  have d1: "node_at d1 p = (if p = tmp then Some Dir else node_at d p)" for p
    using assms(2,3) by (auto simp: mkdir_new_def node_at_dict_set split: if_splits)
  have "node_at (remove_tree tmp d2) p = node_at d p \<or>
      node_at d p = None \<and> node_at (remove_tree tmp d2) p = Some Dir \<and> list_ex (prefix p) Q" for p
  proof (cases "prefix tmp p")
    case True
    then have "p \<noteq> []" using assms(2) by auto
    then show ?thesis
      using wf_fs_below_missing [OF assms(1) absent True] True by (simp add: node_at_remove_tree)
  next
    case False
    have rm: "node_at (remove_tree tmp d2) p = node_at d2 p"
      using False by (cases "p = []") (simp_all add: node_at_remove_tree)
    have "p \<noteq> tmp" using False by auto
    then have "node_at d1 p = node_at d p" by (simp add: d1)
    then show ?thesis
      using assms(4) False rm strict_prefix_butlast [of p tmp] assms(5)
      unfolding confined_def list_ex_iff by metis
  qed
  then show ?thesis by (simp add: adds_dirs_def)
qed

text \<open>The ways \<open>_publish\<close> ends on a quiet disk.\<close>

lemma publish_cases:
  assumes "quiet E" "publish E tmp dir w = (r, w')"
  obtains (there) "path_exists (disk w) dir" "r = Inr ()" "disk w' = disk w"
  | (parent_fails) e where "\<not> path_exists (disk w) dir" "r = Inl e" "disk w' = disk w"
  | (moved) d1 d2 where "\<not> path_exists (disk w) dir" "mkdir_parents (butlast dir) (disk w) = Inr d1"
      "replace_dir tmp dir d1 = Inr d2" "r = Inr ()" "disk w' = d2"
  | (stays) d1 where "\<not> path_exists (disk w) dir" "mkdir_parents (butlast dir) (disk w) = Inr d1"
      "disk w' = d1" "(\<exists>e. r = Inl e) \<or> path_exists d1 dir"
  using assms
  by (auto simp: publish_def io_simps disk_op_def disk_read_def split: sum.splits if_splits)

lemma adds_dirs_remove_tree: "adds_dirs Q d d' \<Longrightarrow> adds_dirs Q (remove_tree t d) (remove_tree t d')"
  unfolding adds_dirs_def by (metis node_at_remove_tree node_at_root)

lemma quiet_list_prefix: "quiet E \<Longrightarrow> list_prefix E b p w = (r, w') \<Longrightarrow> disk w' = disk w"
  by (auto simp: list_prefix_def io_simps split: sum.splits)

lemma rmtree_run [io_simps]: "rmtree p w = (Inr (), w\<lparr>disk := remove_tree p (disk w)\<rparr>)"
  by (simp add: rmtree_def disk_op_def)

text \<open>
  A download that fails, and one for a directory that exists already, change no file and leave
  no scratch directory behind.
\<close>

lemma scratch_phase:
  assumes q: "quiet E" and wf: "wf_fs d0" and tmp: "tmp \<noteq> []"
    and new: "mkdir_new tmp d0 = Inr (disk w1)" and Q: "butlast tmp \<in> set Q" "butlast dir \<in> set Q"
    and run: "try_finally (and_then (download_keys E S pre tmp keys) (\<lambda>_. publish E tmp dir)) (rmtree tmp) w1
      = (r, w')"
    and cs: "(\<exists>e. r = Inl e) \<or> path_exists d0 dir"
  shows "adds_dirs Q d0 (disk w')"
proof -
  obtain r2 w2 where dl: "download_keys E S pre tmp keys w1 = (r2, w2)"
    by (cases "download_keys E S pre tmp keys w1")
  have c: "confined tmp (disk w1) (disk w2)"
    using preservesD [OF confined_download_keys [OF quiet_confined [OF q] prefix_order.order_refl] dl]
    by (simp add: disk_confined_def)
  have scratch: "adds_dirs Q d0 (remove_tree tmp (disk w2))"
    by (rule adds_dirs_scratch [OF wf tmp new c Q(1)])
  show ?thesis
  proof (cases r2)
    case (Inl e)
    with run dl have "w' = w2\<lparr>disk := remove_tree tmp (disk w2)\<rparr>" by (auto simp: io_simps)
    with scratch show ?thesis by simp
  next
    case (Inr u)
    obtain r3 w3 where pub: "publish E tmp dir w2 = (r3, w3)" by (cases "publish E tmp dir w2")
    have res: "r = r3" "disk w' = remove_tree tmp (disk w3)"
      using run dl Inr pub by (auto simp: io_simps)
    from q pub show ?thesis
    proof (cases rule: publish_cases)
      case (moved d1 d2)
      then have dir: "path_exists d0 dir" using cs res by simp
      have "\<not> path_exists d0 tmp" using new by (auto simp: mkdir_new_def split: if_splits)
      with dir have "\<not> prefix tmp dir"
        using wf_fs_below_missing [OF wf] by (metis path_exists_def)
      moreover have "path_exists (disk w1) dir"
        using new dir tmp
        by (auto simp: mkdir_new_def path_exists_def node_at_dict_set split: if_splits
            dest!: sym [of _ "disk w1"])
      ultimately have "path_exists (disk w2) dir" using c by (auto simp: confined_def path_exists_def)
      with moved show ?thesis by simp
    next
      case (stays d1)
      then show ?thesis
        using adds_dirs_trans [OF scratch adds_dirs_remove_tree [OF adds_dirs_mkdir_parents]] Q(2) res
        by simp
    qed (use scratch res in simp_all)
  qed
qed

lemma download_prefix_keeps_files:
  assumes q: "quiet E" and wf: "wf_fs (disk w)" and run: "download_prefix E S pre dir w = (r, w')"
    and cs: "(\<exists>e. r = Inl e) \<or> path_exists (disk w) dir"
  shows "adds_dirs [ts_cache_dir S, butlast dir] (disk w) (disk w')"
proof -
  let ?Q = "[ts_cache_dir S, butlast dir]"
  obtain rl wl where ls: "list_prefix E (ts_bucket S) pre w = (rl, wl)"
    by (cases "list_prefix E (ts_bucket S) pre w")
  have dl: "disk wl = disk w" by (rule quiet_list_prefix [OF q ls])
  show ?thesis
  proof (cases "rl = Inr (projr rl) \<and> list_ex (\<lambda>k. posix_name k = manifest_name) (projr rl) \<and>
      (\<exists>d0. mkdir_parents (ts_cache_dir S) (disk w) = Inr d0)")
    case False
    then show ?thesis using run ls dl
      by (auto simp: download_prefix_def io_simps disk_op_def split: sum.splits if_splits)
  next
    case True
    then obtain keys d0 where keys: "rl = Inr keys" and mk: "mkdir_parents (ts_cache_dir S) (disk w) = Inr d0"
      and man: "list_ex (\<lambda>k. posix_name k = manifest_name) keys" by auto
    have q0: "adds_dirs ?Q (disk w) d0" using adds_dirs_mkdir_parents [OF mk] by simp
    let ?w0 = "wl\<lparr>disk := d0\<rparr>"
    obtain rt w1 where tmp: "mkdtemp E (ts_cache_dir S) ?w0 = (rt, w1)"
      by (cases "mkdtemp E (ts_cache_dir S) ?w0")
    show ?thesis
    proof (cases rt)
      case (Inl e)
      then have "disk w' = d0" using run ls keys man mk dl tmp
        by (auto simp: download_prefix_def io_simps disk_op_def mkdtemp_def split: sum.splits)
      with q0 show ?thesis by simp
    next
      case (Inr tmpd)
      note t = mkdtemp_Inr [OF tmp [unfolded Inr]]
      have "try_finally (and_then (download_keys E S pre tmpd keys) (\<lambda>_. publish E tmpd dir))
          (rmtree tmpd) w1 = (r, w')"
        using run ls keys man mk dl tmp Inr by (simp add: download_prefix_def io_simps disk_op_def)
      moreover have "(\<exists>e. r = Inl e) \<or> path_exists d0 dir"
        using cs q0 unfolding adds_dirs_def path_exists_def by (metis option.distinct(1))
      ultimately have "adds_dirs ?Q d0 (disk w')"
        using t by (intro scratch_phase [OF q wf_fs_mkdir_parents [OF wf mk]]) auto
      with q0 show ?thesis by (rule adds_dirs_trans)
    qed
  qed
qed

text \<open>
  A cache directory without a manifest is never replaced: the download runs, its result is
  thrown away, and the fetch fails as if the template did not exist, every time.
\<close>

lemma load_manifest_missing:
  "\<not> is_file (disk w) p \<Longrightarrow> \<exists>m. load_manifest pd p uri w = (Inl (DocGenError TemplateNotFoundError m), w)"
  by (auto simp: load_manifest_def io_simps disk_read_def read_bytes_def is_file_def is_OSError_def
      split: option.splits node.splits)

lemma fetch_blocked_directory:
  assumes q: "quiet E" and wf: "wf_fs (disk w)"
    and uri: "parse_s3_uri uri = Inr (ts_bucket S, pre)" "local_dir_for S pre = Inr dir"
    and there: "path_exists (disk w) dir" "\<not> is_file (disk w) (dir @ [manifest_name])"
    and run: "fetch E pd S uri w = (r, w')"
  shows "(\<exists>e. r = Inl e) \<and> adds_dirs [ts_cache_dir S, butlast dir] (disk w) (disk w')"
proof (cases "pre = []")
  case True
  with run uri show ?thesis by (auto simp: fetch_def io_simps)
next
  case False
  obtain r1 w1 where dl: "download_prefix E S pre dir w = (r1, w1)"
    by (cases "download_prefix E S pre dir w")
  have a: "adds_dirs [ts_cache_dir S, butlast dir] (disk w) (disk w1)"
    using download_prefix_keeps_files [OF q wf dl] there by blast
  then have "\<not> is_file (disk w1) (dir @ [manifest_name])" using there(2) adds_dirs_is_file by blast
  from load_manifest_missing [OF this, of pd uri] obtain m where
    "load_manifest pd (dir @ [manifest_name]) uri w1 = (Inl (DocGenError TemplateNotFoundError m), w1)" ..
  then show ?thesis using run False uri there a dl
    by (cases r1) (auto simp: fetch_def io_simps disk_read_def)
qed

text \<open>The directory of a prefix with a detour in front is that of the prefix.\<close>

lemma local_dir_for_detour:
  assumes "clean_name x" "CHR ''/'' \<notin> set x" "CHR 0x00 \<notin> set x" "\<not> startswith pre ''/''"
    and "local_dir_for S pre = Inr dir"
  shows "local_dir_for S (x @ ''/../'' @ pre) = Inr dir"
proof -
  have "split_char CHR ''/'' (x @ CHR ''/'' # ''..'' @ CHR ''/'' # pre) = x # ''..'' # split_char CHR ''/'' pre"
    using assms(2) by (simp add: split_char_append_sep split_char_no_sep)
  moreover have "\<not> startswith (x @ ''/../'' @ pre) ''/''"
    using assms(1,2) by (cases x) (auto simp: startswith_def clean_name_def)
  ultimately have "resolve_under root (x @ ''/../'' @ pre) = resolve_under root pre" for root
    using assms(1,3,4) by (simp add: resolve_under_def clean_name_def)
  then show ?thesis using assms(5)
    by (auto simp: local_dir_for_def Let_def split: sum.splits if_splits)
qed

end
