(* ===== verification/TemplateMirror.thy ===== *)
theory TemplateMirror
  imports TemplateCache
begin

text \<open>
  The success case of a fetch, as a total statement: when the bucket answers, the listed keys
  name regular paths and the cache has nothing in the way, the fetch ends with the manifest
  and a directory that holds exactly the objects below the prefix, byte for byte.
\<close>

section \<open>The directory a prefix describes\<close>

definition key_parts :: "string \<Rightarrow> string \<Rightarrow> path" where
  "key_parts pre key = split_char CHR ''/'' (drop (length pre) key)"

text \<open>The keys that stand for files: not the prefix itself, not a directory placeholder.\<close>

definition file_key :: "string \<Rightarrow> string \<Rightarrow> bool" where
  "file_key pre key \<longleftrightarrow> drop (length pre) key \<noteq> [] \<and> \<not> endswith_char key CHR ''/''"

definition mirror_node :: "string \<Rightarrow> (string \<Rightarrow> bytes) \<Rightarrow> string list \<Rightarrow> path \<Rightarrow> node option" where
  "mirror_node pre obj keys q =
     (case find (\<lambda>k. file_key pre k \<and> key_parts pre k = q) keys of
        Some k \<Rightarrow> Some (File (obj k))
      | None \<Rightarrow> if list_ex (\<lambda>k. file_key pre k \<and> strict_prefix q (key_parts pre k)) keys
                then Some Dir else None)"

text \<open>
  The keys name regular relative paths, none of which is a file on the way to another.
\<close>

definition regular_layout :: "string \<Rightarrow> string list \<Rightarrow> bool" where
  "regular_layout pre keys \<longleftrightarrow>
     list_all (\<lambda>k. file_key pre k \<longrightarrow>
       list_all clean_name (key_parts pre k) \<and> CHR 0x00 \<notin> set (drop (length pre) k) \<and>
       list_all (\<lambda>k'. file_key pre k' \<longrightarrow> prefix (key_parts pre k) (key_parts pre k') \<longrightarrow> k' = k) keys) keys"

definition serves :: "env \<Rightarrow> string \<Rightarrow> string \<Rightarrow> string list list \<Rightarrow> (string \<Rightarrow> bytes) \<Rightarrow> bool" where
  "serves E bucket pre pages obj \<longleftrightarrow>
     (\<forall>tr. env_list E tr bucket pre = Inr pages) \<and>
     (\<forall>tr k. k \<in> set (concat pages) \<longrightarrow> env_get E tr bucket k = Inr (obj k))"

lemma find_append: "find P (xs @ ys) = (case find P xs of None \<Rightarrow> find P ys | Some x \<Rightarrow> Some x)"
  by (induction xs) auto

lemma mirror_node_skip: "\<not> file_key pre k \<Longrightarrow> mirror_node pre obj (ks @ [k]) q = mirror_node pre obj ks q"
  by (simp add: mirror_node_def find_append split: option.splits)

lemma mirror_node_file:
  "mirror_node pre obj ks q = Some (File c) \<Longrightarrow> \<exists>k \<in> set ks. file_key pre k \<and> key_parts pre k = q \<and> c = obj k"
  by (auto simp: mirror_node_def find_Some_iff split: option.splits if_splits intro!: bexI nth_mem)

lemma mirror_node_dir:
  "mirror_node pre obj ks q = Some Dir \<Longrightarrow> \<exists>k \<in> set ks. file_key pre k \<and> strict_prefix q (key_parts pre k)"
  by (auto simp: mirror_node_def list_ex_iff split: option.splits if_splits)

lemma regular_layoutD:
  assumes "regular_layout pre keys" "k \<in> set keys" "file_key pre k"
  shows "list_all clean_name (key_parts pre k)" "CHR 0x00 \<notin> set (drop (length pre) k)"
    "\<And>k'. k' \<in> set keys \<Longrightarrow> file_key pre k' \<Longrightarrow> prefix (key_parts pre k) (key_parts pre k') \<Longrightarrow> k' = k"
  using assms by (auto simp: regular_layout_def list_all_iff)

lemma regular_key_path:
  assumes "regular_layout pre keys" "k \<in> set keys" "file_key pre k"
  shows "resolve_under tmp (drop (length pre) k) = Inr (tmp @ key_parts pre k)"
    and "key_parts pre k \<noteq> []"
proof -
  note r = regular_layoutD [OF assms]
  have "\<not> startswith (drop (length pre) k) ''/''"
  proof
    assume "startswith (drop (length pre) k) ''/''"
    then obtain t where "drop (length pre) k = CHR ''/'' # t" by (auto simp: startswith_iff)
    with r(1) show False by (simp add: key_parts_def clean_name_def)
  qed
  with r show "resolve_under tmp (drop (length pre) k) = Inr (tmp @ key_parts pre k)"
    by (simp add: resolve_under_def resolve_parts_clean key_parts_def)
  show "key_parts pre k \<noteq> []" by (simp add: key_parts_def)
qed

text \<open>One more file, when the layout stays regular.\<close>

lemma mirror_node_add:
  assumes reg: "regular_layout pre keys" and ks: "set ks \<subseteq> set keys" and k: "k \<in> set keys" "file_key pre k"
  shows "mirror_node pre obj (ks @ [k]) q =
    (if q = key_parts pre k then Some (File (obj k))
     else if mirror_node pre obj ks q = None \<and> strict_prefix q (key_parts pre k) then Some Dir
     else mirror_node pre obj ks q)"
proof -
  have same: "k' = k" if "k' \<in> set ks" "file_key pre k'" "key_parts pre k' = key_parts pre k" for k'
    using regular_layoutD(3) [OF reg k, of k'] that ks by auto
  show ?thesis
  proof (cases "find (\<lambda>k'. file_key pre k' \<and> key_parts pre k' = q) ks")
    case None
    then show ?thesis using k by (auto simp: mirror_node_def find_append)
  next
    case (Some k')
    then have k': "k' \<in> set ks" "file_key pre k'" "key_parts pre k' = q"
      by (auto simp: find_Some_iff)
    then show ?thesis using Some same by (auto simp: mirror_node_def find_append)
  qed
qed

section \<open>The download loop\<close>

definition mirrors :: "string \<Rightarrow> (string \<Rightarrow> bytes) \<Rightarrow> string list \<Rightarrow> path \<Rightarrow> fs \<Rightarrow> bool" where
  "mirrors pre obj keys root d \<longleftrightarrow>
     (\<forall>p. prefix p root \<longrightarrow> is_dir d p) \<and>
     (\<forall>q. q \<noteq> [] \<longrightarrow> node_at d (root @ q) = mirror_node pre obj keys q)"

text \<open>A further key can be written: no file is on its path, no directory in its place.\<close>

lemma way_is_free:
  assumes reg: "regular_layout pre keys" and ks: "set ks \<subseteq> set keys" and k: "k \<in> set keys" "file_key pre k"
    and inv: "mirrors pre obj ks tmp d"
  shows "prefix p (tmp @ butlast (key_parts pre k)) \<Longrightarrow> \<not> is_file d p" and "\<not> is_dir d (tmp @ key_parts pre k)"
proof -
  let ?kp = "key_parts pre k"
  note r = regular_layoutD [OF reg k] and ne = regular_key_path(2) [OF reg k]
  have below: "node_at d (tmp @ q) = mirror_node pre obj ks q" if "q \<noteq> []" for q
    using inv that by (simp add: mirrors_def)
  have "mirror_node pre obj ks ?kp \<noteq> Some Dir"
    using mirror_node_dir r(3) ks by (metis prefix_order.less_imp_le prefix_order.less_irrefl subsetD)
  then show "\<not> is_dir d (tmp @ ?kp)" using below [OF ne] by (simp add: is_dir_def)
  show "\<not> is_file d p" if p: "prefix p (tmp @ butlast ?kp)"
  proof (cases "prefix p tmp")
    case True
    then show ?thesis using inv is_file_not_dir by (auto simp: mirrors_def)
  next
    case False
    with p obtain q where q: "p = tmp @ q" "q \<noteq> []" "prefix q (butlast ?kp)" by (auto simp: prefix_append)
    then have "strict_prefix q ?kp" by (simp add: prefix_butlast_iff [OF ne])
    then have "mirror_node pre obj ks q \<noteq> Some (File c)" for c
      using mirror_node_file regular_layoutD(3) [OF reg _ _ k(1,2)] ks
      by (metis prefix_order.less_imp_le prefix_order.less_irrefl subsetD)
    with below q show ?thesis by (auto simp: is_file_iff)
  qed
qed

lemma key_can_be_written:
  assumes reg: "regular_layout pre keys" and ks: "set ks \<subseteq> set keys" and k: "k \<in> set keys" "file_key pre k"
    and inv: "mirrors pre obj ks tmp d"
  defines "target \<equiv> tmp @ key_parts pre k"
  obtains d1 d2 where "mkdir_parents (butlast target) d = Inr d1" "write_bytes target (obj k) d1 = Inr d2"
    "\<And>p. node_at d2 p = (if p = target then Some (File (obj k)) else
       if node_at d p = None \<and> prefix p (tmp @ butlast (key_parts pre k)) then Some Dir else node_at d p)"
proof -
  note ne = regular_key_path(2) [OF reg k] and free = way_is_free [OF reg ks k inv]
  have bl: "butlast target = tmp @ butlast (key_parts pre k)" using ne by (simp add: target_def butlast_append)
  obtain d1 where d1: "mkdir_parents (butlast target) d = Inr d1"
    using free(1) by (auto simp: mkdir_parents_def bl list_ex_iff)
  note n1 = node_at_mkdir_parents [OF d1, unfolded bl]
  have "\<not> is_dir d1 target" using free(2) ne
    by (auto simp: is_dir_def n1 target_def prefix_butlast_iff [OF ne] split: if_splits)
  then obtain d2 where d2: "write_bytes target (obj k) d1 = Inr d2" "d2 = dict_set d1 target (File (obj k))"
    using is_dir_mkdir_parents [OF d1] by (auto simp: write_bytes_def)
  have "node_at d2 p = (if p = target then Some (File (obj k)) else
      if node_at d p = None \<and> prefix p (tmp @ butlast (key_parts pre k)) then Some Dir else node_at d p)" for p
    using ne by (auto simp: d2(2) node_at_dict_set n1 target_def)
  with d1 d2(1) that show ?thesis by blast
qed

lemma mirrors_step:
  assumes reg: "regular_layout pre keys" and ks: "set ks \<subseteq> set keys" and k: "k \<in> set keys" "file_key pre k"
    and inv: "mirrors pre obj ks tmp d"
  defines "target \<equiv> tmp @ key_parts pre k"
  obtains d1 d2 where "mkdir_parents (butlast target) d = Inr d1" "write_bytes target (obj k) d1 = Inr d2"
    "mirrors pre obj (ks @ [k]) tmp d2"
proof -
  let ?kp = "key_parts pre k"
  note ne = regular_key_path(2) [OF reg k]
  obtain d1 d2 where d: "mkdir_parents (butlast target) d = Inr d1" "write_bytes target (obj k) d1 = Inr d2"
    and n2: "\<And>p. node_at d2 p = (if p = target then Some (File (obj k)) else
       if node_at d p = None \<and> prefix p (tmp @ butlast ?kp) then Some Dir else node_at d p)"
    using key_can_be_written [OF reg ks k inv] unfolding target_def by blast
  have "mirrors pre obj (ks @ [k]) tmp d2"
    unfolding mirrors_def
  proof (intro conjI allI impI)
    fix p assume p: "prefix p tmp"
    then have "p \<noteq> target" using ne unfolding target_def
      by (metis append_is_Nil_conv append_Nil2 prefix_order.antisym prefixI same_append_eq)
    then show "is_dir d2 p" using inv p by (simp add: is_dir_def n2 mirrors_def)
  next
    fix q :: path assume q: "q \<noteq> []"
    have "node_at d (tmp @ q) = mirror_node pre obj ks q" using inv q by (simp add: mirrors_def)
    then show "node_at d2 (tmp @ q) = mirror_node pre obj (ks @ [k]) q"
      by (auto simp: n2 prefix_butlast_iff [OF ne] mirror_node_add [OF reg ks k] target_def)
  qed
  with d that show ?thesis by blast
qed

lemma download_keys_mirror:
  assumes q: "quiet E" and get: "\<And>tr k. k \<in> set keys \<Longrightarrow> env_get E tr (ts_bucket S) k = Inr (obj k)"
    and reg: "regular_layout pre keys"
  shows "set ks \<subseteq> set keys \<Longrightarrow> set dn \<subseteq> set keys \<Longrightarrow> mirrors pre obj dn tmp (disk w) \<Longrightarrow>
    \<exists>w'. download_keys E S pre tmp ks w = (Inr (), w') \<and> mirrors pre obj (dn @ ks) tmp (disk w')"
proof (induction ks arbitrary: dn w)
  case (Cons k ks)
  show ?case
  proof (cases "file_key pre k")
    case False
    then have "mirrors pre obj (dn @ [k]) tmp (disk w)" "download_keys E S pre tmp (k # ks) w = download_keys E S pre tmp ks w"
      using Cons.prems(3) by (auto simp: mirrors_def mirror_node_skip file_key_def)
    with Cons.IH [of "dn @ [k]" w] Cons.prems show ?thesis by simp
  next
    case True
    have k: "k \<in> set keys" using Cons.prems by simp
    from mirrors_step [OF reg Cons.prems(2) k True Cons.prems(3)] obtain d1 d2 where
      d: "mkdir_parents (butlast (tmp @ key_parts pre k)) (disk w) = Inr d1"
        "write_bytes (tmp @ key_parts pre k) (obj k) d1 = Inr d2" and m: "mirrors pre obj (dn @ [k]) tmp d2" .
    note path = regular_key_path(1) [OF reg k True, of tmp] regular_key_path(2) [OF reg k True]
    let ?w = "\<lparr>trace = trace w @ [EvGet (ts_bucket S) k True], disk = d2\<rparr>"
    have "download_keys E S pre tmp (k # ks) w = download_keys E S pre tmp ks ?w"
      using True path d get [OF k] q
      by (simp add: file_key_def io_simps disk_op_def get_bytes_def in_parents_def strict_prefix_def)
    with Cons.IH [of "dn @ [k]" ?w] Cons.prems m k show ?thesis by simp
  qed
qed simp

section \<open>The whole fetch\<close>

text \<open>Nothing in the way: no file on the path to the cache or to the template's directory, which
  itself is not there, and a scratch name that is new.\<close>

definition room_for :: "env \<Rightarrow> path \<Rightarrow> path \<Rightarrow> fs \<Rightarrow> bool" where
  "room_for E cache dir d \<longleftrightarrow>
     strict_prefix cache dir \<and> \<not> list_ex (is_file d) (prefixes cache @ prefixes (butlast dir)) \<and> \<not> path_exists d dir \<and>
     (\<forall>tr. \<not> path_exists d (cache @ [env_tmp_name E tr]) \<and> \<not> prefix (cache @ [env_tmp_name E tr]) dir)"

lemma mkdir_parents_ok: "\<not> list_ex (is_file d) (prefixes p) \<Longrightarrow> \<exists>d'. mkdir_parents p d = Inr d'"
  by (simp add: mkdir_parents_def)

lemma manifest_mirrored:
  assumes reg: "regular_layout pre keys" and k: "pre @ manifest_name \<in> set keys"
  shows "mirror_node pre obj keys [manifest_name] = Some (File (obj (pre @ manifest_name)))"
proof -
  let ?k = "pre @ manifest_name"
  have fk: "file_key pre ?k" "key_parts pre ?k = [manifest_name]"
    by (auto simp: file_key_def key_parts_def manifest_name_def endswith_char_def)
  have "k' = ?k" if "k' \<in> set keys" "file_key pre k'" "key_parts pre k' = [manifest_name]" for k'
    using regular_layoutD(3) [OF reg k fk(1), of k'] that fk(2) by simp
  moreover obtain k' where f: "find (\<lambda>k. file_key pre k \<and> key_parts pre k = [manifest_name]) keys = Some k'"
    using k fk by (cases "find (\<lambda>k. file_key pre k \<and> key_parts pre k = [manifest_name]) keys")
      (auto simp: find_None_iff)
  moreover have "k' \<in> set keys \<and> file_key pre k' \<and> key_parts pre k' = [manifest_name]"
    using f by (auto simp: find_Some_iff)
  ultimately show ?thesis by (auto simp: mirror_node_def)
qed

text \<open>The scratch directory is filled, then it becomes the template's directory.\<close>

lemma publish_mirror:
  assumes q: "quiet E" and m: "mirrors pre obj keys tmp (disk w)" and wf: "wf_fs (disk w)"
    and tmp: "tmp \<noteq> []" "\<not> prefix tmp dir"
    and dir: "\<not> path_exists (disk w) dir" "\<not> list_ex (is_file (disk w)) (prefixes (butlast dir))"
  shows "\<exists>d. publish E tmp dir w = (Inr (), w\<lparr>disk := d\<rparr>) \<and>
    (\<forall>p. p \<noteq> [] \<longrightarrow> node_at d (dir @ p) = mirror_node pre obj keys p)"
proof -
  have ne: "dir \<noteq> []" using dir by (auto simp: path_exists_def)
  from mkdir_parents_ok [OF dir(2)] obtain d1 where d1: "mkdir_parents (butlast dir) (disk w) = Inr d1" ..
  note n1 = node_at_mkdir_parents [OF d1]
  have wf1: "wf_fs d1" by (rule wf_fs_mkdir_parents [OF wf d1])
  have tmp_dir: "is_dir d1 tmp" using m by (simp add: mirrors_def is_dir_def n1)
  have dir1: "node_at d1 dir = None" using dir ne by (simp add: n1 path_exists_def prefix_butlast_iff)
  have par: "is_dir d1 (butlast dir)"
    by (rule is_dir_mkdir_parents [OF d1])
  have "p \<notin> fst ` set d1" if "strict_prefix dir p" for p
  proof -
    have "node_at d1 p = None" "p \<noteq> []"
      using wf_fs_below_missing [OF wf1, of dir p] dir1 that by (auto simp: path_exists_def)
    then show ?thesis by (simp add: node_at_def map_of_eq_None_iff)
  qed
  then have none: "\<not> list_ex (\<lambda>e. strict_prefix dir (fst e)) d1"
    unfolding list_ex_iff by blast
  have "tmp \<noteq> dir" using tmp by auto
  then obtain d2 where d2: "replace_dir tmp dir d1 = Inr d2"
    using tmp tmp_dir par dir1 ne none by (simp add: replace_dir_def is_file_def)
  have "node_at d2 (dir @ p) = mirror_node pre obj keys p" if "p \<noteq> []" for p
  proof -
    have "node_at d2 (dir @ p) = node_at d1 (tmp @ p)"
      by (simp add: node_at_replace_dir [OF d2 \<open>tmp \<noteq> dir\<close>])
    moreover have "\<not> prefix (tmp @ p) (butlast dir)"
      using tmp(2) by (metis prefix_order.trans prefixI prefixeq_butlast)
    ultimately show ?thesis using m that by (simp add: mirrors_def n1)
  qed
  then show ?thesis using q dir d1 d2
    by (auto simp: publish_def io_simps disk_op_def disk_read_def)
qed

definition keeps_wf :: "world \<Rightarrow> world \<Rightarrow> bool" where
  "keeps_wf w w' \<longleftrightarrow> (wf_fs (disk w) \<longrightarrow> wf_fs (disk w'))"

lemma keeps_wf_order [simp, preserves_intros]: "reflp keeps_wf" "transp keeps_wf"
  by (auto simp: keeps_wf_def reflp_def transp_def)

lemma keeps_wf_disk_op [preserves_intros]:
  "preserves keeps_wf (disk_op (mkdir_parents p))" "preserves keeps_wf (disk_op (write_bytes p c))"
  by (auto simp: preserves_def disk_op_def keeps_wf_def split: sum.splits
      intro: wf_fs_mkdir_parents wf_fs_write_bytes)

lemma keeps_wf_get_bytes: "quiet E \<Longrightarrow> preserves keeps_wf (get_bytes E b k)"
  by (auto simp: preserves_def get_bytes_def io_simps keeps_wf_def split: sum.splits)

lemma keeps_wf_download_keys: "quiet E \<Longrightarrow> preserves keeps_wf (download_keys E S pre tmp keys)"
proof (induction keys)
  case (Cons key keys)
  then show ?case
    by (auto simp: Let_def intro!: preserves_intros keeps_wf_get_bytes split: exn.splits)
qed (simp add: preserves_intros del: ret_run)

lemma mirrors_new_dir:
  assumes "wf_fs d" "mkdir_new tmp d = Inr d'"
  shows "mirrors pre obj [] tmp d'"
proof -
  have new: "\<not> path_exists d tmp" and par: "is_dir d (butlast tmp)" and d': "d' = dict_set d tmp Dir"
    using assms(2) by (auto simp: mkdir_new_def split: if_splits)
  have "is_dir d' p" if "prefix p tmp" for p
  proof (cases "p = tmp")
    case False
    with that have "prefix p (butlast tmp)" by (metis prefix_butlast_iff prefix_Nil prefix_order.less_le)
    then have "is_dir d p"
      using par wf_fs_ancestor [OF assms(1)] by (auto simp: prefix_def is_dir_def) (metis append_Nil2 option.distinct(1))
    then show ?thesis by (auto simp: is_dir_def d' node_at_dict_set)
  qed (simp add: is_dir_def d' node_at_dict_set)
  moreover have "node_at d' (tmp @ q) = None" if "q \<noteq> []" for q
    using wf_fs_below_missing [OF assms(1) new, of "tmp @ q"] that
    by (simp add: d' node_at_dict_set)
  ultimately show ?thesis by (simp add: mirrors_def mirror_node_def)
qed

lemma posix_name_below: "CHR ''/'' \<notin> set n \<Longrightarrow> n \<noteq> [] \<Longrightarrow> n \<noteq> ''.'' \<Longrightarrow> posix_name (p @ ''/'' @ n) = n"
  using split_char_append_sep [of "CHR ''/''" p n]
  by (cases "filter (\<lambda>c. c \<noteq> [] \<and> c \<noteq> ''.'') (split_char CHR ''/'' p)")
    (simp_all add: posix_name_def split_char_no_sep)

text \<open>The scratch directory can be made, filling it changes nothing outside, and it is not the template's.\<close>

lemma scratch_opens:
  assumes "mkdir_parents cache d = Inr d0" "\<not> path_exists d (cache @ [name])"
  shows "mkdir_new (cache @ [name]) d0 = Inr (dict_set d0 (cache @ [name]) Dir)"
proof -
  have "\<not> prefix (cache @ [name]) cache" by (simp add: prefix_def)
  then have "\<not> path_exists d0 (cache @ [name])"
    using assms by (simp add: path_exists_def node_at_mkdir_parents [OF assms(1)])
  then show ?thesis using is_dir_mkdir_parents [OF assms(1)] by (simp add: mkdir_new_def)
qed

lemma filling_leaves_the_rest:
  assumes q: "quiet E" and wf: "wf_fs d0" and new: "mkdir_new tmp d0 = Inr (disk w)"
    and dl: "download_keys E S pre tmp keys w = (r, w')" and p: "\<not> prefix tmp p"
  shows "node_at (disk w') p = node_at d0 p"
proof -
  have d1: "disk w = dict_set d0 tmp Dir" using new by (auto simp: mkdir_new_def split: if_splits)
  have "confined tmp (disk w) (disk w')"
    using preservesD [OF confined_download_keys [OF quiet_confined [OF q] prefix_order.order_refl] dl]
    by (simp add: disk_confined_def)
  moreover have "is_dir (disk w) p" if "strict_prefix p tmp"
    using mirrors_new_dir [OF wf new] prefix_order.less_imp_le [OF that] unfolding mirrors_def by blast
  ultimately have "node_at (disk w') p = node_at (disk w) p"
    using p by (auto simp: confined_def is_dir_def)
  also have "\<dots> = node_at d0 p" using p by (auto simp: d1 node_at_dict_set)
  finally show ?thesis .
qed

lemma scratch_is_apart:
  assumes "strict_prefix cache dir" "\<not> prefix (cache @ [name]) dir"
  shows "\<not> prefix (cache @ [name]) (dir @ p)"
proof
  assume "prefix (cache @ [name]) (dir @ p)"
  then have "prefix dir (cache @ [name])" using assms(2) by (metis prefixI prefix_same_cases)
  then obtain z where z: "cache @ [name] = dir @ z" by (auto elim: prefixE)
  have "length (cache @ [name]) \<le> length dir" using prefix_length_less [OF assms(1)] by simp
  then have "z = []" using arg_cong [OF z, of length] by simp
  then show False using assms(2) z by simp
qed

lemma download_prefix_mirror:
  assumes q: "quiet E" and wf: "wf_fs (disk w)" and served: "serves E (ts_bucket S) pre pages obj"
    and pre: "pre = base @ ''/''"
    and reg: "regular_layout pre (concat pages)" and man: "pre @ manifest_name \<in> set (concat pages)"
    and room: "room_for E (ts_cache_dir S) dir (disk w)"
  shows "\<exists>w'. download_prefix E S pre dir w = (Inr (), w') \<and>
    (\<forall>p. p \<noteq> [] \<longrightarrow> node_at (disk w') (dir @ p) = mirror_node pre obj (concat pages) p)"
proof -
  let ?keys = "concat pages" and ?cache = "ts_cache_dir S"
  let ?w0 = "w\<lparr>trace := trace w @ [EvList (ts_bucket S) pre True]\<rparr>"
  let ?tmp = "?cache @ [env_tmp_name E (trace ?w0)]"
  have ls: "list_prefix E (ts_bucket S) pre w = (Inr ?keys, ?w0)"
    using served q by (simp add: list_prefix_def io_simps serves_def)
  have "posix_name (pre @ manifest_name) = manifest_name"
    using posix_name_below [of manifest_name base] by (simp add: pre manifest_name_def)
  then have man': "list_ex (\<lambda>k. posix_name k = manifest_name) ?keys" using man by (auto simp: list_ex_iff)
  from room have sub: "strict_prefix ?cache dir" and files: "\<not> list_ex (is_file (disk w)) (prefixes ?cache)"
      "\<not> list_ex (is_file (disk w)) (prefixes (butlast dir))" and dir: "\<not> path_exists (disk w) dir"
    and tmp: "\<not> path_exists (disk w) ?tmp" "\<not> prefix ?tmp dir"
    by (auto simp: room_for_def)
  from mkdir_parents_ok [OF files(1)] obtain d0 where d0: "mkdir_parents ?cache (disk w) = Inr d0" ..
  note n0 = node_at_mkdir_parents [OF d0] and wf0 = wf_fs_mkdir_parents [OF wf d0]
  define d1 where "d1 = dict_set d0 ?tmp Dir"
  have d1: "mkdir_new ?tmp d0 = Inr d1" unfolding d1_def by (rule scratch_opens [OF d0 tmp(1)])
  let ?w1 = "?w0\<lparr>disk := d1\<rparr>"
  have mk: "mkdtemp E ?cache (?w0\<lparr>disk := d0\<rparr>) = (Inr ?tmp, ?w1)"
    using d1 by (simp add: mkdtemp_def io_simps disk_op_def)
  have get: "env_get E tr (ts_bucket S) k = Inr (obj k)" if "k \<in> set ?keys" for tr k
    using served that by (simp add: serves_def)
  from download_keys_mirror [where dn = "[]" and ks = ?keys and w = ?w1 and tmp = ?tmp, OF q get reg] mirrors_new_dir [OF wf0 d1]
  obtain w2 where dl: "download_keys E S pre ?tmp ?keys ?w1 = (Inr (), w2)"
    and m2: "mirrors pre obj ?keys ?tmp (disk w2)" by auto
  have wf2: "wf_fs (disk w2)"
    using preservesD [OF keeps_wf_download_keys [OF q] dl] wf_fs_mkdir_new [OF wf0 d1]
    by (simp add: keeps_wf_def)
  have same: "node_at (disk w2) p = node_at d0 p" if "\<not> prefix ?tmp p" for p
    by (rule filling_leaves_the_rest [OF q wf0 _ dl that]) (use d1 in simp)
  have "\<exists>d. publish E ?tmp dir w2 = (Inr (), w2\<lparr>disk := d\<rparr>) \<and>
    (\<forall>p. p \<noteq> [] \<longrightarrow> node_at d (dir @ p) = mirror_node pre obj ?keys p)"
  proof (rule publish_mirror [OF q m2 wf2 _ tmp(2)])
    show "\<not> path_exists (disk w2) dir"
      using dir sub same [OF tmp(2)] by (auto simp: path_exists_def n0 strict_prefix_def)
    show "\<not> list_ex (is_file (disk w2)) (prefixes (butlast dir))"
    proof -
      have "\<not> is_file (disk w2) p" if "prefix p (butlast dir)" for p
      proof -
        have "\<not> prefix ?tmp p" using tmp(2) that prefix_order.trans prefixeq_butlast by blast
        then show ?thesis using files(2) that by (auto simp: list_ex_iff is_file_iff same n0)
      qed
      then show ?thesis by (simp add: list_ex_iff)
    qed
  qed simp
  then obtain d where pub: "publish E ?tmp dir w2 = (Inr (), w2\<lparr>disk := d\<rparr>)"
    and md: "\<And>p. p \<noteq> [] \<Longrightarrow> node_at d (dir @ p) = mirror_node pre obj ?keys p" by blast
  have "\<not> prefix ?tmp (dir @ p)" for p by (rule scratch_is_apart [OF sub tmp(2)])
  then have "node_at (remove_tree ?tmp d) (dir @ p) = mirror_node pre obj ?keys p" if "p \<noteq> []" for p
    using md [OF that] that by (simp add: node_at_remove_tree)
  then show ?thesis
    using ls man' d0 mk dl pub by (simp add: download_prefix_def io_simps disk_op_def)
qed

text \<open>The fetch of a template that is not in the cache, when all goes well.\<close>

lemma fetch_mirror:
  assumes q: "quiet E" and wf: "wf_fs (disk w)" and served: "serves E (ts_bucket S) pre pages obj"
    and uri: "parse_s3_uri uri = Inr (ts_bucket S, pre)" "pre \<noteq> []" "local_dir_for S pre = Inr dir"
    and reg: "regular_layout pre (concat pages)" and man: "pre @ manifest_name \<in> set (concat pages)"
    and room: "room_for E (ts_cache_dir S) dir (disk w)"
    and valid: "model_validate_json pd ''Manifest'' (decode_manifest pd) (obj (pre @ manifest_name)) = Inr m"
  shows "\<exists>w'. fetch E pd S uri w = (Inr \<lparr>bun_manifest = m, bun_root = dir\<rparr>, w') \<and>
    (\<forall>p. p \<noteq> [] \<longrightarrow> node_at (disk w') (dir @ p) = mirror_node pre obj (concat pages) p)"
proof -
  from parse_s3_uri_shape [OF uri(1)] uri(2) obtain base where pre: "pre = base @ ''/''" by blast
  from download_prefix_mirror [OF q wf served pre reg man room] obtain w' where
    dl: "download_prefix E S pre dir w = (Inr (), w')"
    and mir: "\<And>p. p \<noteq> [] \<Longrightarrow> node_at (disk w') (dir @ p) = mirror_node pre obj (concat pages) p"
    by blast
  have "\<not> path_exists (disk w) dir" using room by (simp add: room_for_def)
  then have "\<not> is_file (disk w) (dir @ [manifest_name])"
    using wf_fs_below_missing [OF wf, of dir "dir @ [manifest_name]"] by (simp add: is_file_iff)
  moreover have "load_manifest pd (dir @ [manifest_name]) uri w' = (Inr m, w')"
    using mir [of "[manifest_name]"] manifest_mirrored [OF reg man, of obj] valid
    by (simp add: load_manifest_def io_simps disk_read_def read_bytes_def)
  ultimately show ?thesis using dl mir uri by (auto simp: fetch_def io_simps disk_read_def)
qed

end
