(* ===== verification/LiveWorker.thy ===== *)
theory LiveWorker
  imports Delivery TemplateMirror
begin

text \<open>
  The dispatcher on the deployed adapters (\<open>worker/main.py\<close>, \<open>_build_deps\<close>), one delivery after
  another: what an acknowledged success has left in the bucket, and that a request is
  acknowledged within the bound on its deliveries.
\<close>

section \<open>The deployed dependencies\<close>

definition build_deps ::
  "env \<Rightarrow> pydantic \<Rightarrow> jsonschema \<Rightarrow> libs \<Rightarrow> (bytes \<Rightarrow> string) \<Rightarrow> settings \<Rightarrow> string \<Rightarrow> int \<Rightarrow> int \<Rightarrow>
   (event list \<Rightarrow> string) \<Rightarrow> renderer handler_deps" where
  "build_deps E pd js L sha cfg dlq max_deliver nak_delay clock =
     \<lparr>dep_ports = live_ports E pd js L sha cfg,
      dep_publish_result = publish_result E pd,
      dep_publish_dlq = publish_dlq E dlq,
      dep_max_deliver = max_deliver,
      dep_nak_delay = nak_delay,
      dep_clock = clock\<rparr>"

lemma put_artifact_adds:
  "(\<And>ok. P (EvPut bucket k c (Some t) ok)) \<Longrightarrow> (\<And>ok. P (EvPut bucket k c None ok)) \<Longrightarrow>
   (\<And>ttl ok. P (EvPresign bucket k ttl ok)) \<Longrightarrow> preserves (adds P) (put_artifact E sha bucket k c t ttl)"
  unfolding put_artifact_def put_bytes_def
  by (auto simp: Let_def intro!: preserves_intros split: option.splits)

lemma live_pipeline_adds:
  "preserves (adds (\<lambda>ev. \<not> is_broker ev)) (process_request (live_ports E pd js L sha cfg) req g)"
proof (rule preserves_process_request)
  show "preserves (adds (\<lambda>ev. \<not> is_broker ev)) (p_fetch (live_ports E pd js L sha cfg) uri)" for uri
    unfolding live_ports_def
    by (simp, rule preserves_adds_mono [OF fetch_reads]) (auto simp: reads_bucket_def is_broker_def split: event.splits)
  show "preserves (adds (\<lambda>ev. \<not> is_broker ev)) (p_run (live_ports E pd js L sha cfg) r b d f l)" for r b d f l
    by (simp add: live_ports_def run_in_pool_adds is_broker_def)
  show "preserves (adds (\<lambda>ev. \<not> is_broker ev)) (p_put (live_ports E pd js L sha cfg) k c t ttl)" for k c t ttl
    by (simp add: live_ports_def put_artifact_adds is_broker_def)
qed simp_all

interpretation live_delivery: delivery "build_deps E pd js L sha cfg dlq max_deliver nak_delay clock"
    "to_json_bytes pd" dlq for E pd js L sha cfg dlq max_deliver nak_delay clock
proof
  fix subject r w x w'
  assume "dep_publish_result (build_deps E pd js L sha cfg dlq max_deliver nak_delay clock) subject r w = (x, w')"
  then show "trace w' = trace w @ [EvPublish subject (to_json_bytes pd r) (result_headers r) (is_ok x)]"
    by (simp add: build_deps_def nats.pub_result_trace)
next
  fix payload hdrs w x w'
  assume "dep_publish_dlq (build_deps E pd js L sha cfg dlq max_deliver nak_delay clock) payload hdrs w = (x, w')"
  then show "trace w' = trace w @ [EvPublish dlq payload hdrs (is_ok x)]"
    by (simp add: build_deps_def nats.pub_dlq_trace)
next
  fix req g w x w'
  assume "process_request (dep_ports (build_deps E pd js L sha cfg dlq max_deliver nak_delay clock)) req g w = (x, w')"
  then show "adds (\<lambda>ev. \<not> is_broker ev) w w'"
    using preservesD [OF live_pipeline_adds] by (simp add: build_deps_def)
qed

lemma build_result_success:
  assumes "build_result (build_deps E pd js L sha cfg dlq maxd delay clock) req w = (Inr r, w')" "res_status r = SUCCESS"
  shows "process_request (live_ports E pd js L sha cfg) req (clock (trace w)) w = (Inr r, w')"
  using assms by (auto simp: build_deps_def build_result_def io_simps result_defs split: prod.splits sum.splits if_splits)

section \<open>From one delivery to the next\<close>

text \<open>
  The broker delivers a message with delivery count \<open>k\<close>; unless an acknowledgement reaches it,
  it delivers the message again with the next count, \<open>fuel\<close> times at most (the consumer's
  server-side bound). The result is the count at which the message was acknowledged.
\<close>

definition new_events :: "world \<Rightarrow> world \<Rightarrow> event list" where
  "new_events w w' = drop (length (trace w)) (trace w')"

definition delivered :: "bytes \<Rightarrow> int \<Rightarrow> msg" where
  "delivered data k = \<lparr>msg_data = data, msg_delivery = Some k\<rparr>"

fun redeliver ::
  "env \<Rightarrow> pydantic \<Rightarrow> 'r handler_deps \<Rightarrow> bytes \<Rightarrow> nat \<Rightarrow> int \<Rightarrow> world \<Rightarrow> int option \<times> world" where
  "redeliver E pd D data 0 k w = (None, w)"
| "redeliver E pd D data (Suc fuel) k w =
     (let w' = snd (handle_message E pd D (delivered data k) w)
      in if EvAck True \<in> set (new_events w w') then (Some k, w')
         else redeliver E pd D data fuel (k + 1) w')"

lemma new_broker_events:
  assumes "broker w' = broker w @ evs" "adds Q w w'"
  shows "filter is_broker (new_events w w') = evs"
  using assms by (auto simp: broker_def new_events_def adds_def)

lemma ack_is_broker: "EvAck ok \<in> set evs \<longleftrightarrow> EvAck ok \<in> set (filter is_broker evs)"
  by simp

text \<open>No delivery of this run is cancelled.\<close>

fun uncut :: "env \<Rightarrow> pydantic \<Rightarrow> 'r handler_deps \<Rightarrow> bytes \<Rightarrow> nat \<Rightarrow> int \<Rightarrow> world \<Rightarrow> bool" where
  "uncut E pd D data 0 k w = True"
| "uncut E pd D data (Suc fuel) k w =
     (let (x, w') = handle_message E pd D (delivered data k) w
      in is_ok x \<and> (EvAck True \<in> set (new_events w w') \<or> uncut E pd D data fuel (k + 1) w'))"

context delivery
begin

lemma emit_phase_adds:
  assumes Q: "\<And>s p h ok. Q (EvPublish s p h ok)" "\<And>d ok. Q (EvNak d ok)" "preserves (adds Q) (msg_ack E)"
    "\<And>s. Q (EvMessageMetric s)" "\<And>s. Q (EvDocumentMetric s)"
  shows "preserves (adds Q) (emit_failed E D m req)" "preserves (adds Q) (emit_and_count E D m req r)"
    "preserves (adds Q) (drop_undecodable E D m)"
proof -
  have pub: "preserves (adds Q) (dep_publish_result D s r)" "preserves (adds Q) (dep_publish_dlq D p h)" for s r p h
    using pub_result_trace pub_dlq_trace Q(1) by (auto simp: preserves_def adds_def)
  have nak: "preserves (adds Q) (msg_nak E d)" for d
    by (auto simp: msg_nak_def Q intro!: preserves_intros)
  have count: "preserves (adds Q) (count_documents as)" for as
    using Q(5) by (auto simp: preserves_def count_documents_run adds_def list_all_iff)
  note rules = pub nak count Q(3) preserves_intros
  show "preserves (adds Q) (emit_failed E D m req)" "preserves (adds Q) (emit_and_count E D m req r)"
    "preserves (adds Q) (drop_undecodable E D m)"
    unfolding emit_and_count_def emit_failed_def emit_def handle_emit_failure_def drop_undecodable_def
    by (auto intro!: rules simp: Q)
qed

text \<open>What every event after the result is, the handling adds only.\<close>

lemma handle_request_adds:
  assumes Q: "\<And>s p h ok. Q (EvPublish s p h ok)" "\<And>d ok. Q (EvNak d ok)" "preserves (adds Q) (msg_ack E)"
    "\<And>s. Q (EvMessageMetric s)" "\<And>s. Q (EvDocumentMetric s)" "\<And>s. Q (EvDurationMetric s)"
  shows "handle_request E D m req w = (x, w') \<Longrightarrow> \<exists>y w1. build_result D req w = (y, w1) \<and> adds Q w1 w'"
proof -
  assume run: "handle_request E D m req w = (x, w')"
  obtain y w1 where y: "build_result D req w = (y, w1)" by (cases "build_result D req w")
  have ev: "preserves (adds Q) (emit_event (EvDurationMetric s))" for s
    by (auto simp: Q intro!: preserves_intros)
  note phase = emit_phase_adds [of Q, OF Q(1-5)]
  have "adds Q w1 w'"
  proof (cases y)
    case (Inl e)
    have "preserves (adds Q) (try_finally (if is_Exception e then emit_failed E D m req else raise e)
        (emit_event (EvDurationMetric ''unknown'')))"
      by (auto intro!: preserves_intros ev phase)
    with run y Inl show ?thesis by (auto simp: handle_request_def preserves_def)
  next
    case (Inr r)
    have "preserves (adds Q) (try_finally (try_except (emit_and_count E D m req r) is_Exception (\<lambda>_. emit_failed E D m req))
        (emit_event (EvDurationMetric (status_value (res_status r)))))"
      by (auto intro!: preserves_intros ev phase)
    with run y Inr show ?thesis by (auto simp: handle_request_def preserves_def)
  qed
  with y show ?thesis by blast
qed

lemma msg_ack_adds: "(\<And>ok. Q (EvAck ok)) \<Longrightarrow> preserves (adds Q) (msg_ack E)"
  by (auto simp: msg_ack_def intro!: preserves_intros)

lemma msg_ack_succeeds: "(\<And>tr. env_ack E tr = Inr ()) \<Longrightarrow> preserves (adds (\<lambda>ev. ev \<noteq> EvAck False)) (msg_ack E)"
  by (auto simp: msg_ack_def preserves_def io_simps adds_def)

lemma handle_request_writes:
  assumes "build_result D req w = (Inr r, w1)" "handle_request E D m req w = (x, w')"
  shows "bucket_writes b w' = bucket_writes b w1"
proof -
  have "preserves (adds no_put) (msg_ack E)" by (rule msg_ack_adds) (simp add: no_put_def)
  then have "adds no_put w1 w'"
    using handle_request_adds [of no_put, OF _ _ _ _ _ _ assms(2)] assms(1) by (auto simp: no_put_def)
  then show ?thesis by (rule adds_no_put)
qed

lemma build_result_adds: "build_result D req w = (x, w') \<Longrightarrow> adds (\<lambda>ev. \<not> is_broker ev) w w'"
  by (auto simp: build_result_def io_simps split: prod.splits sum.splits if_splits dest: pipeline_calls)

lemma adds_trans: "adds Q w w1 \<Longrightarrow> adds Q w1 w' \<Longrightarrow> adds Q w w'"
  by (fastforce simp: adds_def)

lemma handle_request_all:
  assumes ack: "preserves (adds Q) (msg_ack E)" and Q: "\<And>ev. (\<forall>ok. ev \<noteq> EvAck ok) \<Longrightarrow> Q ev"
    and run: "handle_request E D m req w = (x, w')"
  shows "adds Q w w'"
proof -
  from handle_request_adds [of Q, OF _ _ ack _ _ _ run] Q obtain y w1 where
    y: "build_result D req w = (y, w1)" and rest: "adds Q w1 w'" by auto
  have "Q ev" if "\<not> is_broker ev" for ev
    by (rule Q) (use that in auto)
  from adds_trans [OF adds_mono [OF build_result_adds [OF y] this] rest] show ?thesis by simp
qed

lemma handle_request_extends: "handle_request E D m req w = (x, w') \<Longrightarrow> adds (\<lambda>_. True) w w'"
  using handle_request_all [OF msg_ack_adds] by simp

text \<open>
  The last delivery of a request, not cancelled and with a broker that takes acknowledgements,
  is acknowledged.
\<close>

lemma final_delivery_acks:
  assumes ack: "\<And>tr. env_ack E tr = Inr ()" and final: "is_final D m"
    and run: "handle_request E D m req w = (Inr (), w')"
  shows "EvAck True \<in> set (new_events w w')"
  using run
proof (cases rule: handle_request_spec)
  case (built r w1 evs)
  then obtain ok where ok: "EvAck ok \<in> set evs" using handles_finished_acks final by fastforce
  have new: "filter is_broker (new_events w w') = evs"
    by (rule new_broker_events [OF built(2) handle_request_extends [OF run]])
  have never: "ev \<noteq> EvAck False" if "ev \<in> set (new_events w w')" for ev
  proof -
    have "adds (\<lambda>ev. ev \<noteq> EvAck False) w w'"
      by (rule handle_request_all [OF msg_ack_succeeds [OF ack] _ run]) blast
    then show ?thesis using that by (auto simp: adds_def new_events_def list_all_iff)
  qed
  have "EvAck ok \<in> set (new_events w w')" using ok new ack_is_broker by metis
  then show ?thesis using never by (cases ok) auto
qed simp

lemma redeliver_acks:
  assumes dec: "decode pd data = Some req" and ack: "\<And>tr. env_ack E tr = Inr ()"
  shows "uncut E pd D data fuel k w \<Longrightarrow> k \<le> dep_max_deliver D \<Longrightarrow> dep_max_deliver D < k + int fuel \<Longrightarrow>
    \<exists>j w'. redeliver E pd D data fuel k w = (Some j, w') \<and> k \<le> j \<and> j \<le> dep_max_deliver D"
proof (induction fuel arbitrary: k w)
  case (Suc fuel)
  obtain w' where w': "handle_message E pd D (delivered data k) w = (Inr (), w')"
    using Suc.prems(1) by (cases "handle_message E pd D (delivered data k) w") (auto simp: is_ok_def split: sum.splits)
  show ?case
  proof (cases "EvAck True \<in> set (new_events w w')")
    case True
    with w' Suc.prems show ?thesis by simp
  next
    case False
    have "handle_request E D (delivered data k) req w = (Inr (), w')"
      using w' dec by (simp add: handle_message_def delivered_def)
    with False have "\<not> is_final D (delivered data k)" using final_delivery_acks [OF ack] by blast
    then have "k + 1 \<le> dep_max_deliver D" by (simp add: is_final_def num_delivered_def delivered_def)
    then obtain j w'' where "redeliver E pd D data fuel (k + 1) w' = (Some j, w'')" "k + 1 \<le> j" "j \<le> dep_max_deliver D"
      using Suc.IH [of "k + 1" w'] Suc.prems False w' by auto
    with False w' show ?thesis by (intro exI [of _ j] exI [of _ w'']) simp
  qed
qed simp

text \<open>Under the bound a refusal, at the bound none; never together with an acknowledgement.\<close>

lemma handled_naks:
  assumes run: "handle_request E D m req w = (x, w')" and nak: "EvNak d ok \<in> set (new_events w w')"
  shows "num_delivered m < dep_max_deliver D \<and> d = dep_nak_delay D \<and> EvAck True \<notin> set (new_events w w')"
proof -
  have in_broker: "EvNak d ok \<in> set (filter is_broker (new_events w w'))" using nak by simp
  note new = new_broker_events [OF _ handle_request_extends [OF run]]
  from run show ?thesis
  proof (cases rule: handle_request_spec)
    case (unbuilt e w1)
    then show ?thesis using new [of "[]"] in_broker by simp
  next
    case (built r w1 evs)
    have "EvNak d ok \<in> set evs" using new [OF built(2)] in_broker by simp
    from handles_nak_under_bound [OF built(3) this] handles_never_both [OF built(3), of d ok] this
    show ?thesis using new [OF built(2)] ack_is_broker [of True "new_events w w'"] by (auto simp: is_final_def)
  qed
qed

end

end
