(* ===== verification/Examples.thy ===== *)
theory Examples
  imports LiveWorker
begin

text \<open>
  One concrete deployment, on which the theorems are applied: a template of two files, a request
  for its two formats, services that answer, and libraries that return fixed texts. It shows
  that the hypotheses of the theorems can hold together.
\<close>

definition ex_manifest_value :: pyval where
  "ex_manifest_value = PyDict
     [(''id'', PyStr ''billing.invoice''), (''version'', PyStr ''1''), (''engine'', PyStr ''jinja-html''),
      (''supported_formats'', PyList [PyStr ''pdf'', PyStr ''html''])]"

definition ex_manifest :: manifest where
  "ex_manifest =
     \<lparr>man_id = ''billing.invoice'', man_version = ''1'', man_engine = JINJA_HTML,
      man_supported_formats = [PDF, HTML], man_required_fields = [], man_entrypoint = None,
      man_output_basename = None, man_blocks = [], man_fields = []\<rparr>"

definition ex_strict_value :: pyval where
  "ex_strict_value = PyDict
     [(''id'', PyStr ''billing.invoice''), (''version'', PyStr ''1''), (''engine'', PyStr ''jinja-html''),
      (''supported_formats'', PyList [PyStr ''pdf'', PyStr ''html'']),
      (''required_fields'', PyDict [(''required'', PyList [PyStr ''customer''])])]"

definition ex_request_value :: pyval where
  "ex_request_value = PyDict
     [(''request_id'', PyStr ''r1''), (''tenant_id'', PyStr ''t1''), (''requested_by'', PyStr ''u1''),
      (''template'', PyDict [(''uri'', PyStr ''s3://tpl/inv/'')]),
      (''outputs'', PyList [PyDict [(''format'', PyStr ''pdf'')], PyDict [(''format'', PyStr ''html'')]]),
      (''key_prefix'', PyStr ''t1/2024/''), (''reply_to'', PyStr ''docgen.result.t1'')]"

definition ex_request :: generation_request where
  "ex_request =
     \<lparr>req_request_id = ''r1'', req_tenant_id = ''t1'', req_requested_by = ''u1'',
      req_template_uri = ''s3://tpl/inv/'', req_outputs = [PDF, HTML], req_data = [],
      req_key_prefix = ''t1/2024/'', req_reply_to = ''docgen.result.t1'',
      req_options = default_options, req_metadata = []\<rparr>"

definition ex_blocks_value :: pyval where
  "ex_blocks_value = PyDict
     [(''id'', PyStr ''m''), (''version'', PyStr ''1''), (''engine'', PyStr ''xlsx''),
      (''supported_formats'', PyList [PyStr ''xlsx'']),
      (''required_fields'', PyDict [(''properties'', PyDict [(''rows'', PyDict [(''maxItems'', PyInt 3)])])]),
      (''blocks'', PyList [PyDict [(''source'', PyStr ''rows''), (''columns'', PyList [PyStr ''a'']), (''anchor'', PyStr ''A1'')]])]"

definition ex_pd :: pydantic where
  "ex_pd =
     \<lparr>pd_loads = (\<lambda>raw. if raw = ''{manifest}'' then Inr ex_manifest_value
                     else if raw = ''{strict}'' then Inr ex_strict_value
                     else if raw = ''{request}'' then Inr ex_request_value else Inl ''Invalid JSON''),
      pd_int = (\<lambda>v. case v of PyInt i \<Rightarrow> Some i | _ \<Rightarrow> None),
      pd_bool = (\<lambda>v. case v of PyBool b \<Rightarrow> Some b | _ \<Rightarrow> None),
      pd_error = (\<lambda>cls _. ''1 validation error for '' @ cls),
      pd_dumps = (\<lambda>_. ''{result}'')\<rparr>"

definition ex_pages :: "string list list" where
  "ex_pages = [[''inv/manifest.json''], [''inv/template.html'']]"

definition ex_obj :: "string \<Rightarrow> bytes" where
  "ex_obj k = (if k = ''inv/manifest.json'' then ''{manifest}'' else ''<p>'')"

definition ex_env :: env where
  "ex_env =
     \<lparr>env_list = (\<lambda>_ _ _. Inr ex_pages), env_get = (\<lambda>_ _ k. Inr (ex_obj k)),
      env_put = (\<lambda>_ _ _ _ _. Inr ()), env_presign = (\<lambda>_ _ _ _. Inr ''url''),
      env_delete = (\<lambda>_ _ _. Inr ()), env_pool = (\<lambda>_. Inr ()),
      env_publish = (\<lambda>_ _ _ _. Inr ()), env_ack = (\<lambda>_. Inr ()), env_nak = (\<lambda>_ _. Inr ()),
      env_tmp_name = (\<lambda>_. ''tmp0''), env_others = (\<lambda>_ d. d)\<rparr>"

text \<open>The same services with a broker that refuses to publish, and with one that is broken.\<close>

definition ex_env_unroutable :: env where
  "ex_env_unroutable = ex_env\<lparr>env_publish := (\<lambda>_ _ _ _. Inl (OtherError ''no stream matches subject''))\<rparr>"

text \<open>An output bucket that takes the first object only.\<close>

definition ex_env_full :: env where
  "ex_env_full = ex_env\<lparr>env_put := (\<lambda>_ _ k _ _. if k = ''t1/2024/invoice.pdf'' then Inr ()
     else Inl (TimeoutError ''no space''))\<rparr>"

text \<open>A template whose schema the data do not satisfy.\<close>

definition ex_env_strict :: env where
  "ex_env_strict = ex_env\<lparr>env_get := (\<lambda>_ _ _. Inr ''{strict}'')\<rparr>"

definition ex_js_strict :: jsonschema where
  "ex_js_strict = \<lparr>js_check_schema = (\<lambda>_. None), js_best_match = (\<lambda>_ _. Inr (Some ([], ''missing'')))\<rparr>"

definition ex_schema :: pydict where
  "ex_schema = [(''required'', PyList [PyStr ''customer''])]"

definition ex_bundle :: template_bundle where
  "ex_bundle = \<lparr>bun_manifest = ex_manifest, bun_root = [''tmp'', ''c'', ''inv'']\<rparr>"

definition ex_strict_manifest :: manifest where
  "ex_strict_manifest = ex_manifest\<lparr>man_required_fields := ex_schema\<rparr>"

text \<open>A bucket that lists a key which climbs out of the prefix.\<close>

definition ex_env_hostile :: env where
  "ex_env_hostile = ex_env\<lparr>env_list := (\<lambda>_ _ _. Inr [[''inv/manifest.json'', ''inv/../../../etc/passwd'']])\<rparr>"

text \<open>A cache that holds a template below \<open>inv/\<close> but none at it.\<close>

definition ex_parent_disk :: fs where
  "ex_parent_disk =
     [([''tmp''], Dir), ([''tmp'', ''c''], Dir), ([''tmp'', ''c'', ''inv''], Dir),
      ([''tmp'', ''c'', ''inv'', ''v1''], Dir), ([''tmp'', ''c'', ''inv'', ''v1'', ''manifest.json''], File ''{manifest}'')]"

text \<open>A service that stores but does not sign.\<close>

definition ex_env_unsigned :: env where
  "ex_env_unsigned = ex_env\<lparr>env_presign := (\<lambda>_ _ _ _. Inl (OtherError ''no credentials''))\<rparr>"

definition ex_store :: template_store where
  "ex_store = \<lparr>ts_bucket = ''tpl'', ts_cache_dir = [''tmp'', ''c'']\<rparr>"

definition ex_settings :: settings where
  "ex_settings = \<lparr>set_templates_bucket = ''tpl'', set_output_bucket = ''out'', set_cache_dir = [''tmp'', ''c'']\<rparr>"

definition ex_js :: jsonschema where
  "ex_js = \<lparr>js_check_schema = (\<lambda>_. None), js_best_match = (\<lambda>_ _. Inr None)\<rparr>"

definition ex_zip :: zip_lib where
  "ex_zip = \<lparr>zip_read = (\<lambda>raw. Inr [\<lparr>zm_name = ''a.xml'', zm_date = [2024], zm_data = raw\<rparr>]),
     zip_write = (\<lambda>ms. Inr (concat (map zm_data ms)))\<rparr>"

text \<open>Two writings of one package, in another order and at another time.\<close>

definition ex_core :: "string \<Rightarrow> zip_member" where
  "ex_core date = \<lparr>zm_name = ''docProps/core.xml'', zm_date = [2024],
     zm_data = ''<dcterms:created>'' @ date @ ''</dcterms:created><dcterms:modified>'' @ date @ ''</dcterms:modified>''\<rparr>"

definition ex_zip_two :: zip_lib where
  "ex_zip_two = \<lparr>zip_read = (\<lambda>raw. if raw = ''1''
       then Inr [ex_core ''2024'', \<lparr>zm_name = ''a.xml'', zm_date = [1], zm_data = ''x''\<rparr>]
       else Inr [\<lparr>zm_name = ''a.xml'', zm_date = [2], zm_data = ''x''\<rparr>, ex_core ''2025'']),
     zip_write = (\<lambda>ms. Inr (concat (map zm_data ms)))\<rparr>"

definition ex_xl :: xl_lib where
  "ex_xl =
     \<lparr>xl_load = (\<lambda>_. Inr ()), xl_defined_names = (\<lambda>_. [(''total'', [(''S'', ''$B$1'')])]),
      xl_sheet = (\<lambda>_ _. Inr ()), xl_accepts = (\<lambda>_ _ _. Inr ()), xl_is_merged = (\<lambda>_ _ _ _ _. False),
      xl_merged_ranges = (\<lambda>_ _. []), xl_coordinate = (\<lambda>_. Inr (1, 1)), xl_save = (\<lambda>_ _. Inr ''xlsx'')\<rparr>"

text \<open>A block of two columns and two rows, and data with one row.\<close>

definition ex_block :: block_spec where
  "ex_block = \<lparr>blk_source = ''rows'', blk_columns = [''a'', ''b''], blk_anchor = Some ''A1'', blk_anchor_name = None,
     blk_max_rows = Some 2, blk_hide_unused_rows = True\<rparr>"

definition ex_rows_data :: pydict where
  "ex_rows_data = [(''rows'', PyList [PyDict [(''a'', PyInt 1), (''b'', PyStr [])]]), (''total'', PyInt 3),
     (''cells'', PyDict [(''S!A9'', PyInt 5)])]"

definition ex_pdf :: pdf_lib where
  "ex_pdf =
     \<lparr>pf_fields = (\<lambda>_. Inr [(''f1'', \<lparr>pf_type = Some ''/Tx'', pf_states = None\<rparr>)]), pf_pages = (\<lambda>_. 1),
      pf_has_id = (\<lambda>_. True), pf_write = (\<lambda>_ _. Inr ''%PDF''), pf_sha256 = (\<lambda>_. ''d'')\<rparr>"

definition ex_boxes :: "(string \<times> pdf_field) list" where
  "ex_boxes = map (\<lambda>n. (n, \<lparr>pf_type = Some ''/Tx'', pf_states = None\<rparr>)) [''b1'', ''b2'', ''b3'']"

definition ex_libs :: libs where
  "ex_libs =
     \<lparr>lib_jinja = \<lparr>jj_render = (\<lambda>_ _ _ _ _. Inr ''<p>''), wp_write_pdf = (\<lambda>_ _ _. Inr ''%PDF'')\<rparr>,
      lib_docx = \<lparr>dx_render = (\<lambda>_ _ _. Inr ()), dx_save = (\<lambda>_ _ _ _. Inr ''docx'')\<rparr>,
      lib_pdf = ex_pdf, lib_xl = ex_xl, lib_zip = ex_zip\<rparr>"

definition ex_world :: world where
  "ex_world = \<lparr>trace = [], disk = []\<rparr>"

definition ex_deps :: "env \<Rightarrow> renderer handler_deps" where
  "ex_deps E = build_deps E ex_pd ex_js ex_libs (\<lambda>_. ''0a'') ex_settings ''docgen.dlq'' 4 30 (\<lambda>_. ''2024-01-01'')"

text \<open>The request's result, and the world after its first delivery.\<close>

definition ex_result :: generation_result where
  "ex_result = success_result ex_request
     [\<lparr>art_format = PDF, art_uri = ''s3://out/t1/2024/invoice.pdf'', art_presigned_url = None,
       art_size_bytes = 4, art_sha256 = ''0a''\<rparr>,
      \<lparr>art_format = HTML, art_uri = ''s3://out/t1/2024/invoice.html'', art_presigned_url = None,
       art_size_bytes = 3, art_sha256 = ''0a''\<rparr>] ''1'' ''2024-01-01''"

definition ex_msg :: msg where
  "ex_msg = delivered ''{request}'' 1"

definition ex_built :: world where
  "ex_built = snd (build_result (ex_deps ex_env) ex_request ex_world)"

definition ex_handled :: world where
  "ex_handled = snd (handle_message ex_env ex_pd (ex_deps ex_env) ex_msg ex_world)"

lemma ex_decode: "decode ex_pd ''{request}'' = Some ex_request"
  by code_simp

lemma ex_decode_msg: "decode ex_pd (msg_data ex_msg) = Some ex_request"
  by code_simp

lemma ex_build: "build_result (ex_deps ex_env) ex_request ex_world = (Inr ex_result, ex_built)"
proof -
  have "fst (build_result (ex_deps ex_env) ex_request ex_world) = Inr ex_result" by code_simp
  then show ?thesis by (simp add: ex_built_def prod_eq_iff)
qed

lemma ex_handle: "handle_message ex_env ex_pd (ex_deps ex_env) ex_msg ex_world = (Inr (), ex_handled)"
proof -
  have "fst (handle_message ex_env ex_pd (ex_deps ex_env) ex_msg ex_world) = Inr ()" by code_simp
  then show ?thesis by (simp add: ex_handled_def prod_eq_iff)
qed

lemma ex_handled_events:
  "filter is_broker (new_events ex_world ex_handled) =
     [result_publish (to_json_bytes ex_pd) ex_request ex_result True, EvAck True]"
  by code_simp

lemma ex_handled_ack: "EvAck True \<in> set (new_events ex_world ex_handled)"
  by (subst ack_is_broker) (simp add: ex_handled_events)

end
