(* ===== verification/Metrics.thy ===== *)
theory Metrics
  imports LiveWorker
begin

text \<open>
  \<open>core/metrics.py\<close>: the instruments, and what the handler records on them. The handler's
  \<open>add\<close> and \<open>record\<close> calls are events of the trace; \<open>measurement\<close> says which instrument an event is
  about and with which attributes. A delivery that is not cancelled is counted once, under an
  outcome that says which calls of the broker it made.
\<close>

section \<open>The instruments\<close>

datatype instrument_kind = Counter | Histogram | ObservableGauge

record instrument =
  ins_kind :: instrument_kind
  ins_name :: string
  ins_description :: string
  ins_unit :: string

definition worker_messages :: instrument where
  "worker_messages =
     \<lparr>ins_kind = Counter, ins_name = ''worker.messages.total'',
      ins_description = ''NATS message handler outcomes, labelled by outcome'', ins_unit = ''1''\<rparr>"

definition documents_rendered :: instrument where
  "documents_rendered =
     \<lparr>ins_kind = Counter, ins_name = ''documents.rendered.total'',
      ins_description = ''Artifacts rendered by the worker, labelled by format and status'', ins_unit = ''1''\<rparr>"

definition render_duration :: instrument where
  "render_duration =
     \<lparr>ins_kind = Histogram, ins_name = ''document.render.seconds'',
      ins_description = ''Wall-clock time spent rendering one request (all formats)'', ins_unit = ''s''\<rparr>"

definition queue_depth_gauge :: instrument where
  "queue_depth_gauge =
     \<lparr>ins_kind = ObservableGauge, ins_name = ''nats.queue.depth'',
      ins_description = ''JetStream consumer num_pending for the docgen request subject'', ins_unit = ''1''\<rparr>"

definition instruments :: "instrument list" where
  "instruments = [worker_messages, documents_rendered, render_duration, queue_depth_gauge]"

type_synonym attributes = "(string \<times> string) list"

definition measurement :: "event \<Rightarrow> (instrument \<times> attributes) option" where
  "measurement ev =
     (case ev of
        EvMessageMetric outcome \<Rightarrow> Some (worker_messages, [(''outcome'', outcome)])
      | EvDocumentMetric fmt \<Rightarrow> Some (documents_rendered, [(''format'', fmt), (''status'', ''success'')])
      | EvDurationMetric status \<Rightarrow> Some (render_duration, [(''status'', status)])
      | _ \<Rightarrow> None)"

definition measurements :: "event list \<Rightarrow> (instrument \<times> attributes) list" where
  "measurements evs = map (\<lambda>ev. the (measurement ev)) (filter (\<lambda>ev. measurement ev \<noteq> None) evs)"

text \<open>Names follow the conventions, and no two instruments share one.\<close>

lemma instrument_names_distinct: "distinct (map ins_name instruments)"
  by (simp add: instruments_def worker_messages_def documents_rendered_def render_duration_def queue_depth_gauge_def)

section \<open>What a delivery records\<close>

definition unmetered :: "event \<Rightarrow> bool" where
  "unmetered ev \<longleftrightarrow> measurement ev = None"

lemma measurement_simps [simp]:
  "measurement (EvMessageMetric s) = Some (worker_messages, [(''outcome'', s)])"
  "measurement (EvDocumentMetric s) = Some (documents_rendered, [(''format'', s), (''status'', ''success'')])"
  "measurement (EvDurationMetric s) = Some (render_duration, [(''status'', s)])"
  "unmetered (EvPublish a b c ok)" "unmetered (EvAck ok)" "unmetered (EvNak d ok)" "unmetered (EvRender f ok)"
  "unmetered (EvPut a b c' e ok)" "unmetered (EvPresign a b i ok)" "unmetered (EvList a b ok)" "unmetered (EvGet a b ok)"
  by (simp_all add: measurement_def unmetered_def)

lemma measurements_simps [simp]:
  "measurements [] = []" "measurements (xs @ ys) = measurements xs @ measurements ys"
  "measurements (ev # evs) = (case measurement ev of None \<Rightarrow> [] | Some m \<Rightarrow> [m]) @ measurements evs"
  by (auto simp: measurements_def split: option.splits)

lemma measurements_unmetered: "list_all unmetered evs \<Longrightarrow> measurements evs = []"
  by (induction evs) (auto simp: unmetered_def)

definition measured :: "world \<Rightarrow> (instrument \<times> attributes) list" where
  "measured w = measurements (trace w)"

lemma measured_unmetered: "adds unmetered w w' \<Longrightarrow> measured w' = measured w"
  by (auto simp: adds_def measured_def measurements_unmetered)

lemma measured_new:
  assumes "measured w' = measured w @ ms" "adds Q w w'"
  shows "measurements (new_events w w') = ms"
  using assms by (auto simp: measured_def new_events_def adds_def)

lemma live_pipeline_unmetered:
  "preserves (adds unmetered) (process_request (live_ports E pd js L sha cfg) req g)"
proof (rule preserves_process_request)
  show "preserves (adds unmetered) (p_fetch (live_ports E pd js L sha cfg) uri)" for uri
    unfolding live_ports_def
    by (simp, rule preserves_adds_mono [OF fetch_reads])
      (auto simp: reads_bucket_def unmetered_def measurement_def split: event.splits)
  show "preserves (adds unmetered) (p_run (live_ports E pd js L sha cfg) r b d f l)" for r b d f l
    by (simp add: live_ports_def run_in_pool_adds)
  show "preserves (adds unmetered) (p_put (live_ports E pd js L sha cfg) k c t ttl)" for k c t ttl
    by (simp add: live_ports_def put_artifact_adds)
qed simp_all

lemma live_calls_unmetered:
  fixes E pd js L sha cfg dlq maxd delay clock
  defines "D \<equiv> build_deps E pd js L sha cfg dlq maxd delay clock"
  shows "preserves (adds unmetered) (emit E D m req r)" "preserves (adds unmetered) (handle_emit_failure E D m req)"
    "build_result D req w = (x, w') \<Longrightarrow> adds unmetered w w'"
proof -
  have pub: "preserves (adds unmetered) (dep_publish_result D s r)" "preserves (adds unmetered) (dep_publish_dlq D p h)"
    "preserves (adds unmetered) (msg_ack E)" "preserves (adds unmetered) (msg_nak E d)" for s r p h d
    by (auto simp: D_def build_deps_def publish_result_def publish_dlq_def js_publish_def msg_ack_def msg_nak_def
        intro!: preserves_intros)
  show "preserves (adds unmetered) (emit E D m req r)" "preserves (adds unmetered) (handle_emit_failure E D m req)"
    unfolding emit_def handle_emit_failure_def by (auto intro!: preserves_intros pub)
  have "preserves (adds unmetered) (\<lambda>w. process_request (dep_ports D) req (dep_clock D (trace w)) w)"
    using live_pipeline_unmetered by (simp add: preserves_def D_def build_deps_def)
  then have "preserves (adds unmetered) (build_result D req)"
    unfolding build_result_def by (rule preserves_try_except [OF adds_transp]) (simp add: preserves_def adds_def)
  then show "build_result D req w = (x, w') \<Longrightarrow> adds unmetered w w'" by (rule preservesD)
qed

text \<open>
  The outcome that is counted says which calls of the broker the delivery made, \<open>bs\<close>, in their
  order: after an attempt without error exactly those of its row of the matrix, all taken; after a
  failed attempt those of the attempt, then the refusal below the bound, or on the last delivery
  the publish to the dead-letter subject and the acknowledgement, taken or not.
\<close>

definition outcome_of ::
  "(generation_result \<Rightarrow> bytes) \<Rightarrow> string \<Rightarrow> 'r handler_deps \<Rightarrow> msg \<Rightarrow> generation_request \<Rightarrow> generation_result \<Rightarrow> string \<Rightarrow> event list \<Rightarrow> bool" where
  "outcome_of wire dlq D m req r outcome bs \<longleftrightarrow>
     outcome = ''ack'' \<and> res_status r = SUCCESS \<and> bs = [result_publish wire req r True, EvAck True] \<or>
     outcome = ''ack_permanent_fail'' \<and> res_status r \<noteq> SUCCESS \<and> is_terminal r \<and>
       bs = [result_publish wire req r True, EvAck True] \<or>
     outcome = ''nak'' \<and> \<not> is_terminal r \<and> \<not> is_final D m \<and> bs = [EvNak (dep_nak_delay D) True] \<or>
     outcome = ''dlq'' \<and> \<not> is_terminal r \<and> is_final D m \<and>
       bs = [result_publish wire req r True, dlq_publish dlq m req r True, EvAck True] \<or>
     (\<exists>failed. emits (result_publish wire req r) (dlq_publish dlq m req r) (dep_nak_delay D) (is_terminal r) (is_final D m)
         failed False \<and>
       (outcome = ''emit_error_nak'' \<and> \<not> is_final D m \<and> (\<exists>ok. bs = failed @ [EvNak (dep_nak_delay D) ok]) \<or>
        outcome = ''emit_error_dlq'' \<and> is_final D m \<and>
          (\<exists>ok ok'. bs = failed @ [failure_publish dlq m req ok, EvAck ok'])))"

lemma filter_broker: "list_all is_broker evs \<Longrightarrow> filter is_broker evs = evs"
  by (simp add: filter_id_conv list_all_iff)

context delivery
begin

lemma emit_outcome:
  assumes "emit E D m req r w = (Inr outcome, w')"
  shows "\<exists>bs. trace w' = trace w @ bs \<and> list_all is_broker bs \<and> outcome_of wire dlq D m req r outcome bs"
    and "outcome = ''ack'' \<longleftrightarrow> res_status r = SUCCESS"
proof -
  have o: "outcome = (if is_terminal r then if res_status r = SUCCESS then ''ack'' else ''ack_permanent_fail''
      else if is_final D m then ''dlq'' else ''nak'')"
    using assms by (auto simp: emit_def is_final_def io_simps split: prod.splits sum.splits if_splits)
  have s: "res_status r = SUCCESS \<Longrightarrow> is_terminal r" by (simp add: is_terminal_def)
  then show "outcome = ''ack'' \<longleftrightarrow> res_status r = SUCCESS" by (auto simp: o)
  from emit_spec [OF assms] obtain bs where bs: "trace w' = trace w @ bs" "list_all is_broker bs"
    and em: "emits (result_publish wire req r) (dlq_publish dlq m req r) (dep_nak_delay D) (is_terminal r) (is_final D m) bs True"
    by auto
  from em have "outcome_of wire dlq D m req r outcome bs" by (elim emitsE) (auto simp: o outcome_of_def)
  with bs show "\<exists>bs. trace w' = trace w @ bs \<and> list_all is_broker bs \<and> outcome_of wire dlq D m req r outcome bs" by blast
qed

lemma handle_emit_failure_outcome:
  assumes "handle_emit_failure E D m req w = (Inr outcome, w')"
    and "emits (result_publish wire req r) (dlq_publish dlq m req r) (dep_nak_delay D) (is_terminal r) (is_final D m) failed False"
  shows "\<exists>bs. trace w' = trace w @ bs \<and> list_all is_broker bs \<and> outcome_of wire dlq D m req r outcome (failed @ bs)"
    and "outcome \<noteq> ''ack''"
proof -
  have o: "outcome = (if is_final D m then ''emit_error_dlq'' else ''emit_error_nak'')"
    using assms(1) by (auto simp: handle_emit_failure_def io_simps is_final_def split: prod.splits sum.splits if_splits)
  then show "outcome \<noteq> ''ack''" by simp
  from handle_emit_failure_spec [OF assms(1)] obtain bs where bs: "trace w' = trace w @ bs" "list_all is_broker bs"
    and rec: "recovers (failure_publish dlq m req) (dep_nak_delay D) (is_final D m) bs True" by auto
  from rec have "outcome_of wire dlq D m req r outcome (failed @ bs)"
    using assms(2) by (elim recoversE) (auto simp: o outcome_of_def)
  with bs show "\<exists>bs. trace w' = trace w @ bs \<and> list_all is_broker bs \<and> outcome_of wire dlq D m req r outcome (failed @ bs)" by blast
qed

end

lemma measured_event: "measured (w\<lparr>trace := trace w @ evs\<rparr>) = measured w @ measurements evs"
  by (simp add: measured_def)

lemma measurements_documents:
  "measurements (map (\<lambda>a. EvDocumentMetric (format_value (art_format a))) as) =
   map (\<lambda>a. (documents_rendered, [(''format'', format_value (art_format a)), (''status'', ''success'')])) as"
  by (induction as) simp_all

text \<open>The records of one attempt to emit, with its recovery.\<close>

definition document_records :: "generation_result \<Rightarrow> (instrument \<times> attributes) list" where
  "document_records r =
     map (\<lambda>a. (documents_rendered, [(''format'', format_value (art_format a)), (''status'', ''success'')])) (res_artifacts r)"

lemma live_emit_records:
  fixes E pd js L sha cfg dlq maxd delay clock
  defines "D \<equiv> build_deps E pd js L sha cfg dlq maxd delay clock"
  assumes run: "try_except (emit_and_count E D m req r) is_Exception (\<lambda>_. emit_failed E D m req) w = (Inr (), w')"
  shows "\<exists>outcome evs. trace w' = trace w @ evs \<and> outcome_of (to_json_bytes pd) dlq D m req r outcome (filter is_broker evs) \<and>
    measured w' = measured w @ [(worker_messages, [(''outcome'', outcome)])] @ (if outcome = ''ack'' then document_records r else [])"
proof -
  note un = live_calls_unmetered(1,2) [of E pd js L sha cfg dlq maxd delay clock, folded D_def]
  obtain y w1 where y: "emit E D m req r w = (y, w1)" by (cases "emit E D m req r w")
  have m1: "measured w1 = measured w" by (rule measured_unmetered [OF preservesD [OF un(1) y]])
  show ?thesis
  proof (cases y)
    case (Inr outcome)
    note o = live_delivery.emit_outcome [OF y [unfolded Inr, unfolded D_def], folded D_def]
    from o(1) obtain bs where bs: "trace w1 = trace w @ bs" "filter is_broker bs = bs"
      "outcome_of (to_json_bytes pd) dlq D m req r outcome bs" using filter_broker by blast
    let ?evs = "EvMessageMetric outcome # (if res_status r = SUCCESS
        then map (\<lambda>a. EvDocumentMetric (format_value (art_format a))) (res_artifacts r) else [])"
    have "w' = w1\<lparr>trace := trace w1 @ ?evs\<rparr>"
      using run y Inr by (auto simp: emit_and_count_def io_simps count_documents_run split: if_splits)
    then have "trace w' = trace w @ bs @ ?evs" "measured w' = measured w @ measurements ?evs"
      using bs(1) m1 by (simp_all add: measured_def)
    moreover have "filter is_broker (bs @ ?evs) = bs" using bs(2) by (simp add: filter_map comp_def)
    ultimately show ?thesis using o(2) bs(3)
      by (intro exI [of _ outcome] exI [of _ "bs @ ?evs"]) (auto simp: measurements_documents document_records_def)
  next
    case (Inl e)
    have ec: "emit_and_count E D m req r w = (Inl e, w1)" using y Inl by (simp add: emit_and_count_def and_then_run)
    have "emit_failed E D m req w1 = (Inr (), w')" using run ec by (simp add: try_except_run split: if_splits)
    then obtain outcome w2 where z: "handle_emit_failure E D m req w1 = (Inr outcome, w2)"
      and w': "w' = w2\<lparr>trace := trace w2 @ [EvMessageMetric outcome]\<rparr>"
      by (auto simp: emit_failed_def and_then_run emit_event_run split: prod.splits sum.splits)
    from live_delivery.emit_spec [OF y [unfolded D_def], folded D_def] Inl obtain failed where
      t1: "trace w1 = trace w @ failed" "list_all is_broker failed"
      and em: "emits (result_publish (to_json_bytes pd) req r) (dlq_publish dlq m req r) (dep_nak_delay D)
        (is_terminal r) (is_final D m) failed False" by auto
    note f = live_delivery.handle_emit_failure_outcome [OF z [unfolded D_def] em [unfolded D_def], folded D_def]
    from f(1) obtain bs where bs: "trace w2 = trace w1 @ bs" "list_all is_broker bs"
      "outcome_of (to_json_bytes pd) dlq D m req r outcome (failed @ bs)" by blast
    let ?evs = "failed @ bs @ [EvMessageMetric outcome]"
    have "measured w2 = measured w1" by (rule measured_unmetered [OF preservesD [OF un(2) z]])
    then have "trace w' = trace w @ ?evs" "measured w' = measured w @ [(worker_messages, [(''outcome'', outcome)])]"
      using t1 bs m1 w' by (simp_all add: measured_def)
    moreover have "filter is_broker ?evs = failed @ bs" by (simp add: filter_broker t1(2) bs(2))
    ultimately show ?thesis using f(2) bs(3)
      by (intro exI [of _ outcome] exI [of _ ?evs]) simp
  qed
qed

lemma live_request_records:
  fixes E pd js L sha cfg dlq maxd delay clock
  defines "D \<equiv> build_deps E pd js L sha cfg dlq maxd delay clock"
  assumes run: "handle_request E D m req w = (Inr (), w')"
  shows "\<exists>r w1 outcome. build_result D req w = (Inr r, w1) \<and> outcome_of (to_json_bytes pd) dlq D m req r outcome (filter is_broker (new_events w w')) \<and>
    measurements (new_events w w') = [(worker_messages, [(''outcome'', outcome)])] @
      (if outcome = ''ack'' then document_records r else []) @ [(render_duration, [(''status'', status_value (res_status r))])]"
proof -
  obtain y w1 where y: "build_result D req w = (y, w1)" by (cases "build_result D req w")
  note un = live_calls_unmetered(3) [OF y [unfolded D_def]]
  have "\<exists>r. y = Inr r"
  proof (cases y)
    case (Inl e)
    then have "\<not> is_Exception e" using live_delivery.build_result_Inl y unfolding D_def by blast
    then show ?thesis using run y Inl by (simp add: handle_request_def try_finally_run emit_event_run)
  qed simp
  then obtain r where r: "y = Inr r" ..
  obtain z w2 where z: "try_except (emit_and_count E D m req r) is_Exception (\<lambda>_. emit_failed E D m req) w1 = (z, w2)"
    by (cases "try_except (emit_and_count E D m req r) is_Exception (\<lambda>_. emit_failed E D m req) w1")
  let ?d = "EvDurationMetric (status_value (res_status r))"
  have w': "z = Inr ()" "w' = w2\<lparr>trace := trace w2 @ [?d]\<rparr>"
    using run y r z by (auto simp: handle_request_def try_finally_run emit_event_run)
  from live_emit_records [OF z [unfolded w'(1) D_def]] obtain outcome evs where
    t: "trace w2 = trace w1 @ evs" and o: "outcome_of (to_json_bytes pd) dlq D m req r outcome (filter is_broker evs)"
    and ms: "measured w2 = measured w1 @ [(worker_messages, [(''outcome'', outcome)])] @ (if outcome = ''ack'' then document_records r else [])"
    unfolding D_def by blast
  obtain evs0 where t0: "trace w1 = trace w @ evs0" "list_all unmetered evs0" using un by (auto simp: adds_def)
  have new: "new_events w w' = evs0 @ evs @ [?d]" using t t0 w'(2) by (simp add: new_events_def)
  have "measurements evs = [(worker_messages, [(''outcome'', outcome)])] @ (if outcome = ''ack'' then document_records r else [])"
    using ms t by (simp add: measured_def)
  then have "measurements (new_events w w') = [(worker_messages, [(''outcome'', outcome)])] @
      (if outcome = ''ack'' then document_records r else []) @ [(render_duration, [(''status'', status_value (res_status r))])]"
    unfolding new by (simp add: measurements_unmetered [OF t0(2)])
  moreover have "broker w1 = broker w" by (rule live_delivery.build_result_broker [OF y [unfolded D_def]])
  then have "filter is_broker (new_events w w') = filter is_broker evs" unfolding new by (simp add: t0(1) broker_def)
  ultimately show ?thesis using y r o by auto
qed

end
