(* ===== verification/WorkerClaims.thy ===== *)
theory WorkerClaims
  imports Examples Metrics
begin

text \<open>
  The properties of the message handler on the deployed adapters and of the pipeline, each with
  a concrete run to which it applies.
\<close>

section \<open>Deliveries\<close>

text \<open>
  C1. When the broker has taken the acknowledgement of a request whose result is a success, the
  template was fetched and every requested format is in the output bucket under its own key, in the
  order of the request and with the bytes that the renderer of the format made of that template and
  the data of the request; the result describes these objects; and the acknowledgement is the last
  call of the broker. Before it, the broker took the publish of the result; or this is the last
  delivery, the publish of the result failed and the request was offered to the dead-letter subject
  once, on a best-effort basis: that publish may have failed too, and then the acknowledged request
  is neither answered nor dead-lettered (\<open>acked_without_a_report\<close>), though its objects are stored.
\<close>

theorem acked_success_is_stored:
  fixes E pd js L sha cfg dlq maxd delay clock
  defines "D \<equiv> build_deps E pd js L sha cfg dlq maxd delay clock"
  assumes "decode pd (msg_data m) = Some req"
    and "build_result D req w = (Inr r, w1)" "res_status r = SUCCESS"
    and "handle_message E pd D m w = (x, w')" "EvAck True \<in> set (new_events w w')"
  shows "\<exists>b cs before. fst (fetch E pd (cache_of cfg) (req_template_uri req) w) = Inr b \<and>
    list_all2 (\<lambda>fmt c. \<exists>d. rendered_document L d b req fmt = Inr c) (requested_formats req) cs \<and>
    bucket_writes (set_output_bucket cfg) w' =
      bucket_writes (set_output_bucket cfg) w @ planned_writes req (bun_manifest b) cs \<and>
    list_all2 (describes (object_uri (set_output_bucket cfg)) sha (opt_presign_ttl (req_options req)))
      (zip (requested_formats req) (planned_writes req (bun_manifest b) cs)) (res_artifacts r) \<and>
    filter is_broker (new_events w w') = before @ [EvAck True] \<and>
    (result_publish (to_json_bytes pd) req r True \<in> set before \<or>
     maxd \<le> num_delivered m \<and>
     (\<exists>ok. before = [result_publish (to_json_bytes pd) req r False, failure_publish dlq m req ok]))"
proof -
  have run: "handle_request E D m req w = (x, w')" using assms(2,5) by (simp add: handle_message_def)
  from live.success_stores_everything [OF build_result_success [OF assms(3) [unfolded D_def] assms(4)] assms(4)] obtain b wf cs where
    "p_fetch (live_ports E pd js L sha cfg) (req_template_uri req) w = (Inr b, wf)"
    and made: "list_all2 (produced (live_ports E pd js L sha cfg) b req) (requested_formats req) cs" and stored:
    "bucket_writes (set_output_bucket cfg) w1 =
      bucket_writes (set_output_bucket cfg) w @ planned_writes req (bun_manifest b) cs"
    "list_all2 (describes (object_uri (set_output_bucket cfg)) sha (opt_presign_ttl (req_options req)))
      (zip (requested_formats req) (planned_writes req (bun_manifest b) cs)) (res_artifacts r)"
    by blast
  then have "fst (fetch E pd (cache_of cfg) (req_template_uri req) w) = Inr b" by (simp add: live_ports_def cache_of_def)
  moreover have "list_all2 (\<lambda>fmt c. \<exists>d. rendered_document L d b req fmt = Inr c) (requested_formats req) cs"
    by (rule list_all2_mono [OF made live_produces])
  moreover note stored
  moreover have "bucket_writes (set_output_bucket cfg) w' = bucket_writes (set_output_bucket cfg) w1"
    using live_delivery.handle_request_writes run assms(3) unfolding D_def by blast
  moreover from run obtain evs where evs: "broker w' = broker w @ evs"
      "handles (result_publish (to_json_bytes pd) req r) (dlq_publish dlq m req r) (failure_publish dlq m req)
        (dep_nak_delay D) (is_terminal r) (is_final D m) evs (is_ok x)"
    unfolding D_def
    by (rule live_delivery.handle_request_spec) (use assms(3) in \<open>auto simp: D_def\<close>)
  moreover have new: "filter is_broker (new_events w w') = evs"
    using new_broker_events [OF evs(1) live_delivery.handle_request_extends] run unfolding D_def by blast
  moreover have "EvAck True \<in> set evs" using assms(6) new by (metis ack_is_broker)
  moreover have "is_final D m \<longleftrightarrow> maxd \<le> num_delivered m" by (simp add: D_def is_final_def build_deps_def)
  ultimately show ?thesis using handles_ack_reports [OF evs(2)] by simp blast
qed

text \<open>
  The second case with both publishes failed: nobody was told, and the broker has its
  acknowledgement.
\<close>

lemma acked_without_a_report:
  "let m = delivered ''{request}'' 4; w' = snd (handle_message ex_env_unroutable ex_pd (ex_deps ex_env_unroutable) m ex_world)
   in filter is_broker (new_events ex_world w') =
     [result_publish (to_json_bytes ex_pd) ex_request ex_result False, failure_publish ''docgen.dlq'' m ex_request False, EvAck True]"
  by code_simp

lemma acked_success_is_stored_witness:
  "\<exists>b cs before. list_all2 (\<lambda>fmt c. \<exists>d. rendered_document ex_libs d b ex_request fmt = Inr c) [PDF, HTML] cs \<and>
    bucket_writes ''out'' ex_handled = bucket_writes ''out'' ex_world @ planned_writes ex_request (bun_manifest b) cs \<and>
    filter is_broker (new_events ex_world ex_handled) = before @ [EvAck True]"
proof -
  have "requested_formats ex_request = [PDF, HTML]" by code_simp
  then show ?thesis
    using acked_success_is_stored [OF ex_decode_msg ex_build [unfolded ex_deps_def] _ ex_handle [unfolded ex_deps_def] ex_handled_ack]
    by (auto simp: ex_result_def success_result_def ex_settings_def)
qed

text \<open>
  A request is acknowledged by its last allowed delivery: delivered again and again with the
  counts 1, 2, ..., with whatever storage, rendering and publishing do, the message is
  acknowledged at a count of at most the bound, provided the broker takes acknowledgements and
  no delivery is cancelled. The broker's own bound, one above, is never needed.
\<close>

theorem request_acked_within_bound:
  fixes E pd js L sha cfg dlq maxd delay clock
  defines "D \<equiv> build_deps E pd js L sha cfg dlq maxd delay clock"
  assumes "decode pd data = Some req" "1 \<le> maxd" "\<And>tr. env_ack E tr = Inr ()"
    and "uncut E pd D data (nat (maxd + 1)) 1 w"
  shows "\<exists>k w'. redeliver E pd D data (nat (maxd + 1)) 1 w = (Some k, w') \<and> 1 \<le> k \<and> k \<le> maxd"
  using live_delivery.redeliver_acks [OF assms(2,4) assms(5) [unfolded D_def]] assms(3)
  by (simp add: D_def build_deps_def)

lemma request_acked_within_bound_witness:
  "\<exists>k w'. redeliver ex_env_unroutable ex_pd (ex_deps ex_env_unroutable) ''{request}'' (nat 5) 1 ex_world = (Some k, w') \<and>
    1 \<le> k \<and> k \<le> 4"
proof -
  have "uncut ex_env_unroutable ex_pd (ex_deps ex_env_unroutable) ''{request}'' (nat 5) 1 ex_world"
    by code_simp
  moreover have "env_ack ex_env_unroutable tr = Inr ()" for tr
    by (simp add: ex_env_unroutable_def ex_env_def)
  ultimately show ?thesis
    using request_acked_within_bound [OF ex_decode, of 4 ex_env_unroutable] by (simp add: ex_deps_def)
qed

text \<open>
  C8. The handler implements the outcome matrix: the calls of the broker that one delivery of a
  request makes, whichever of them fail, are those that the specification \<open>handles\<close> allows for
  its result and its delivery count; when the delivery is cancelled before there is a result,
  it makes none.
\<close>

theorem delivery_refines_matrix:
  fixes E pd js L sha cfg dlq maxd delay clock
  defines "D \<equiv> build_deps E pd js L sha cfg dlq maxd delay clock"
  assumes "decode pd (msg_data m) = Some req" "handle_message E pd D m w = (x, w')"
  shows "case build_result D req w of
      (Inl e, _) \<Rightarrow> broker w' = broker w \<and> x = Inl e \<and> \<not> is_Exception e
    | (Inr r, _) \<Rightarrow> \<exists>evs. broker w' = broker w @ evs \<and>
        handles (result_publish (to_json_bytes pd) req r) (dlq_publish dlq m req r) (failure_publish dlq m req)
          delay (is_terminal r) (maxd \<le> num_delivered m) evs (is_ok x)"
proof -
  have "handle_request E D m req w = (x, w')" using assms(2,3) by (simp add: handle_message_def)
  then show ?thesis
    unfolding D_def
    by (cases rule: live_delivery.handle_request_spec) (auto simp: is_final_def build_deps_def)
qed

lemma delivery_refines_matrix_witness:
  "\<exists>evs. broker ex_handled = broker ex_world @ evs \<and>
    handles (result_publish (to_json_bytes ex_pd) ex_request ex_result)
      (dlq_publish ''docgen.dlq'' ex_msg ex_request ex_result) (failure_publish ''docgen.dlq'' ex_msg ex_request)
      30 True False evs True"
proof -
  have "is_terminal ex_result" "num_delivered ex_msg = 1" by code_simp+
  then show ?thesis
    using delivery_refines_matrix [OF ex_decode_msg ex_handle [unfolded ex_deps_def]]
    by (simp add: ex_build [unfolded ex_deps_def])
qed

text \<open>
  A message is refused (nak) only below the bound on its deliveries, always with the
  configured delay, and never in a delivery whose acknowledgement the broker has taken.
\<close>

theorem nak_only_below_bound:
  fixes E pd js L sha cfg dlq maxd delay clock
  defines "D \<equiv> build_deps E pd js L sha cfg dlq maxd delay clock"
  assumes "decode pd (msg_data m) = Some req" "handle_message E pd D m w = (x, w')"
    and "EvNak d ok \<in> set (new_events w w')"
  shows "num_delivered m < maxd \<and> d = delay \<and> EvAck True \<notin> set (new_events w w')"
proof -
  have "handle_request E D m req w = (x, w')" using assms(2,3) by (simp add: handle_message_def)
  from live_delivery.handled_naks [OF this [unfolded D_def] assms(4)] show ?thesis
    by (simp add: build_deps_def)
qed

lemma nak_only_below_bound_witness:
  "EvAck True \<notin> set (new_events ex_world
     (snd (handle_message ex_env_unroutable ex_pd (ex_deps ex_env_unroutable) ex_msg ex_world)))"
proof -
  let ?h = "handle_message ex_env_unroutable ex_pd (ex_deps ex_env_unroutable) ex_msg ex_world"
  have "?h = (fst ?h, snd ?h)" by simp
  moreover have "EvNak 30 True \<in> set (new_events ex_world (snd ?h))" by code_simp
  ultimately show ?thesis
    using nak_only_below_bound [OF ex_decode_msg] unfolding ex_deps_def by blast
qed

text \<open>
  C12. No exception ends the handling of a request: whatever storage, the libraries, the broker
  and the pool raise, the handler returns, unless its task is cancelled.
\<close>

theorem handler_never_raises:
  fixes E pd js L sha cfg dlq maxd delay clock
  defines "D \<equiv> build_deps E pd js L sha cfg dlq maxd delay clock"
  assumes "decode pd (msg_data m) = Some req" "handle_message E pd D m w = (Inl e, w')"
  shows "e = CancelledError"
proof -
  have "handle_request E D m req w = (Inl e, w')" using assms(2,3) by (simp add: handle_message_def)
  then have "\<not> is_Exception e"
    unfolding D_def by (cases rule: live_delivery.handle_request_spec) auto
  then show ?thesis by (simp add: is_Exception_def)
qed

lemma handler_never_raises_witness:
  "fst (handle_message (ex_env\<lparr>env_pool := (\<lambda>_. Inl CancelledError)\<rparr>) ex_pd
     (ex_deps (ex_env\<lparr>env_pool := (\<lambda>_. Inl CancelledError)\<rparr>)) ex_msg ex_world) = Inl CancelledError"
proof -
  let ?E = "ex_env\<lparr>env_pool := (\<lambda>_. Inl CancelledError)\<rparr>"
  let ?h = "handle_message ?E ex_pd (ex_deps ?E) ex_msg ex_world"
  have "\<not> is_ok (fst ?h)" by code_simp
  then obtain e w' where h: "?h = (Inl e, w')"
    by (cases ?h) (auto simp: is_ok_def split: sum.splits)
  from handler_never_raises [OF ex_decode_msg h [unfolded ex_deps_def]] h show ?thesis by simp
qed

text \<open>
  C30. A message that is not a request is dropped: the pipeline does not run, the message goes to
  the dead-letter subject with the reason \<open>decode\<close>, and then, whether or not that publish
  worked, it is acknowledged. The handler raises only when the acknowledgement fails, or when
  it is cancelled in the publish.
\<close>

theorem undecodable_is_dropped:
  fixes E pd js L sha cfg dlq maxd delay clock
  defines "D \<equiv> build_deps E pd js L sha cfg dlq maxd delay clock"
  assumes "decode pd (msg_data m) = None" "handle_message E pd D m w = (x, w')"
  shows "\<exists>routed rest. trace w' = trace w @ [EvPublish dlq (msg_data m) [(''X-DocGen-Error'', ''decode'')] routed] @ rest \<and>
    (x = Inr () \<and> rest = [EvAck True, EvMessageMetric ''drop_decode''] \<or>
     (\<exists>e. x = Inl e \<and> (rest = [EvAck False] \<or> rest = [] \<and> \<not> routed \<and> \<not> is_Exception e)))"
proof -
  obtain y w1 where pub: "dep_publish_dlq D (msg_data m) [(HEADER_DLQ_REASON, ''decode'')] w = (y, w1)"
    by (cases "dep_publish_dlq D (msg_data m) [(HEADER_DLQ_REASON, ''decode'')] w")
  obtain z w2 where ack: "msg_ack E w1 = (z, w2)" by (cases "msg_ack E w1")
  have t1: "trace w1 = trace w @ [EvPublish dlq (msg_data m) [(''X-DocGen-Error'', ''decode'')] (is_ok y)]"
    using live_delivery.pub_dlq_trace pub unfolding D_def by (simp add: HEADER_DLQ_REASON_def)
  note t2 = msg_ack_trace [OF ack]
  have run: "drop_undecodable E D m w = (x, w')" using assms(2,3) by (simp add: handle_message_def)
  show ?thesis
  proof (cases "\<exists>e. y = Inl e \<and> \<not> is_Exception e")
    case True
    with run pub have "x = Inl (projl y)" "w' = w1" by (auto simp: drop_undecodable_def io_simps)
    with True t1 show ?thesis by auto
  next
    case False
    then have "and_then (msg_ack E) (\<lambda>_. emit_event (EvMessageMetric ''drop_decode'')) w1 = (x, w')"
      using run pub by (cases y) (auto simp: drop_undecodable_def io_simps)
    with ack t1 t2 show ?thesis by (cases z) (auto simp: io_simps)
  qed
qed

lemma undecodable_is_dropped_witness:
  "\<exists>routed rest. trace (snd (handle_message ex_env ex_pd (ex_deps ex_env) (delivered ''?'' 1) ex_world)) =
     [EvPublish ''docgen.dlq'' ''?'' [(''X-DocGen-Error'', ''decode'')] routed] @ rest"
proof -
  let ?h = "handle_message ex_env ex_pd (ex_deps ex_env) (delivered ''?'' 1) ex_world"
  have "decode ex_pd (msg_data (delivered ''?'' 1)) = None" by code_simp
  moreover have "?h = (fst ?h, snd ?h)" by simp
  ultimately show ?thesis
    using undecodable_is_dropped [of ex_pd "delivered ''?'' 1" ex_env] unfolding ex_deps_def
    by (fastforce simp: ex_world_def delivered_def)
qed

section \<open>Metrics\<close>

text \<open>
  C13. A delivered request whose handling is not cancelled is measured once: one outcome, one duration
  under the status of its result, and one document per artifact when the outcome is \<open>ack\<close>, and none
  otherwise: a success whose publish or acknowledgement failed counts no document, even when the
  recovery on the last delivery acknowledges it. The outcome says which calls of the broker the
  delivery made, in order and with whether each was taken: those of its row of the matrix for the
  four regular outcomes; for the two \<open>emit_error\<close> outcomes those of a failed attempt, followed by the
  refusal with the configured delay below the bound, or by the publish to the dead-letter subject and
  the acknowledgement on the last delivery.
\<close>

theorem each_request_is_measured_once:
  fixes E pd js L sha cfg dlq maxd delay clock
  defines "D \<equiv> build_deps E pd js L sha cfg dlq maxd delay clock"
  assumes "decode pd (msg_data m) = Some req" "handle_message E pd D m w = (Inr (), w')"
  shows "\<exists>r w1 outcome. build_result D req w = (Inr r, w1) \<and>
    outcome_of (to_json_bytes pd) dlq D m req r outcome (filter is_broker (new_events w w')) \<and>
    measurements (new_events w w') = [(worker_messages, [(''outcome'', outcome)])] @
      (if outcome = ''ack'' then document_records r else []) @ [(render_duration, [(''status'', status_value (res_status r))])]"
proof -
  have "handle_request E D m req w = (Inr (), w')" using assms(2,3) by (simp add: handle_message_def)
  then show ?thesis unfolding D_def by (rule live_request_records)
qed

lemma each_request_is_measured_once_witness:
  "\<exists>outcome. outcome_of (to_json_bytes ex_pd) ''docgen.dlq'' (ex_deps ex_env) ex_msg ex_request ex_result outcome
      (filter is_broker (new_events ex_world ex_handled)) \<and>
    length (measurements (new_events ex_world ex_handled)) = (if outcome = ''ack'' then 4 else 2)"
proof -
  have n: "length (document_records ex_result) = 2" by code_simp
  from each_request_is_measured_once [OF ex_decode_msg ex_handle [unfolded ex_deps_def]] obtain r w1 outcome where
    "build_result (ex_deps ex_env) ex_request ex_world = (Inr r, w1)"
    and o: "outcome_of (to_json_bytes ex_pd) ''docgen.dlq'' (ex_deps ex_env) ex_msg ex_request r outcome
      (filter is_broker (new_events ex_world ex_handled))"
    and m: "measurements (new_events ex_world ex_handled) = [(worker_messages, [(''outcome'', outcome)])] @
      (if outcome = ''ack'' then document_records r else []) @ [(render_duration, [(''status'', status_value (res_status r))])]"
    unfolding ex_deps_def by blast
  then have r: "r = ex_result" using ex_build by simp
  show ?thesis using o m n unfolding r by (intro exI [of _ outcome]) simp
qed

end
