(* ===== verification/PipelineClaims.thy ===== *)
theory PipelineClaims
  imports Examples
begin

text \<open>
  The properties of one run of the pipeline on the deployed adapters: what a failure leaves in
  the bucket, the gates before rendering, and the shape of every result.
\<close>

text \<open>
  C19. A run that does not end in a success has written a part of the requested objects at most,
  in the order of the request and starting with the first: a failed result all but one of them
  at most, a run that is cut by an exception all of them at most.
\<close>

theorem unsuccessful_run_stores_initial_part:
  fixes E pd js L sha cfg
  assumes "process_request (live_ports E pd js L sha cfg) req g w = (x, w')"
    and "\<And>r. x = Inr r \<Longrightarrow> res_status r = FAILED"
  shows "\<exists>(m :: manifest) cs n. length cs = length (requested_formats req) \<and> n \<le> length cs \<and>
    (is_ok x \<longrightarrow> n = 0 \<or> n < length cs) \<and>
    bucket_writes (set_output_bucket cfg) w' =
      bucket_writes (set_output_bucket cfg) w @ take n (planned_writes req m cs)"
proof (cases "bucket_writes (set_output_bucket cfg) w' = bucket_writes (set_output_bucket cfg) w")
  case True
  then show ?thesis
    by (intro exI [of _ undefined] exI [of _ "replicate (length (requested_formats req)) []"] exI [of _ 0]) simp
next
  case False
  show ?thesis
  proof (cases x)
    case (Inl e)
    from live.exception_stores_initial_part [OF assms(1) [unfolded Inl]] False Inl show ?thesis
      by (metis is_ok_simps(2))
  next
    case (Inr r)
    from live.failure_stores_initial_part [OF assms(1) [unfolded Inr] assms(2) [OF Inr]] False obtain b :: template_bundle and cs n where
      cs: "length cs = length (requested_formats req)" "n \<le> length cs"
        "n = length cs \<longrightarrow> (\<exists>e. is_DocGenError e \<and> \<not> is_Exception e)"
      and w: "bucket_writes (set_output_bucket cfg) w' =
        bucket_writes (set_output_bucket cfg) w @ take n (planned_writes req (bun_manifest b) cs)" by blast
    have "n < length cs" using cs by (auto simp: is_DocGenError_iff)
    with cs w show ?thesis by (intro exI [of _ "bun_manifest b"] exI [of _ cs] exI [of _ n]) simp
  qed
qed

lemma unsuccessful_run_stores_initial_part_witness:
  "\<exists>(m :: manifest) cs n. length cs = 2 \<and> n < 2 \<and>
    bucket_writes ''out'' (snd (process_request (live_ports ex_env_full ex_pd ex_js ex_libs (\<lambda>_. []) ex_settings)
      ex_request ''t'' ex_world)) =
      bucket_writes ''out'' ex_world @ take n (planned_writes ex_request m cs)"
proof -
  let ?h = "process_request (live_ports ex_env_full ex_pd ex_js ex_libs (\<lambda>_. []) ex_settings) ex_request ''t'' ex_world"
  obtain x w' where h: "?h = (x, w')" by (cases ?h)
  have "case fst ?h of Inr r \<Rightarrow> res_status r = FAILED | Inl _ \<Rightarrow> False" by code_simp
  then have f: "\<And>r. x = Inr r \<Longrightarrow> res_status r = FAILED" and ok: "is_ok x"
    by (auto simp: h is_ok_def split: sum.splits)
  have "length (requested_formats ex_request) = 2" by code_simp
  moreover have "set_output_bucket ex_settings = ''out''" by (simp add: ex_settings_def)
  ultimately obtain m :: manifest and cs n where
    "length cs = 2" "n = 0 \<or> n < 2"
    "bucket_writes ''out'' w' = bucket_writes ''out'' ex_world @ take n (planned_writes ex_request m cs)"
    using unsuccessful_run_stores_initial_part [OF h f] ok by (metis (no_types, lifting))
  with h show ?thesis by (intro exI [of _ m] exI [of _ cs] exI [of _ n]) auto
qed

text \<open>
  C29. A requested format that the template does not support, or that its engine has no renderer
  for, is reported as the permanent failure \<open>UNSUPPORTED_FORMAT\<close> before anything is validated,
  rendered or stored: the world is the one that the fetch left.
\<close>

theorem unsupported_format_stops_early:
  fixes E pd js L sha cfg
  defines "P \<equiv> live_ports E pd js L sha cfg"
  assumes "p_fetch P (req_template_uri req) w = (Inr b, w1)" "fmt \<in> set (req_outputs req)"
    and "fmt \<notin> set (man_supported_formats (bun_manifest b)) \<or> registry_get (man_engine (bun_manifest b)) fmt = None"
  shows "\<exists>msg. process_request P req g w =
    (Inr (failure_result req ''UNSUPPORTED_FORMAT'' msg True g (Some (man_version (bun_manifest b)))), w1)"
proof -
  have "fmt \<notin> set (man_supported_formats (bun_manifest b)) \<or>
      p_get_renderer P (man_engine (bun_manifest b)) fmt = None"
    using assms(4) by (simp add: P_def live_ports_def)
  from live.format_gate [OF assms(2,3) [unfolded P_def] this [unfolded P_def]] show ?thesis
    by (fastforce simp: P_def failure_from_error_def)
qed

lemma unsupported_format_stops_early_witness:
  "\<exists>msg w1. process_request (live_ports ex_env ex_pd ex_js ex_libs (\<lambda>_. []) ex_settings)
      (ex_request\<lparr>req_outputs := [XLSX]\<rparr>) ''t'' ex_world =
    (Inr (failure_result (ex_request\<lparr>req_outputs := [XLSX]\<rparr>) ''UNSUPPORTED_FORMAT'' msg True ''t'' (Some ''1'')), w1)"
proof -
  let ?P = "live_ports ex_env ex_pd ex_js ex_libs (\<lambda>_. []) ex_settings"
  have "fst (p_fetch ?P (req_template_uri ex_request) ex_world) = Inr ex_bundle" by code_simp
  then obtain w1 where "p_fetch ?P (req_template_uri (ex_request\<lparr>req_outputs := [XLSX]\<rparr>)) ex_world = (Inr ex_bundle, w1)"
    by (cases "p_fetch ?P (req_template_uri ex_request) ex_world") simp
  from unsupported_format_stops_early [OF this, of XLSX "''t''"] show ?thesis
    by (auto simp: ex_bundle_def ex_manifest_def)
qed

text \<open>
  Data that do not validate are reported as the permanent failure \<open>VALIDATION_ERROR\<close> before
  anything is rendered or stored.
\<close>

theorem invalid_data_stops_early:
  fixes E pd js L sha cfg
  defines "P \<equiv> live_ports E pd js L sha cfg"
  assumes "p_fetch P (req_template_uri req) w = (Inr b, w1)"
    and "list_all (\<lambda>fmt. fmt \<in> set (man_supported_formats (bun_manifest b)) \<and>
      registry_get (man_engine (bun_manifest b)) fmt \<noteq> None) (req_outputs req)"
    and "validate js (req_data req) (man_required_fields (bun_manifest b)) = Inl (DocGenError cls msg)"
  shows "process_request P req g w =
    (Inr (failure_result req ''VALIDATION_ERROR'' (if msg = [] then ''SchemaValidationError'' else msg) True g
      (Some (man_version (bun_manifest b)))), w1)"
proof -
  have "\<exists>rs. check_formats P (bun_manifest b) (requested_formats req) [] = Inr rs"
    using assms(3) by (intro check_formats_accepts) (auto simp: list_all_iff P_def live_ports_def)
  then obtain rs where "check_formats P (bun_manifest b) (requested_formats req) [] = Inr rs" ..
  moreover have "p_validate P (req_data req) (man_required_fields (bun_manifest b)) = Inl (DocGenError cls msg)"
    using assms(4) by (simp add: P_def live_ports_def)
  ultimately show ?thesis
    using live.validation_gate [of E pd js L sha cfg req w b w1 rs cls msg g] assms(2)
    by (simp add: P_def failure_from_error_def)
qed

lemma invalid_data_stops_early_witness:
  "\<exists>w1. process_request (live_ports ex_env_strict ex_pd ex_js_strict ex_libs (\<lambda>_. []) ex_settings)
      ex_request ''t'' ex_world =
    (Inr (failure_result ex_request ''VALIDATION_ERROR'' ''data invalid at <root>: missing'' True ''t'' (Some ''1'')), w1)"
proof -
  let ?P = "live_ports ex_env_strict ex_pd ex_js_strict ex_libs (\<lambda>_. []) ex_settings"
  let ?b = "\<lparr>bun_manifest = ex_strict_manifest, bun_root = [''tmp'', ''c'', ''inv'']\<rparr>"
  have "fst (p_fetch ?P (req_template_uri ex_request) ex_world) = Inr ?b" by code_simp
  then obtain w1 where fetched: "p_fetch ?P (req_template_uri ex_request) ex_world = (Inr ?b, w1)"
    by (cases "p_fetch ?P (req_template_uri ex_request) ex_world") simp
  have "validate ex_js_strict (req_data ex_request) (man_required_fields (bun_manifest ?b)) =
      Inl (DocGenError SchemaValidationError ''data invalid at <root>: missing'')" by code_simp
  moreover have "list_all (\<lambda>fmt. fmt \<in> set (man_supported_formats (bun_manifest ?b)) \<and>
      registry_get (man_engine (bun_manifest ?b)) fmt \<noteq> None) (req_outputs ex_request)" by code_simp
  ultimately show ?thesis
    using invalid_data_stops_early [OF fetched, of SchemaValidationError "''data invalid at <root>: missing''" "''t''"]
    by (simp add: ex_strict_manifest_def ex_manifest_def)
qed

text \<open>
  C34. Every result is about its request: it carries the request's id and metadata; a success
  has a template version and no error, a failure an error and no artifacts; and the failures
  that the code classifies always come back as results, never as exceptions.
\<close>

theorem results_are_well_formed:
  fixes E pd js L sha cfg
  assumes "process_request (live_ports E pd js L sha cfg) req g w = (x, w')"
  shows "case x of Inr r \<Rightarrow> result_ok req r | Inl e \<Rightarrow> \<not> is_DocGenError e"
  using assms live.results_ok [of E pd js L sha cfg] live.classified_never_escape [of E pd js L sha cfg]
  by (auto split: sum.splits)

lemma results_are_well_formed_witness:
  "case process_request (live_ports ex_env ex_pd ex_js ex_libs (\<lambda>_. []) ex_settings) ex_request ''t'' ex_world of
     (Inr r, _) \<Rightarrow> result_ok ex_request r | (Inl e, _) \<Rightarrow> \<not> is_DocGenError e"
  using results_are_well_formed [OF surjective_pairing]
  by (simp add: case_prod_unfold)

end
