(* ===== verification/TemplateClaims.thy ===== *)
theory TemplateClaims
  imports Examples
begin

text \<open>
  The properties of the template store: a fetch brings the template, all of it and nothing
  else, stays inside the cache, and leaves no trace when it fails; and the two situations in
  which the cache answers for a prefix it does not hold.
\<close>

lemma ex_quiet: "quiet ex_env"
  by (simp add: quiet_def ex_env_def)

lemma ex_quiet_update: "quiet (ex_env\<lparr>env_get := g\<rparr>)"
  by (simp add: quiet_def ex_env_def)

text \<open>
  The fetch of a template that is not cached succeeds when the bucket answers, the listed
  keys are regular relative paths with a valid manifest among them, and nothing is in the way
  on the disk; afterwards the template's directory holds exactly the objects below the prefix,
  each file with the bytes of its object, and no other file or directory.
\<close>

theorem fetch_brings_the_template:
  assumes "quiet E" "wf_fs (disk w)" "serves E (ts_bucket S) pre pages obj"
    and "parse_s3_uri uri = Inr (ts_bucket S, pre)" "pre \<noteq> []" "local_dir_for S pre = Inr dir"
    and "regular_layout pre (concat pages)" "pre @ ''manifest.json'' \<in> set (concat pages)"
    and "room_for E (ts_cache_dir S) dir (disk w)"
    and "model_validate_json pd ''Manifest'' (decode_manifest pd) (obj (pre @ ''manifest.json'')) = Inr m"
  shows "\<exists>w'. fetch E pd S uri w = (Inr \<lparr>bun_manifest = m, bun_root = dir\<rparr>, w') \<and>
    (\<forall>p. p \<noteq> [] \<longrightarrow> node_at (disk w') (dir @ p) = mirror_node pre obj (concat pages) p)"
  using fetch_mirror [OF assms(1-7) _ assms(9)] assms(8,10) by (simp add: manifest_name_def)

lemma ex_room: "room_for ex_env (ts_cache_dir ex_store) [''tmp'', ''c'', ''inv''] (disk ex_world)"
  by (simp add: room_for_def ex_env_def ex_store_def ex_world_def is_file_def path_exists_def node_at_def strict_prefix_def)

lemma fetch_brings_the_template_witness:
  "\<exists>w'. fetch ex_env ex_pd ex_store ''s3://tpl/inv/'' ex_world = (Inr ex_bundle, w') \<and>
    node_at (disk w') [''tmp'', ''c'', ''inv'', ''template.html''] = Some (File ''<p>'')"
proof -
  have "serves ex_env (ts_bucket ex_store) ''inv/'' ex_pages ex_obj"
    by (simp add: serves_def ex_env_def)
  moreover have "wf_fs (disk ex_world)" by (simp add: wf_fs_def ex_world_def)
  moreover have "parse_s3_uri ''s3://tpl/inv/'' = Inr (ts_bucket ex_store, ''inv/'')"
    "local_dir_for ex_store ''inv/'' = Inr [''tmp'', ''c'', ''inv'']"
    "regular_layout ''inv/'' (concat ex_pages)" "''inv/'' @ ''manifest.json'' \<in> set (concat ex_pages)"
    "model_validate_json ex_pd ''Manifest'' (decode_manifest ex_pd) (ex_obj (''inv/'' @ ''manifest.json'')) = Inr ex_manifest"
    "mirror_node ''inv/'' ex_obj (concat ex_pages) [''template.html''] = Some (File ''<p>'')"
    by code_simp+
  ultimately obtain w' where
    "fetch ex_env ex_pd ex_store ''s3://tpl/inv/'' ex_world = (Inr \<lparr>bun_manifest = ex_manifest, bun_root = [''tmp'', ''c'', ''inv'']\<rparr>, w')"
    "node_at (disk w') ([''tmp'', ''c'', ''inv''] @ [''template.html'']) = Some (File ''<p>'')"
    using fetch_brings_the_template [OF ex_quiet _ _ _ _ _ _ _ ex_room] by (metis list.distinct(1))
  then show ?thesis by (auto simp: ex_bundle_def)
qed

text \<open>
  C20. A fetch writes nowhere outside the cache directory, whatever uri it is asked for,
  whatever keys the bucket lists and whatever else uses the cache meanwhile: outside, only
  missing directories on the way to the cache are created.
\<close>

theorem fetch_stays_in_cache:
  assumes "others_confined E (ts_cache_dir S)" "fetch E pd S uri w = (x, w')" "\<not> prefix (ts_cache_dir S) p"
  shows "node_at (disk w') p = node_at (disk w) p \<or>
    node_at (disk w) p = None \<and> node_at (disk w') p = Some Dir \<and> strict_prefix p (ts_cache_dir S)"
  using preservesD [OF confined_fetch [OF assms(1)] assms(2)] assms(3)
  by (simp add: disk_confined_def confined_def)

lemma fetch_stays_in_cache_witness:
  "node_at (disk (snd (fetch ex_env_hostile ex_pd ex_store ''s3://tpl/inv/'' ex_world))) [''etc'', ''passwd''] = None"
proof -
  have q: "others_confined ex_env_hostile (ts_cache_dir ex_store)"
    by (rule quiet_confined) (simp add: quiet_def ex_env_hostile_def ex_env_def)
  have "\<not> prefix (ts_cache_dir ex_store) [''etc'', ''passwd'']" by (simp add: ex_store_def)
  from fetch_stays_in_cache [OF q surjective_pairing this, of ex_pd "''s3://tpl/inv/''" ex_world]
  show ?thesis by (auto simp: ex_world_def node_at_def ex_store_def strict_prefix_def)
qed

text \<open>
  C21. A download that fails, at whatever point, leaves the disk as it was: no file of the cache
  or elsewhere appears, changes or vanishes, the scratch directory is gone, and only
  directories on the way to the cache and to the template may be new.
\<close>

theorem failed_download_changes_no_file:
  assumes "quiet E" "wf_fs (disk w)" "download_prefix E S pre dir w = (Inl e, w')"
  shows "node_at (disk w') p = node_at (disk w) p \<or>
    node_at (disk w) p = None \<and> node_at (disk w') p = Some Dir \<and> (prefix p (ts_cache_dir S) \<or> prefix p (butlast dir))"
  using download_prefix_keeps_files [OF assms] by (auto simp: adds_dirs_def)

lemma failed_download_changes_no_file_witness:
  "node_at (disk (snd (download_prefix ex_env_hostile ex_store ''inv/'' [''tmp'', ''c'', ''inv''] ex_world)))
     [''tmp'', ''c'', ''tmp0''] = None"
proof -
  let ?h = "download_prefix ex_env_hostile ex_store ''inv/'' [''tmp'', ''c'', ''inv''] ex_world"
  have "\<not> is_ok (fst ?h)" by code_simp
  then obtain e w' where h: "?h = (Inl e, w')" by (cases ?h) (auto simp: is_ok_def split: sum.splits)
  moreover have "quiet ex_env_hostile" by (simp add: quiet_def ex_env_hostile_def ex_env_def)
  moreover have "wf_fs (disk ex_world)" by (simp add: wf_fs_def ex_world_def)
  ultimately show ?thesis
    using failed_download_changes_no_file [of ex_env_hostile ex_world ex_store "''inv/''" "[''tmp'', ''c'', ''inv'']" e w' "[''tmp'', ''c'', ''tmp0'']"]
    by (simp add: ex_world_def node_at_def ex_store_def)
qed

text \<open>
  C38. A directory of the cache that has no manifest, for instance the parent directory of a
  template fetched earlier, blocks its prefix for good: every fetch fails and changes no file,
  although the bucket may hold the template.
\<close>

theorem directory_without_manifest_blocks_fetch:
  assumes "quiet E" "wf_fs (disk w)"
    and "parse_s3_uri uri = Inr (ts_bucket S, pre)" "local_dir_for S pre = Inr dir"
    and "is_dir (disk w) dir" "\<not> is_file (disk w) (dir @ [''manifest.json''])"
    and "fetch E pd S uri w = (x, w')"
  shows "(\<exists>e. x = Inl e) \<and> is_dir (disk w') dir \<and> \<not> is_file (disk w') (dir @ [''manifest.json''])"
proof -
  have "path_exists (disk w) dir" using assms(5) by (simp add: path_exists_iff)
  note b = fetch_blocked_directory [OF assms(1-4) this _ assms(7)]
  then have "adds_dirs [ts_cache_dir S, butlast dir] (disk w) (disk w')" "\<exists>e. x = Inl e"
    using assms(6) by (simp_all add: manifest_name_def)
  moreover from this(1) have "is_dir (disk w') dir"
    using assms(5) unfolding adds_dirs_def is_dir_def by (metis option.distinct(1))
  ultimately show ?thesis using adds_dirs_is_file assms(6) by blast
qed

lemma directory_without_manifest_blocks_fetch_witness:
  "\<not> is_ok (fst (fetch ex_env ex_pd ex_store ''s3://tpl/inv/'' \<lparr>trace = [], disk = ex_parent_disk\<rparr>))"
proof -
  let ?w = "\<lparr>trace = [], disk = ex_parent_disk\<rparr>"
  obtain x w' where h: "fetch ex_env ex_pd ex_store ''s3://tpl/inv/'' ?w = (x, w')"
    by (cases "fetch ex_env ex_pd ex_store ''s3://tpl/inv/'' ?w")
  have "wf_fs (disk ?w)" "parse_s3_uri ''s3://tpl/inv/'' = Inr (ts_bucket ex_store, ''inv/'')"
    "local_dir_for ex_store ''inv/'' = Inr [''tmp'', ''c'', ''inv'']"
    "is_dir (disk ?w) [''tmp'', ''c'', ''inv'']" "\<not> is_file (disk ?w) ([''tmp'', ''c'', ''inv''] @ [''manifest.json''])"
    by code_simp+
  from directory_without_manifest_blocks_fetch [OF ex_quiet this h] h show ?thesis by auto
qed

text \<open>
  C39. A template whose manifest is cached is served without a single call of the object store
  and without a change to the disk; and since the cache is keyed by the resolved path and not
  by the uri, a prefix with a detour \<open>x/../\<close> in front is served the cached template too, even
  though the keys below it are different keys of the bucket.
\<close>

theorem cached_template_answers_for_its_aliases:
  assumes "parse_s3_uri uri = Inr (ts_bucket S, pre)" "pre \<noteq> []" "\<not> startswith pre ''/''"
    and "local_dir_for S pre = Inr dir" "is_file (disk w) (dir @ [''manifest.json''])"
    and "clean_name x" "CHR ''/'' \<notin> set x" "CHR 0x00 \<notin> set x"
    and "parse_s3_uri uri' = Inr (ts_bucket S, x @ ''/../'' @ pre)"
  shows "snd (fetch E pd S uri w) = w \<and>
    (\<forall>b. fst (fetch E pd S uri w) = Inr b \<longrightarrow> fetch E pd S uri' w = (Inr b, w))"
proof -
  note there = assms(5) [folded manifest_name_def]
  have world: "snd (fetch E pd S uri w) = w" by (rule fetch_cached(2) [OF assms(1,2,4) there])
  have "local_dir_for S (x @ ''/../'' @ pre) = Inr dir"
    using local_dir_for_detour [OF assms(6-8,3)] assms(4) by simp
  note other = fetch_cached [OF assms(9) _ this there, of E pd] and own = fetch_cached(1) [OF assms(1,2,4) there, of E pd]
  have "fetch E pd S uri' w = (Inr b, w)" if "fst (fetch E pd S uri w) = Inr b" for b
  proof -
    have "fst (load_manifest pd (dir @ [manifest_name]) uri w) = Inr (bun_manifest b) \<and> b = \<lparr>bun_manifest = bun_manifest b, bun_root = dir\<rparr>"
      using that own by (auto simp: io_simps split: prod.splits sum.splits)
    then have "fst (load_manifest pd (dir @ [manifest_name]) uri' w) = Inr (bun_manifest b)"
      "b = \<lparr>bun_manifest = bun_manifest b, bun_root = dir\<rparr>"
      by (auto simp: load_manifest_def io_simps split: prod.splits sum.splits if_splits)
    then have "fst (fetch E pd S uri' w) = Inr b"
      using other(1) by (auto simp: io_simps split: prod.splits sum.splits)
    moreover have "snd (fetch E pd S uri' w) = w" using other(2) by simp
    ultimately show ?thesis by (simp add: prod_eq_iff)
  qed
  with world show ?thesis by blast
qed

lemma cached_template_answers_for_its_aliases_witness:
  "fetch ex_env ex_pd ex_store ''s3://tpl/x/../inv/v1/'' \<lparr>trace = [], disk = ex_parent_disk\<rparr> =
     (Inr \<lparr>bun_manifest = ex_manifest, bun_root = [''tmp'', ''c'', ''inv'', ''v1'']\<rparr>, \<lparr>trace = [], disk = ex_parent_disk\<rparr>)"
proof -
  let ?w = "\<lparr>trace = [], disk = ex_parent_disk\<rparr>"
  have "parse_s3_uri ''s3://tpl/inv/v1/'' = Inr (ts_bucket ex_store, ''inv/v1/'')" "\<not> startswith ''inv/v1/'' ''/''"
    "local_dir_for ex_store ''inv/v1/'' = Inr [''tmp'', ''c'', ''inv'', ''v1'']"
    "is_file (disk ?w) ([''tmp'', ''c'', ''inv'', ''v1''] @ [''manifest.json''])"
    "clean_name ''x''" "CHR ''/'' \<notin> set ''x''" "CHR 0x00 \<notin> set ''x''"
    "parse_s3_uri ''s3://tpl/x/../inv/v1/'' = Inr (ts_bucket ex_store, ''x'' @ ''/../'' @ ''inv/v1/'')"
    "fst (fetch ex_env ex_pd ex_store ''s3://tpl/inv/v1/'' ?w) =
      Inr \<lparr>bun_manifest = ex_manifest, bun_root = [''tmp'', ''c'', ''inv'', ''v1'']\<rparr>"
    by code_simp+
  then show ?thesis
    using cached_template_answers_for_its_aliases [of "''s3://tpl/inv/v1/''" ex_store "''inv/v1/''"] by simp
qed


text \<open>
  An \<open>s3://\<close> uri is read as its bucket and its prefix with exactly one slash at the end,
  however many slashes surround the prefix in the uri.
\<close>

theorem uri_slashes_do_not_matter:
  assumes "CHR ''/'' \<notin> set b" "b \<noteq> []" "p \<noteq> []" "hd p \<noteq> CHR ''/''" "last p \<noteq> CHR ''/''"
  shows "parse_s3_uri (''s3://'' @ b @ ''/'' @ replicate m CHR ''/'' @ p @ replicate n CHR ''/'') = Inr (b, p @ ''/'')"
  by (rule parse_s3_uri_bucket_prefix [OF assms])

lemma uri_slashes_do_not_matter_witness:
  "parse_s3_uri ''s3://tpl//inv///'' = Inr (''tpl'', ''inv/'')"
  using uri_slashes_do_not_matter [of "''tpl''" "''inv''" 1 3] by (simp add: numeral_3_eq_3)

end
