(* ===== verification/RenderClaims.thy ===== *)
theory RenderClaims
  imports Examples
begin

text \<open>
  The properties of the renderers: every engine reads its entrypoint inside the template, fails
  in the ways that the dispatcher expects, and writes what the manifest and the data say.
\<close>

section \<open>All engines\<close>

lemma render_entry:
  assumes "render L r d b data fmt loc = Inr a"
  shows "\<exists>entry t. resolve_entrypoint (bun_manifest b) = Inr entry \<and> resolve_template_file d (bun_root b) entry = Inr t"
  using assms
  by (cases r)
    (auto simp: jinja_render_def render_html_def xlsx_render_def xlsx_content_def docx_render_def docx_content_def
      pdf_render_def pdf_content_def Let_def res_bind_Inr split: if_splits)

lemma render_bad_entry:
  assumes "resolve_entrypoint (bun_manifest b) = Inr entry"
    and "resolve_template_file d (bun_root b) entry = Inl (DocGenError cls msg)" "produces r fmt"
  shows "render L r d b data fmt loc = Inl (DocGenError cls msg)"
  using assms
  by (cases r)
    (auto simp: jinja_render_def render_html_def xlsx_render_def xlsx_content_def docx_render_def docx_content_def
      pdf_render_def pdf_content_def Let_def produces_def)

text \<open>
  C31. Whatever entrypoint a manifest declares, no engine renders from a file outside the
  template's directory: a render that succeeds has resolved its entrypoint to a file below the
  directory, and an entrypoint that leads elsewhere, or to no file, ends in the permanent
  failure \<open>TEMPLATE_NOT_FOUND\<close>.
\<close>

theorem entrypoint_stays_in_template:
  assumes "resolve_entrypoint (bun_manifest b) = Inr entry" "resolve_under (bun_root b) entry = Inr t"
    and "produces r fmt"
  shows "if prefix (bun_root b) t \<and> is_file d t then \<forall>a. render L r d b data fmt loc = Inr a \<longrightarrow> ra_format a = fmt
    else \<exists>msg. render L r d b data fmt loc = Inl (DocGenError TemplateNotFoundError msg)"
  using resolve_template_file_rejects [OF assms(2), of d] render_bad_entry [OF assms(1) _ assms(3), of d]
    render_names [of L r d b data fmt loc]
  by auto

lemma entrypoint_stays_in_template_witness:
  "\<exists>msg. render ex_libs PdfFormRenderer [([''etc''], Dir), ([''etc'', ''passwd''], File ''root'')]
     \<lparr>bun_manifest = ex_manifest\<lparr>man_entrypoint := Some ''../../../etc/passwd''\<rparr>, bun_root = [''tmp'', ''c'', ''inv'']\<rparr>
     [] PDF None = Inl (DocGenError TemplateNotFoundError msg)"
proof -
  let ?b = "\<lparr>bun_manifest = ex_manifest\<lparr>man_entrypoint := Some ''../../../etc/passwd''\<rparr>, bun_root = [''tmp'', ''c'', ''inv'']\<rparr>"
  have "resolve_entrypoint (bun_manifest ?b) = Inr ''../../../etc/passwd''"
    "resolve_under (bun_root ?b) ''../../../etc/passwd'' = Inr [''etc'', ''passwd'']"
    "produces PdfFormRenderer PDF" by code_simp+
  from entrypoint_stays_in_template [OF this] show ?thesis by simp
qed

text \<open>
  C32. A render in the pool ends with the requested artifact, with a classified failure, or with
  a cancellation: a broken pool and whatever a library raises become the transient
  \<open>RENDER_ERROR\<close>; and the registry sends a format only to a renderer that can produce it.
\<close>

theorem renders_are_classified:
  assumes "registry_get engine fmt = Some r" "run_in_pool E L r b data fmt loc w = (x, w')"
  shows "produces r fmt \<and>
    (case x of Inr a \<Rightarrow> ra_format a = fmt \<and> ra_filename a = filename_for (bun_manifest b) fmt
     | Inl e \<Rightarrow> is_DocGenError e \<or> e = CancelledError)"
  using registry_produces [OF assms(1)] run_in_pool_Inl [of E L r b data fmt loc w] pool.run_names assms(2)
  by (auto simp: is_Exception_def split: sum.splits)

lemma renders_are_classified_witness:
  "case fst (run_in_pool (ex_env\<lparr>env_pool := (\<lambda>_. Inl (BrokenExecutor ''died''))\<rparr>) ex_libs JinjaHtmlRenderer ex_bundle [] PDF None ex_world) of
     Inr a \<Rightarrow> ra_format a = PDF | Inl e \<Rightarrow> is_DocGenError e \<or> e = CancelledError"
proof -
  have "registry_get JINJA_HTML PDF = Some JinjaHtmlRenderer" by code_simp
  from renders_are_classified [where E = "ex_env\<lparr>env_pool := (\<lambda>_. Inl (BrokenExecutor ''died''))\<rparr>" and L = ex_libs
      and b = ex_bundle and data = "[]" and loc = None and w = ex_world, OF this surjective_pairing]
  show ?thesis by (auto split: sum.splits)
qed

section \<open>PDF forms\<close>

text \<open>
  C26. A comb shows its value one character per box from the left: read off the boxes, the
  filled form gives the value back, cut to the number of boxes, and a shorter value leaves the
  remaining boxes empty.
\<close>

theorem comb_boxes_spell_the_value:
  assumes "resolve_values (m1 @ (key, CombFields names) # m2) declared data [] = Inr vs"
    and "map_of data key = Some v" "distinct names"
    and "list_all (\<lambda>kt. list_all (\<lambda>n. n \<notin> set (target_names (snd kt))) names) m2"
  shows "concat (map (\<lambda>n. the (map_of vs n)) names) = take (length names) (comb_characters v) \<and>
    list_all (\<lambda>i. map_of vs (names ! i) = Some []) [length (comb_characters v)..<length names]"
proof -
  have box: "map_of vs (names ! i) = Some (if i < length (comb_characters v) then [comb_characters v ! i] else [])"
    if i: "i < length names" for i
  proof -
    have "list_all (\<lambda>kt. names ! i \<notin> set (target_names (snd kt))) m2"
      using assms(4) i by (auto simp: list_all_iff)
    from resolve_values_entry [OF assms(1,2) _ this] i show ?thesis
      by (auto simp: put_target_def fill_comb_nth [OF assms(3) i])
  qed
  have "map (\<lambda>n. the (map_of vs n)) names = map (\<lambda>n. the (map_of (fill_comb [] names (comb_characters v)) n)) names"
    by (rule nth_equalityI) (simp_all add: box fill_comb_nth [OF assms(3)])
  then have "concat (map (\<lambda>n. the (map_of vs n)) names) = take (length names) (comb_characters v)"
    by (simp only: fill_comb_spells [OF assms(3)])
  then show ?thesis using box by (simp add: list_all_iff)
qed

lemma comb_boxes_spell_the_value_witness:
  "\<exists>vs. resolve_values [(''ean'', CombFields [''b1'', ''b2'', ''b3''])] ex_boxes [(''ean'', PyStr ''54'')] [] = Inr vs \<and>
    concat (map (\<lambda>n. the (map_of vs n)) [''b1'', ''b2'', ''b3'']) = ''54''"
proof -
  have "resolve_values ([] @ (''ean'', CombFields [''b1'', ''b2'', ''b3'']) # []) ex_boxes [(''ean'', PyStr ''54'')] [] =
      Inr [(''b1'', ''5''), (''b2'', ''4''), (''b3'', [])]" by code_simp
  from comb_boxes_spell_the_value [OF this, of "PyStr ''54''"] show ?thesis
    using \<open>resolve_values _ _ _ _ = _\<close> by (simp add: comb_characters_def)
qed

text \<open>
  Exactly the fields that the manifest maps a supplied key to are set: a field it does not
  map, or maps to a key that the data lack, keeps the form's own value.
\<close>

theorem only_supplied_fields_are_set:
  assumes "resolve_values mapping declared data [] = Inr vs"
  shows "map_of vs n \<noteq> None \<longleftrightarrow>
    (\<exists>(key, target) \<in> set mapping. n \<in> set (target_names target) \<and> map_of data key \<noteq> None)"
proof -
  have "map_of vs n \<noteq> None \<longleftrightarrow> n \<in> set (supplied data mapping)"
    using resolve_values_keys [OF assms] by (simp add: map_of_eq_None_iff)
  then show ?thesis by (auto simp: supplied_def)
qed

lemma only_supplied_fields_are_set_witness:
  "\<exists>vs. resolve_values [(''a'', OneField ''b1''), (''z'', OneField ''b2'')] ex_boxes [(''a'', PyInt 7)] [] = Inr vs \<and>
    map_of vs ''b2'' = None"
proof -
  have r: "resolve_values [(''a'', OneField ''b1''), (''z'', OneField ''b2'')] ex_boxes [(''a'', PyInt 7)] [] =
      Inr [(''b1'', ''7'')]" by code_simp
  from only_supplied_fields_are_set [OF r, of "''b2''"] r show ?thesis by simp
qed

text \<open>
  A manifest that maps a key to a field the form does not declare is rejected for good,
  whether or not the data supply the key; with every field declared, the values are resolved.
\<close>

theorem undeclared_field_is_permanent:
  "if list_all (\<lambda>kt. set (target_names (snd kt)) \<subseteq> fst ` set declared) mapping
   then \<exists>vs. resolve_values mapping declared data [] = Inr vs
   else \<exists>msg. resolve_values mapping declared data [] = Inl (DocGenError TemplateNotFoundError msg)"
proof (cases "list_all (\<lambda>kt. set (target_names (snd kt)) \<subseteq> fst ` set declared) mapping")
  case True
  then show ?thesis using resolve_values_total by simp
next
  case False
  then obtain key target n where "(key, target) \<in> set mapping" "n \<in> set (target_names target)" "n \<notin> fst ` set declared"
    unfolding list_all_iff by fastforce
  from resolve_values_undeclared [OF this] False show ?thesis by simp
qed

text \<open>
  A checkbox is set to a state the form knows: to \<open>/Off\<close> exactly when the value does not
  count as checked, and otherwise to one of the field's own states.
\<close>

theorem checkbox_states:
  assumes "pf_type field = Some ''/Btn''" "pf_states field = Some states" "\<exists>s \<in> set states. s \<noteq> ''/Off''"
  shows "(coerce field v = ''/Off'' \<longleftrightarrow> \<not> is_checked v) \<and> (is_checked v \<longrightarrow> coerce field v \<in> set states)"
  using coerce_checkbox [OF assms(1)] assms(2,3) by blast

lemma checkbox_states_witness:
  "coerce \<lparr>pf_type = Some ''/Btn'', pf_states = Some [''/Off'', ''/Oui'']\<rparr> (PyStr '' OUI '') = ''/Oui''"
proof -
  let ?f = "\<lparr>pf_type = Some ''/Btn'', pf_states = Some [''/Off'', ''/Oui'']\<rparr>"
  have "is_checked (PyStr '' OUI '')" by code_simp
  with checkbox_states [of ?f "[''/Off'', ''/Oui'']" "PyStr '' OUI ''"] show ?thesis by auto
qed

end
