(* ===== verification/PackageClaims.thy ===== *)
theory PackageClaims
  imports Examples
begin

text \<open>
  The properties of workbooks and OOXML packages: where the cells of a block go, what comes
  last, and that neither the clock nor the order of the members reaches the bytes.
\<close>

section \<open>Workbooks\<close>

text \<open>
  C22. A block writes for the band of rows and columns reserved for it and no further: each write is to
  a cell of a supplied row and a declared column, or to the top left cell of a merged range that covers
  such a cell, which may itself lie outside the band; no write is an empty string. The supplied rows
  fit the capacity, and a block that asks to hide its unused rows hides exactly the reserved rows
  that the data leave unused; any other block hides none.
\<close>

theorem block_stays_in_its_band:
  assumes "apply_block X raw m data b log = (Inr u, log')"
  shows "\<exists>rows capacity sheet r0 c0 ws. block_rows data b = Inr rows \<and> block_capacity m b = Inr capacity \<and>
    int (length rows) \<le> capacity \<and> resolve_anchor X raw b = Inr (sheet, r0, c0) \<and>
    log' = log @ ws @ (if blk_hide_unused_rows b
      then map (HideRow sheet) [r0 + int (length rows)..r0 + capacity - 1] else []) \<and>
    list_all (band_write X raw sheet r0 (r0 + int (length rows)) c0 (c0 + int (length (blk_columns b)))) ws"
  using apply_block_band [OF assms] by metis

lemma block_stays_in_its_band_witness:
  "\<exists>ws. snd (apply_block ex_xl [] ex_manifest ex_rows_data ex_block []) = ws @ [HideRow ActiveSheet 2] \<and>
    list_all (band_write ex_xl [] ActiveSheet 1 2 1 3) ws"
proof -
  let ?h = "apply_block ex_xl [] ex_manifest ex_rows_data ex_block []"
  have "is_ok (fst ?h)" by code_simp
  then obtain u log' where h: "?h = (Inr u, log')" by (cases ?h) (auto simp: is_ok_def split: sum.splits)
  have "block_rows ex_rows_data ex_block = Inr [PyDict [(''a'', PyInt 1), (''b'', PyStr [])]]"
    "block_capacity ex_manifest ex_block = Inr 2" "resolve_anchor ex_xl [] ex_block = Inr (ActiveSheet, 1, 1)"
    "blk_hide_unused_rows ex_block" "length (blk_columns ex_block) = 2" by code_simp+
  with block_stays_in_its_band [OF h] h show ?thesis by auto
qed

text \<open>
  C23. In a workbook without merged cells a block is written cell by cell as the plan says: row
  \<open>i\<close>, column \<open>j\<close> of the band gets the value of the \<open>j\<close>-th declared key in the \<open>i\<close>-th supplied
  row, an absent or empty one as a cleared cell.
\<close>

theorem block_writes_are_the_plan:
  assumes "apply_block X raw m data b log = (Inr u, log')" "\<And>log sheet r c. \<not> xl_is_merged X raw log sheet r c"
  shows "\<exists>rows capacity sheet r0 c0. block_rows data b = Inr rows \<and> block_capacity m b = Inr capacity \<and>
    resolve_anchor X raw b = Inr (sheet, r0, c0) \<and>
    log' = log @ rows_plan sheet r0 c0 (blk_columns b) rows @ (if blk_hide_unused_rows b
      then map (HideRow sheet) [r0 + int (length rows)..r0 + capacity - 1] else [])"
  using apply_block_plan [OF assms] by metis

lemma block_writes_are_the_plan_witness:
  "snd (apply_block ex_xl [] ex_manifest ex_rows_data ex_block []) =
     rows_plan ActiveSheet 1 1 [''a'', ''b''] [PyDict [(''a'', PyInt 1), (''b'', PyStr [])]] @ [HideRow ActiveSheet 2]"
proof -
  let ?h = "apply_block ex_xl [] ex_manifest ex_rows_data ex_block []"
  have "is_ok (fst ?h)" by code_simp
  then obtain u log' where h: "?h = (Inr u, log')" by (cases ?h) (auto simp: is_ok_def split: sum.splits)
  have "\<not> xl_is_merged ex_xl [] log sheet r c" for log sheet r c by (simp add: ex_xl_def)
  note plan = block_writes_are_the_plan [OF h this]
  have "block_rows ex_rows_data ex_block = Inr [PyDict [(''a'', PyInt 1), (''b'', PyStr [])]]"
    "block_capacity ex_manifest ex_block = Inr 2" "resolve_anchor ex_xl [] ex_block = Inr (ActiveSheet, 1, 1)"
    "blk_hide_unused_rows ex_block" "blk_columns ex_block = [''a'', ''b'']" by code_simp+
  with plan h show ?thesis by auto
qed

text \<open>
  More rows than the template reserves are the permanent failure \<open>VALIDATION_ERROR\<close>, and
  nothing of the block is written.
\<close>

theorem too_many_rows_write_nothing:
  assumes "block_rows data b = Inr rows" "block_capacity m b = Inr capacity" "capacity < int (length rows)"
  shows "\<exists>msg. apply_block X raw m data b log = (Inl (DocGenError SchemaValidationError msg), log)"
  by (rule apply_block_overflow [OF assms])

lemma too_many_rows_write_nothing_witness:
  "\<exists>msg. apply_block ex_xl [] ex_manifest [(''rows'', PyList [PyDict [], PyDict [], PyDict []])] ex_block [] =
     (Inl (DocGenError SchemaValidationError msg), [])"
  by (rule too_many_rows_write_nothing [of _ _ "[PyDict [], PyDict [], PyDict []]" _ 2]) code_simp+

text \<open>
  The explicit cells win: in a filled workbook they are the last cell writes, one per item
  of \<open>data["cells"]\<close> and in its order, after the defined names and the blocks; a defined name is
  never written when a block takes its rows from the same key; and the document properties are
  fixed at the end.
\<close>

theorem explicit_cells_come_last:
  assumes "fill_workbook X raw m data [] = (Inr u, log)"
  shows "\<exists>names blocks items. log = names @ blocks @ map cell_write items @ [SetProperties xlsx_properties] \<and>
    list_all (name_write data (map blk_source (man_blocks m))) names \<and> list_all is_block_write blocks \<and>
    cells_items (data_cells data) = Inr items"
  using fill_workbook_log [OF assms] by metis

lemma explicit_cells_come_last_witness:
  "\<exists>before. snd (fill_workbook ex_xl [] (ex_manifest\<lparr>man_blocks := [ex_block]\<rparr>) ex_rows_data []) =
     before @ [SetRef (NamedSheet ''S'') (PyStr ''A9'') (PyInt 5), SetProperties xlsx_properties]"
proof -
  let ?m = "ex_manifest\<lparr>man_blocks := [ex_block]\<rparr>"
  let ?h = "fill_workbook ex_xl [] ?m ex_rows_data []"
  have "is_ok (fst ?h)" by code_simp
  then obtain u log where h: "?h = (Inr u, log)" by (cases ?h) (auto simp: is_ok_def split: sum.splits)
  have "cells_items (data_cells ex_rows_data) = Inr [(PyStr ''S!A9'', PyInt 5)]"
    "map cell_write [(PyStr ''S!A9'', PyInt 5)] = [SetRef (NamedSheet ''S'') (PyStr ''A9'') (PyInt 5)]" by code_simp+
  with explicit_cells_come_last [OF h] h show ?thesis by auto
qed

text \<open>
  C40. The check of a manifest and the renderer disagree on empty strings: a block whose anchor
  name is empty next to a real anchor is accepted when the manifest is read, and then fails for
  good in every render of a workbook that declares no name \<open>""\<close>.
\<close>

theorem empty_anchor_name_is_accepted_then_fails:
  assumes "blk_anchor b = Some a" "a \<noteq> []" "blk_anchor_name b = Some []" "map_of (xl_defined_names X raw) [] = None"
    and "block_rows data b = Inr rows" "block_capacity m b = Inr capacity" "int (length rows) \<le> capacity"
  shows "exactly_one_anchor b \<and>
    (\<exists>msg. apply_block X raw m data b log = (Inl (DocGenError SchemaValidationError msg), log))"
  using assms empty_anchor_name_fails [OF assms(3-7)]
  by (simp add: exactly_one_anchor_def str_truthy_def)

lemma empty_anchor_name_is_accepted_then_fails_witness:
  "\<exists>msg. apply_block ex_xl [] ex_manifest ex_rows_data (ex_block\<lparr>blk_anchor_name := Some []\<rparr>) [] =
     (Inl (DocGenError SchemaValidationError msg), [])"
proof -
  let ?b = "ex_block\<lparr>blk_anchor_name := Some []\<rparr>"
  have "blk_anchor ?b = Some ''A1''" "''A1'' \<noteq> []" "blk_anchor_name ?b = Some []"
    "map_of (xl_defined_names ex_xl []) [] = None"
    "block_rows ex_rows_data ?b = Inr [PyDict [(''a'', PyInt 1), (''b'', PyStr [])]]"
    "block_capacity ex_manifest ?b = Inr 2" "int (length [PyDict [(''a'', PyInt 1), (''b'', PyStr [])]]) \<le> 2"
    by code_simp+
  from empty_anchor_name_is_accepted_then_fails [OF this] show ?thesis by blast
qed

section \<open>Packages\<close>

text \<open>
  C27. Two packages with the same parts, whose core properties differ in the two dates only,
  are repacked to the same bytes, whatever the order, the dates and the repetitions of their
  members: neither the clock nor the writer's order reaches the output.
\<close>

theorem repacking_forgets_clock_and_order:
  assumes "zip_read Z raw = Inr ms" "zip_read Z raw' = Inr ms'"
    and "regular_core a ca b ma c" "list_all (\<lambda>s. CHR ''<'' \<notin> set s) [t, u, t', u']"
    and "part ms ''docProps/core.xml'' = Some (core_xml a ca t b ma u c)"
    and "part ms' ''docProps/core.xml'' = Some (core_xml a ca t' b ma u' c)"
    and "\<And>n. n \<noteq> ''docProps/core.xml'' \<Longrightarrow> part ms n = part ms' n"
  shows "normalise_ooxml_bytes Z raw = normalise_ooxml_bytes Z raw'"
proof (rule redated_normalised)
  show "redated Z raw raw'"
    unfolding redated_def core_props_def using assms by blast
qed

lemma repacking_forgets_clock_and_order_witness:
  "normalise_ooxml_bytes ex_zip_two ''1'' = normalise_ooxml_bytes ex_zip_two ''2''"
proof (rule repacking_forgets_clock_and_order)
  let ?ms1 = "[ex_core ''2024'', \<lparr>zm_name = ''a.xml'', zm_date = [1], zm_data = ''x''\<rparr>]"
  let ?ms2 = "[\<lparr>zm_name = ''a.xml'', zm_date = [2], zm_data = ''x''\<rparr>, ex_core ''2025'']"
  show "zip_read ex_zip_two ''1'' = Inr ?ms1" "zip_read ex_zip_two ''2'' = Inr ?ms2"
    by (simp_all add: ex_zip_two_def)
  show "regular_core [] [] [] [] []" by code_simp
  show "list_all (\<lambda>s. CHR ''<'' \<notin> set s) [''2024'', ''2024'', ''2025'', ''2025'']" by code_simp
  show "part ?ms1 ''docProps/core.xml'' = Some (core_xml [] [] ''2024'' [] [] ''2024'' [])"
    "part ?ms2 ''docProps/core.xml'' = Some (core_xml [] [] ''2025'' [] [] ''2025'' [])" by code_simp+
  show "part ?ms1 n = part ?ms2 n" if "n \<noteq> ''docProps/core.xml''" for n
    using that by (simp add: part_def zip_members_def ex_core_def)
qed

text \<open>
  The repacked package has every part once, with its content (the core properties with
  their dates fixed) and a fixed member date, the content types first and the rest sorted.
\<close>

theorem repacked_members:
  assumes "zip_read Z raw = Inr ms"
  shows "\<exists>ms'. normalise_ooxml_bytes Z raw = zip_write Z ms' \<and> distinct (map zm_name ms') \<and>
    zm_name ` set ms' = zm_name ` set ms \<and>
    (content_types \<in> zm_name ` set ms \<longrightarrow> zm_name (hd ms') = content_types) \<and>
    list_all (\<lambda>m. zm_date m = fixed_zip_date \<and> undated_part ms (zm_name m) = Some (zm_data m)) ms'"
proof -
  from assms obtain ms' where
    e: "normalise_ooxml_bytes Z raw = zip_write Z ms'" and n: "map zm_name ms' = ordered_names (map fst (zip_members ms))"
    and d: "list_all (\<lambda>m. zm_date m = fixed_zip_date \<and> undated_part ms (zm_name m) = Some (zm_data m)) ms'"
    by (rule normalise_ooxml_members)
  have keys: "distinct (map fst (zip_members ms))" "set (map fst (zip_members ms)) = zm_name ` set ms"
    using zip_members_keys [of ms] by simp_all
  have names: "zm_name ` set ms' = zm_name ` set ms" using arg_cong [OF n, of set] keys(2) by simp
  have first: "zm_name (hd ms') = content_types" if c: "content_types \<in> zm_name ` set ms"
  proof -
    have "ms' \<noteq> []" using names c by auto
    then have "zm_name (hd ms') = hd (map zm_name ms')" by (simp add: hd_map)
    moreover have "content_types \<in> set (map fst (zip_members ms))" unfolding keys(2) by (rule c)
    ultimately show ?thesis unfolding n using ordered_names_first by metis
  qed
  have "distinct (map zm_name ms')" using ordered_names_distinct [OF keys(1)] n by simp
  with e names first d show ?thesis by (intro exI [of _ ms']) simp
qed

lemma repacked_members_witness:
  "\<exists>ms'. normalise_ooxml_bytes ex_zip ''x'' = zip_write ex_zip ms' \<and> zm_name ` set ms' = {''a.xml''}"
proof -
  have "zip_read ex_zip ''x'' = Inr [\<lparr>zm_name = ''a.xml'', zm_date = [2024], zm_data = ''x''\<rparr>]" by (simp add: ex_zip_def)
  from repacked_members [OF this] show ?thesis by auto
qed

end
