(* ===== verification/DomainClaims.thy ===== *)
theory DomainClaims
  imports Examples
begin

text \<open>
  The properties of the domain models and of the storage client.
\<close>

lemma ex_pydantic_ok: "pydantic_ok ex_pd"
  by (simp add: pydantic_ok_def ex_pd_def)

text \<open>
  C33. A manifest that was read has usable blocks only: each block has exactly one anchor and a
  capacity of at least one row, so that asking for its capacity never raises.
\<close>

theorem manifest_blocks_are_usable:
  assumes "decode_manifest pd v = Some m" "b \<in> set (man_blocks m)"
  shows "exactly_one_anchor b \<and> blk_columns b \<noteq> [] \<and> (\<exists>n \<ge> 1. block_capacity m b = Inr n)"
proof -
  from decode_manifest_blocks [OF assms] obtain u where u: "decode_block pd u = Some b"
    and "blocks_have_resolvable_capacity m" by blast
  then obtain n where n: "block_capacity m b = Inr n"
    using assms(2) by (auto simp: blocks_have_resolvable_capacity_def list_all_iff split: sum.splits) (metis old.sum.exhaust)
  with decode_block_wf [OF u] block_capacity_Inr_ge [OF n] show ?thesis by auto
qed

lemma manifest_blocks_are_usable_witness:
  "\<exists>m. decode_manifest ex_pd ex_blocks_value = Some m \<and> (\<exists>n \<ge> 1. block_capacity m (hd (man_blocks m)) = Inr n)"
proof -
  have "decode_manifest ex_pd ex_blocks_value \<noteq> None" by code_simp
  then obtain m where m: "decode_manifest ex_pd ex_blocks_value = Some m" by auto
  have "map_option (length \<circ> man_blocks) (decode_manifest ex_pd ex_blocks_value) = Some 1" by code_simp
  then have "hd (man_blocks m) \<in> set (man_blocks m)" using m by (cases "man_blocks m") auto
  from manifest_blocks_are_usable [OF m this] m show ?thesis by blast
qed

lemma decode_dump_result_witness:
  "decode_result ex_pd (dump_result ex_result) = Some ex_result"
  by (rule decode_dump_result [OF ex_pydantic_ok])

text \<open>
  How the storage client sorts an error of the service: a missing bucket is transient even
  though its status is 404, a missing key (by code or by status) is not found, a server error
  is transient, and any other client error stays what it was; in each case nothing else.
\<close>

theorem client_errors_are_sorted:
  "classify_client_error (ClientError code status text) key =
     (if code = ''NoSuchBucket'' then TransientStorageError (''missing bucket for '' @ key)
      else if code = ''NoSuchKey'' \<or> code = ''404'' \<or> status = Some 404 then ObjectNotFound key
      else if \<exists>st. status = Some st \<and> 500 \<le> st \<and> st < 600
        then TransientStorageError (''storage '' @ int_str (the status) @ '' for '' @ key)
      else ClientError code status text)"
  by (rule classify_client_error_cases)

text \<open>
  Signing is best effort: once the bytes are in the bucket, the upload is reported as
  stored whatever the signing of its url does, short of a cancellation; and it is reported
  with the size, the digest and the address of exactly these bytes.
\<close>

theorem stored_artifact_is_reported:
  assumes "put_bytes E bucket k c (Some t) w = (Inr u, w1)" "put_artifact E sha bucket k c t ttl w = (x, w')"
  shows "case x of
      Inr s \<Rightarrow> st_uri s = ''s3://'' @ bucket @ ''/'' @ k \<and> st_size_bytes s = int (length c) \<and> st_sha256 s = sha c
    | Inl e \<Rightarrow> e = CancelledError"
  using os.put_describes [of E sha bucket k c t ttl w] presign_never_fails_put [OF assms(1)] assms(2)
  by (auto simp: object_uri_def is_Exception_def split: sum.splits)

lemma stored_artifact_is_reported_witness:
  "case fst (put_artifact ex_env_unsigned (\<lambda>_. ''0a'') ''out'' ''k'' ''abc'' ''text/html'' (Some 60) ex_world) of
     Inr s \<Rightarrow> st_uri s = ''s3://out/k'' \<and> st_size_bytes s = 3 | Inl e \<Rightarrow> e = CancelledError"
proof -
  let ?put = "put_bytes ex_env_unsigned ''out'' ''k'' ''abc'' (Some ''text/html'') ex_world"
  have "is_ok (fst ?put)" by code_simp
  then obtain u w1 where "?put = (Inr u, w1)" by (cases ?put) (auto simp: is_ok_def split: sum.splits)
  from stored_artifact_is_reported [OF this surjective_pairing, of "\<lambda>_. ''0a''" "Some 60"]
  show ?thesis by (auto split: sum.splits)
qed

text \<open>
  The keys of a request's objects depend on the key prefix, the manifest and the format
  only, not on slashes at the joint, and differ for different formats: a retry overwrites the
  objects of the attempt before it, and no format overwrites another.
\<close>

theorem object_keys_are_deterministic_and_distinct:
  "(build_object_key (p @ replicate n CHR ''/'') (filename_for m f) = build_object_key p (filename_for m g)) = (f = g)"
proof -
  have "build_object_key (p @ replicate n CHR ''/'') (filename_for m f) = build_object_key p (filename_for m f)"
    using build_object_key_slashes [of p n 0 "filename_for m f"] by simp
  then show ?thesis by (simp add: object_key_distinct)
qed

text \<open>
  The formats of a request are its outputs without repetitions, in the order in which they
  are first named.
\<close>

theorem requested_formats_are_first_occurrences:
  "requested_formats req = rev (remdups (rev (req_outputs req)))"
  by (simp add: requested_formats_def seen_formats_filter)

end
