(* ===== verification/Config.thy ===== *)
theory Config
  imports PyText
begin

text \<open>
  \<open>core/config.py\<close>: the settings of the worker and the validator that decides whether it may
  start with them. Reading the environment and the \<open>.env\<close> file is pydantic-settings' work; the
  record holds what it has read.
\<close>

datatype environment = LOCAL | TEST | STAGING | PRODUCTION

fun environment_value :: "environment \<Rightarrow> string" where
  "environment_value LOCAL = ''local''"
| "environment_value TEST = ''test''"
| "environment_value STAGING = ''staging''"
| "environment_value PRODUCTION = ''production''"

text \<open>\<open>_get_env_file\<close>, given \<open>os.environ.get("ENV")\<close>.\<close>

definition get_env_file :: "string option \<Rightarrow> string" where
  "get_env_file var = ''.env.'' @ strip_ws (case var of None \<Rightarrow> ''local'' | Some v \<Rightarrow> v)"

record app_settings =
  ENV :: environment
  NATS_URL :: string
  DOCGEN_REQUEST_STREAM :: string
  DOCGEN_REQUEST_SUBJECT :: string
  DOCGEN_DURABLE :: string
  DOCGEN_RESULTS_STREAM :: string
  DOCGEN_RESULTS_SUBJECT_FILTER :: string
  DOCGEN_DLQ_STREAM :: string
  DOCGEN_DLQ_SUBJECT :: string
  DOCGEN_MAX_DELIVER :: int
  DOCGEN_ACK_WAIT_SECONDS :: int
  DOCGEN_NAK_RETRY_DELAY_SECONDS :: int
  RENDER_POOL_SIZE :: int
  TEMPLATE_CACHE_DIR :: string
  STORAGE_ENDPOINT :: string
  TEMPLATES_BUCKET :: string
  OUTPUT_BUCKET :: string
  STORAGE_ACCESS_KEY :: string
  STORAGE_SECRET_KEY :: string
  STORAGE_REGION :: string
  LOGGING_TOKEN :: string
  LOGGING_TRACES_URL :: string
  LOGGING_LOGS_URL :: string
  LOGGING_METRICS_URL :: string

text \<open>The defaults of the class: what the worker runs with in an empty environment.\<close>

definition default_settings :: app_settings where
  "default_settings =
     \<lparr>ENV = LOCAL, NATS_URL = [], DOCGEN_REQUEST_STREAM = ''DOCGEN_REQUESTS'',
      DOCGEN_REQUEST_SUBJECT = ''docgen.request'', DOCGEN_DURABLE = ''worker-docgen'',
      DOCGEN_RESULTS_STREAM = ''DOCGEN_RESULTS'', DOCGEN_RESULTS_SUBJECT_FILTER = ''docgen.result.>'',
      DOCGEN_DLQ_STREAM = ''DOCGEN_DLQ'', DOCGEN_DLQ_SUBJECT = ''docgen.dlq'',
      DOCGEN_MAX_DELIVER = 4, DOCGEN_ACK_WAIT_SECONDS = 600, DOCGEN_NAK_RETRY_DELAY_SECONDS = 30,
      RENDER_POOL_SIZE = 0, TEMPLATE_CACHE_DIR = ''/tmp/docgen-templates'', STORAGE_ENDPOINT = [],
      TEMPLATES_BUCKET = ''optimce-templates'', OUTPUT_BUCKET = ''optimce-documents'',
      STORAGE_ACCESS_KEY = [], STORAGE_SECRET_KEY = [], STORAGE_REGION = ''us-east-1'',
      LOGGING_TOKEN = [], LOGGING_TRACES_URL = [], LOGGING_LOGS_URL = [], LOGGING_METRICS_URL = []\<rparr>"

definition blank :: "string \<Rightarrow> bool" where
  "blank s \<longleftrightarrow> strip_ws s = []"

text \<open>The checks of \<open>validate_env_config\<close> as its statements order them.\<close>

definition check_deployed :: "app_settings \<Rightarrow> exn + unit" where
  "check_deployed S =
     (if blank (NATS_URL S) then Inl (ValueError ''NATS_URL is required in staging/production'')
      else if blank (STORAGE_ENDPOINT S) then Inl (ValueError ''STORAGE_ENDPOINT is required in staging/production'')
      else if blank (STORAGE_ACCESS_KEY S) then Inl (ValueError ''STORAGE_ACCESS_KEY is required in staging/production'')
      else if blank (STORAGE_SECRET_KEY S) then Inl (ValueError ''STORAGE_SECRET_KEY is required in staging/production'')
      else if blank (TEMPLATES_BUCKET S) \<or> blank (OUTPUT_BUCKET S)
      then Inl (ValueError ''TEMPLATES_BUCKET and OUTPUT_BUCKET are required in staging/production'')
      else Inr ())"

definition check_production :: "app_settings \<Rightarrow> exn + unit" where
  "check_production S =
     (if LOGGING_TOKEN S = [] then Inl (ValueError ''LOGGING_TOKEN required for production'')
      else if LOGGING_LOGS_URL S = [] then Inl (ValueError ''LOGGING_LOGS_URL required for production'')
      else if LOGGING_METRICS_URL S = [] then Inl (ValueError ''LOGGING_METRICS_URL required for production'')
      else Inr ())"

definition validate_env_config :: "app_settings \<Rightarrow> exn + app_settings" where
  "validate_env_config S =
     (if DOCGEN_MAX_DELIVER S < 1 then Inl (ValueError ''DOCGEN_MAX_DELIVER must be >= 1'')
      else case (if ENV S \<in> {STAGING, PRODUCTION} then check_deployed S else Inr ()) of
        Inl e \<Rightarrow> Inl e
      | Inr _ \<Rightarrow>
          (case (if ENV S = PRODUCTION then check_production S else Inr ()) of
             Inl e \<Rightarrow> Inl e
           | Inr _ \<Rightarrow> Inr S))"

section \<open>What the validator guarantees\<close>

definition deployable :: "app_settings \<Rightarrow> bool" where
  "deployable S \<longleftrightarrow>
     (\<forall>field \<in> {NATS_URL, STORAGE_ENDPOINT, STORAGE_ACCESS_KEY, STORAGE_SECRET_KEY, TEMPLATES_BUCKET, OUTPUT_BUCKET}.
        \<not> blank (field S))"

definition observable_settings :: "app_settings \<Rightarrow> bool" where
  "observable_settings S \<longleftrightarrow> (\<forall>field \<in> {LOGGING_TOKEN, LOGGING_LOGS_URL, LOGGING_METRICS_URL}. field S \<noteq> [])"

lemma check_deployed_ok: "check_deployed S = Inr () \<longleftrightarrow> deployable S"
  by (auto simp: check_deployed_def deployable_def)

lemma check_production_ok: "check_production S = Inr () \<longleftrightarrow> observable_settings S"
  by (auto simp: check_production_def observable_settings_def)

lemma validate_env_config_ok:
  "validate_env_config S = Inr S' \<longleftrightarrow>
     S' = S \<and> 1 \<le> DOCGEN_MAX_DELIVER S \<and> (ENV S \<in> {STAGING, PRODUCTION} \<longrightarrow> deployable S) \<and>
     (ENV S = PRODUCTION \<longrightarrow> observable_settings S)"
  using check_deployed_ok [of S] check_production_ok [of S]
  by (auto simp: validate_env_config_def split: sum.splits)

text \<open>A refusal is a \<open>ValueError\<close>, which pydantic reports as a \<open>ValidationError\<close>.\<close>

lemma validate_env_config_Inl: "validate_env_config S = Inl e \<Longrightarrow> \<exists>m. e = ValueError m"
  by (auto simp: validate_env_config_def check_deployed_def check_production_def split: sum.splits if_splits)

lemma default_settings_accepted: "validate_env_config default_settings = Inr default_settings"
  by (simp add: validate_env_config_ok) (simp add: default_settings_def)

text \<open>A string of white space only is blank, and nothing else is.\<close>

lemma blank_iff: "blank s \<longleftrightarrow> list_all is_space s"
proof
  assume "blank s"
  then have all: "list_all is_space (rev (dropWhile is_space s))"
    by (simp add: blank_def strip_ws_def dropWhile_eq_Nil_conv list_all_iff)
  have "dropWhile is_space s = []"
  proof (rule ccontr)
    assume ne: "dropWhile is_space s \<noteq> []"
    then have "hd (dropWhile is_space s) \<in> set (dropWhile is_space s)" by simp
    with all have "is_space (hd (dropWhile is_space s))" by (simp add: list_all_iff)
    with hd_dropWhile [OF ne] show False by contradiction
  qed
  then show "list_all is_space s" by (simp add: dropWhile_eq_Nil_conv list_all_iff)
qed (auto simp: blank_def strip_ws_def dropWhile_eq_Nil_conv list_all_iff dest: set_dropWhileD)

end
