(* ===== verification/Session.thy ===== *)
theory Session
  imports Complex_Main Config
begin

text \<open>
  The process around the message handler: what it holds of its NATS connection, and the calls it
  makes while it starts, polls and configures its consumer. As for the handler, the services that
  answer are not part of the program: the record \<open>services\<close> holds their answers as functions of
  the calls so far, any of which may raise. \<open>open_connections\<close> reads off the calls which
  connections have been opened and not drained.
\<close>

section \<open>What goes over the wire\<close>

datatype retention_policy = WORK_QUEUE | LIMITS
datatype storage_type = FILE_STORAGE

record stream_decl =
  str_name :: string
  str_subjects :: "string list"
  str_retention :: retention_policy
  str_storage :: storage_type

text \<open>
  A \<open>ConsumerConfig\<close> of nats-py: its fields in the order of the dataclass, with their values.
  Numbers are compared as Python compares them, an \<open>int\<close> with a \<open>float\<close> by their value.
\<close>

datatype config_value =
    CNone
  | CNum rat
  | CText string
  | CNums "rat list"

type_synonym consumer_config = "(string \<times> config_value) list"

definition getattr_config :: "consumer_config \<Rightarrow> string \<Rightarrow> config_value" where
  "getattr_config c n = (case map_of c n of None \<Rightarrow> CNone | Some v \<Rightarrow> v)"

text \<open>The arguments of \<open>nats.connect\<close> that are data; \<open>None\<close> leaves the servers to the library.\<close>

record connect_args =
  ca_servers :: "string list option"
  ca_reconnect_time_wait :: int
  ca_max_reconnect_attempts :: int
  ca_connect_timeout :: int

record subscription =
  sub_subject :: string
  sub_stream :: string
  sub_durable :: string
  sub_queue :: string
  sub_manual_ack :: bool
  sub_config :: consumer_config

datatype call =
    NatsConnect connect_args bool
  | AddStream stream_decl bool
  | NatsDrain nat bool
  | Sleep int bool
  | FindStream string bool
  | ConsumerInfo string string bool
  | AddConsumer string consumer_config bool
  | Subscribe subscription bool
  | TouchHeartbeat bool
  | WaitForShutdown int bool
  | SubmitRender nat bool

record process =
  calls :: "call list"
  nats_client :: "nat option"
  jetstream :: "nat option"
  queue_depth_snapshot :: "(string \<times> int) list"
  render_pool :: nat

record services =
  sv_connect :: "call list \<Rightarrow> exn + unit"
  sv_add_stream :: "call list \<Rightarrow> stream_decl \<Rightarrow> exn + unit"
  sv_drain :: "call list \<Rightarrow> exn + unit"
  sv_sleep :: "call list \<Rightarrow> exn + unit"
  sv_find_stream :: "call list \<Rightarrow> string \<Rightarrow> exn + string"
  sv_consumer_info :: "call list \<Rightarrow> string \<Rightarrow> string \<Rightarrow> exn + consumer_config \<times> int"
  sv_add_consumer :: "call list \<Rightarrow> string \<Rightarrow> consumer_config \<Rightarrow> exn + unit"
  sv_subscribe :: "call list \<Rightarrow> subscription \<Rightarrow> exn + unit"
  sv_touch :: "call list \<Rightarrow> exn + unit"
  sv_shutdown_set :: "call list \<Rightarrow> bool"
  sv_wait :: "call list \<Rightarrow> exn + unit"
  sv_submit :: "call list \<Rightarrow> nat \<Rightarrow> exn + unit"

definition succeeded :: "exn + 'a \<Rightarrow> bool" where
  "succeeded r = (case r of Inl _ \<Rightarrow> False | Inr _ \<Rightarrow> True)"

lemma succeeded_simps [simp]: "succeeded (Inr x)" "\<not> succeeded (Inl e)"
  by (simp_all add: succeeded_def)

definition perform :: "(call list \<Rightarrow> exn + 'a) \<Rightarrow> (bool \<Rightarrow> call) \<Rightarrow> (process, 'a) io" where
  "perform answer c = (\<lambda>p. (answer (calls p), p\<lparr>calls := calls p @ [c (succeeded (answer (calls p)))]\<rparr>))"

lemma perform_run [io_simps]:
  "perform answer c p = (answer (calls p), p\<lparr>calls := calls p @ [c (succeeded (answer (calls p)))]\<rparr>)"
  by (simp add: perform_def)

section \<open>Frames\<close>

text \<open>The calls that were added satisfy \<open>P\<close>; the rest of the process may have changed.\<close>

definition makes :: "(call \<Rightarrow> bool) \<Rightarrow> process \<Rightarrow> process \<Rightarrow> bool" where
  "makes P p p' \<longleftrightarrow> (\<exists>cs. calls p' = calls p @ cs \<and> list_all P cs)"

lemma makes_reflp [simp, preserves_intros]: "reflp (makes P)"
  by (auto simp: makes_def reflp_def intro: exI [of _ "[]"])

lemma makes_transp [simp, preserves_intros]: "transp (makes P)"
  by (fastforce simp: makes_def transp_def)

lemma makes_perform [preserves_intros]: "P (c True) \<Longrightarrow> P (c False) \<Longrightarrow> preserves (makes P) (perform answer c)"
  by (auto simp: preserves_def perform_def makes_def succeeded_def split: sum.splits)

lemma makes_mono: "makes P p p' \<Longrightarrow> (\<And>c. P c \<Longrightarrow> Q c) \<Longrightarrow> makes Q p p'"
  unfolding makes_def by (metis list_all_iff)

section \<open>Connections\<close>

text \<open>A connection is known by the number of the call that opened it.\<close>

definition opened :: "call list \<Rightarrow> nat \<Rightarrow> bool" where
  "opened cs i \<longleftrightarrow> i < length cs \<and> (case cs ! i of NatsConnect _ ok \<Rightarrow> ok | _ \<Rightarrow> False)"

definition open_connections :: "process \<Rightarrow> nat list" where
  "open_connections p =
     filter (\<lambda>i. opened (calls p) i \<and> NatsDrain i True \<notin> set (calls p)) [0..<length (calls p)]"

lemma open_connections_set:
  "set (open_connections p) = {i. opened (calls p) i \<and> NatsDrain i True \<notin> set (calls p)}"
  by (auto simp: open_connections_def opened_def)

lemma opened_append:
  "opened (cs @ ds) i = (if i < length cs then opened cs i else opened ds (i - length cs))"
  by (auto simp: opened_def nth_append)

lemma opened_mono: "opened cs i \<Longrightarrow> opened (cs @ ds) i"
  by (auto simp: opened_def nth_append)

lemma opened_length [simp]: "opened (cs @ c # ds) (length cs) \<longleftrightarrow> (case c of NatsConnect _ ok \<Rightarrow> ok | _ \<Rightarrow> False)"
  by (simp add: opened_def)

lemma opened_single [simp]: "opened [c] i \<longleftrightarrow> i = 0 \<and> (case c of NatsConnect _ ok \<Rightarrow> ok | _ \<Rightarrow> False)"
  by (cases i) (auto simp: opened_def)

definition is_drain :: "call \<Rightarrow> bool" where
  "is_drain c = (case c of NatsDrain _ _ \<Rightarrow> True | _ \<Rightarrow> False)"

text \<open>Without a drain an open connection stays open.\<close>

lemma is_drain_simps [simp]:
  "is_drain (NatsDrain i ok)" "\<not> is_drain (NatsConnect urls ok)" "\<not> is_drain (AddStream str ok)"
  "\<not> is_drain (Sleep sec ok)" "\<not> is_drain (FindStream subj ok)" "\<not> is_drain (ConsumerInfo s d ok)"
  "\<not> is_drain (AddConsumer s cfg ok)" "\<not> is_drain (Subscribe sub ok)" "\<not> is_drain (TouchHeartbeat ok)"
  "\<not> is_drain (WaitForShutdown sec ok)" "\<not> is_drain (SubmitRender i ok)"
  by (simp_all add: is_drain_def)

lemma stays_open:
  assumes "makes (\<lambda>c. \<not> is_drain c) p p'" "i \<in> set (open_connections p)"
  shows "i \<in> set (open_connections p')"
proof -
  obtain cs where cs: "calls p' = calls p @ cs" "\<forall>c \<in> set cs. \<not> is_drain c"
    using assms(1) by (auto simp: makes_def list_all_iff)
  then have "NatsDrain i True \<notin> set cs" by auto
  with cs assms(2) show ?thesis
    by (auto simp: open_connections_set opened_append) (auto simp: opened_def)
qed

end
