(* ===== verification/NatsSession.thy ===== *)
theory NatsSession
  imports Session
begin

text \<open>
  \<open>core/queue/init.py\<close>: the module's connection and JetStream context, the streams it declares,
  and how they are opened and closed.
\<close>

definition desired_streams :: "app_settings \<Rightarrow> stream_decl list" where
  "desired_streams S =
     [\<lparr>str_name = DOCGEN_REQUEST_STREAM S, str_subjects = [DOCGEN_REQUEST_SUBJECT S],
       str_retention = WORK_QUEUE, str_storage = FILE_STORAGE\<rparr>,
      \<lparr>str_name = DOCGEN_RESULTS_STREAM S, str_subjects = [DOCGEN_RESULTS_SUBJECT_FILTER S],
       str_retention = LIMITS, str_storage = FILE_STORAGE\<rparr>,
      \<lparr>str_name = DOCGEN_DLQ_STREAM S, str_subjects = [DOCGEN_DLQ_SUBJECT S],
       str_retention = LIMITS, str_storage = FILE_STORAGE\<rparr>]"

definition RECONNECT_TIME_WAIT_SECONDS :: int where
  "RECONNECT_TIME_WAIT_SECONDS = 2"

definition MAX_RECONNECT_ATTEMPTS :: int where
  "MAX_RECONNECT_ATTEMPTS = -1"

definition CONNECT_TIMEOUT_SECONDS :: int where
  "CONNECT_TIMEOUT_SECONDS = 5"

text \<open>The entries of \<open>NATS_URL\<close>, and the keyword arguments with \<open>servers or None\<close>.\<close>

definition nats_servers :: "app_settings \<Rightarrow> string list" where
  "nats_servers S = filter (\<lambda>u. u \<noteq> []) (map strip_ws (split_char CHR '','' (NATS_URL S)))"

definition connect_args_of :: "app_settings \<Rightarrow> connect_args" where
  "connect_args_of S =
     \<lparr>ca_servers = (if nats_servers S = [] then None else Some (nats_servers S)),
      ca_reconnect_time_wait = RECONNECT_TIME_WAIT_SECONDS, ca_max_reconnect_attempts = MAX_RECONNECT_ATTEMPTS,
      ca_connect_timeout = CONNECT_TIMEOUT_SECONDS\<rparr>"

text \<open>\<open>_nats_client = await nats.connect(...)\<close>: the name is bound when the call has returned.\<close>

definition nats_connect :: "services \<Rightarrow> connect_args \<Rightarrow> (process, unit) io" where
  "nats_connect V args = (\<lambda>p.
     and_then (perform (sv_connect V) (NatsConnect args))
       (\<lambda>_ p'. (Inr (), p'\<lparr>nats_client := Some (length (calls p))\<rparr>)) p)"

fun add_streams :: "services \<Rightarrow> stream_decl list \<Rightarrow> (process, unit) io" where
  "add_streams V [] = ret ()"
| "add_streams V (s # ss) =
     and_then (perform (\<lambda>cs. sv_add_stream V cs s) (AddStream s)) (\<lambda>_. add_streams V ss)"

definition init_nats :: "services \<Rightarrow> app_settings \<Rightarrow> (process, unit) io" where
  "init_nats V S =
     and_then (nats_connect V (connect_args_of S)) (\<lambda>_.
     and_then (\<lambda>p. (Inr (), p\<lparr>jetstream := nats_client p\<rparr>)) (\<lambda>_.
     add_streams V (desired_streams S)))"

definition close_nats :: "services \<Rightarrow> (process, unit) io" where
  "close_nats V = (\<lambda>p. case nats_client p of
     None \<Rightarrow> (Inr (), p)
   | Some i \<Rightarrow>
       and_then (perform (sv_drain V) (NatsDrain i))
         (\<lambda>_ p'. (Inr (), p'\<lparr>nats_client := None, jetstream := None\<rparr>)) p)"

definition get_nats :: "(process, nat) io" where
  "get_nats = (\<lambda>p. case nats_client p of
     None \<Rightarrow> (Inl (RuntimeError ''NATS client not initialized''), p) | Some i \<Rightarrow> (Inr i, p))"

definition get_jetstream :: "(process, nat) io" where
  "get_jetstream = (\<lambda>p. case jetstream p of
     None \<Rightarrow> (Inl (RuntimeError ''NATS JetStream not initialized''), p) | Some i \<Rightarrow> (Inr i, p))"

section \<open>The invariant of the module's state\<close>

text \<open>
  What the two globals name is a connection that was opened, and the context belongs to the
  client or to nothing.
\<close>

definition session_ok :: "process \<Rightarrow> bool" where
  "session_ok p \<longleftrightarrow>
     (\<forall>i. nats_client p = Some i \<longrightarrow> opened (calls p) i) \<and> (jetstream p = None \<or> jetstream p = nats_client p)"

lemma add_streams_frame:
  "add_streams V ss p = (r, p') \<Longrightarrow> \<exists>cs. p' = p\<lparr>calls := calls p @ cs\<rparr> \<and>
     list_all (\<lambda>c. \<exists>s ok. c = AddStream s ok) cs \<and> (succeeded r \<longrightarrow> cs = map (\<lambda>s. AddStream s True) ss)"
proof (induction ss arbitrary: p)
  case (Cons s ss)
  show ?case
  proof (cases "sv_add_stream V (calls p) s")
    case (Inl e)
    with Cons.prems have "r = Inl e" "p' = p\<lparr>calls := calls p @ [AddStream s False]\<rparr>"
      by (simp_all add: io_simps)
    then show ?thesis by (intro exI [of _ "[AddStream s False]"]) (simp, blast)
  next
    case (Inr u)
    with Cons.prems have "add_streams V ss (p\<lparr>calls := calls p @ [AddStream s True]\<rparr>) = (r, p')"
      by (simp add: io_simps)
    from Cons.IH [OF this] obtain cs where "p' = p\<lparr>calls := calls p @ AddStream s True # cs\<rparr>"
      "list_all (\<lambda>c. \<exists>s ok. c = AddStream s ok) cs" "succeeded r \<longrightarrow> cs = map (\<lambda>s. AddStream s True) ss" by auto
    then show ?thesis by (intro exI [of _ "AddStream s True # cs"]) (simp, blast)
  qed
qed (simp add: exI [of _ "[]"])

text \<open>The two ways \<open>init_nats\<close> ends: no connection, or a new one and some of the streams declared.\<close>

lemma init_nats_cases:
  assumes "init_nats V S p = (r, p')"
  obtains (refused) e where "r = Inl e" "sv_connect V (calls p) = Inl e"
      "p' = p\<lparr>calls := calls p @ [NatsConnect (connect_args_of S) False]\<rparr>"
  | (opened) cs where "sv_connect V (calls p) = Inr ()"
      "p' = p\<lparr>calls := calls p @ NatsConnect (connect_args_of S) True # cs, nats_client := Some (length (calls p)),
              jetstream := Some (length (calls p))\<rparr>"
      "list_all (\<lambda>c. \<exists>s ok. c = AddStream s ok) cs"
      "succeeded r \<Longrightarrow> cs = map (\<lambda>s. AddStream s True) (desired_streams S)"
proof (cases "sv_connect V (calls p)")
  case (Inl e)
  with assms have "r = Inl e" "p' = p\<lparr>calls := calls p @ [NatsConnect (connect_args_of S) False]\<rparr>"
    by (simp_all add: init_nats_def nats_connect_def io_simps)
  with Inl show ?thesis by (intro refused)
next
  case (Inr u)
  with assms have "add_streams V (desired_streams S)
      (p\<lparr>calls := calls p @ [NatsConnect (connect_args_of S) True], nats_client := Some (length (calls p)),
         jetstream := Some (length (calls p))\<rparr>) = (r, p')"
    by (simp add: init_nats_def nats_connect_def io_simps)
  from add_streams_frame [OF this] show ?thesis using Inr by (auto intro!: opened)
qed

lemma session_ok_init: "init_nats V S p = (r, p') \<Longrightarrow> session_ok p \<Longrightarrow> session_ok p'"
  by (erule init_nats_cases) (auto simp: session_ok_def intro: opened_mono)

lemma session_ok_close: "close_nats V p = (r, p') \<Longrightarrow> session_ok p \<Longrightarrow> session_ok p'"
  by (auto simp: close_nats_def session_ok_def io_simps split: option.splits sum.splits intro: opened_mono)

lemma init_nats_makes: "init_nats V S p = (r, p') \<Longrightarrow> makes (\<lambda>c. \<not> is_drain c) p p'"
  by (erule init_nats_cases) (auto simp: makes_def list_all_iff)

text \<open>A declaration that fails leaves its connection open.\<close>

lemma init_nats_opens:
  assumes "init_nats V S p = (r, p')" "sv_connect V (calls p) = Inr ()"
    and fresh: "NatsDrain (length (calls p)) True \<notin> set (calls p)"
  shows "length (calls p) \<in> set (open_connections p') \<and> nats_client p' = Some (length (calls p))"
  using assms(1,2)
  by (elim init_nats_cases) (use fresh in \<open>auto simp: open_connections_set list_all_iff\<close>)

end
