(* ===== verification/Numerals.thy ===== *)
theory Numerals
  imports PyText
begin

text \<open>
  Reading numbers: \<open>str.split()\<close>, \<open>int(text)\<close>, and the floor of a quotient of two integers as
  Python computes it, through the nearest binary64 number.
\<close>

section \<open>Words of a text\<close>

lemma after_word_shorter:
  assumes ne: "dropWhile is_space s \<noteq> []"
  shows "length (dropWhile (\<lambda>c. \<not> is_space c) (dropWhile is_space s)) < length s"
proof -
  let ?t = "dropWhile is_space s"
  obtain c cs where t: "?t = c # cs" using ne by (cases ?t) auto
  have "\<not> is_space c" using hd_dropWhile [OF ne] t by simp
  then have "length (dropWhile (\<lambda>c. \<not> is_space c) ?t) < length ?t"
    using length_dropWhile_le [of "\<lambda>c. \<not> is_space c" cs] by (simp add: t less_Suc_eq_le)
  also have "length ?t \<le> length s" by (rule length_dropWhile_le)
  finally show ?thesis .
qed

text \<open>\<open>s.split()\<close>: the maximal runs of characters that are not white space.\<close>

function split_ws :: "string \<Rightarrow> string list" where
  "split_ws s =
     (let t = dropWhile is_space s
      in if t = [] then []
         else takeWhile (\<lambda>c. \<not> is_space c) t # split_ws (dropWhile (\<lambda>c. \<not> is_space c) t))"
  by pat_completeness auto

termination
  by (relation "measure length") (auto simp: after_word_shorter)

declare split_ws.simps [simp del]

lemma split_ws_word:
  assumes "w \<noteq> []" "\<not> list_ex is_space w" "is_space c"
  shows "split_ws (w @ c # s) = w # split_ws s"
proof -
  have "\<not> is_space (hd w)" "\<And>x. x \<in> set w \<Longrightarrow> \<not> is_space x"
    using assms(1,2) by (auto simp: list_ex_iff)
  then have "dropWhile is_space (w @ c # s) = w @ c # s" using assms(1) by (cases w) auto
  moreover have "takeWhile (\<lambda>c. \<not> is_space c) (w @ c # s) = w" "dropWhile (\<lambda>c. \<not> is_space c) (w @ c # s) = c # s"
    using assms(2,3) by (auto simp: takeWhile_append dropWhile_append list_ex_iff)
  moreover have "split_ws (c # s) = split_ws s"
    using assms(3) by (simp add: split_ws.simps [of "c # s"] split_ws.simps [of s])
  ultimately show ?thesis using assms(1) by (simp add: split_ws.simps [of "w @ c # s"])
qed

section \<open>Decimal numerals\<close>

definition is_digit :: "char \<Rightarrow> bool" where
  "is_digit c \<longleftrightarrow> (48 :: nat) \<le> of_char c \<and> of_char c \<le> (57 :: nat)"

definition digit_value :: "char \<Rightarrow> nat" where
  "digit_value c = of_char c - 48"

text \<open>Digits, with single underscores allowed between two of them.\<close>

fun parse_digits :: "nat \<Rightarrow> string \<Rightarrow> nat option" where
  "parse_digits acc [] = Some acc"
| "parse_digits acc (c # cs) =
     (if is_digit c then parse_digits (10 * acc + digit_value c) cs
      else if c = CHR ''_'' \<and> cs \<noteq> [] \<and> is_digit (hd cs) then parse_digits acc cs
      else None)"

definition parse_nat :: "string \<Rightarrow> nat option" where
  "parse_nat s = (if s \<noteq> [] \<and> is_digit (hd s) then parse_digits 0 s else None)"

definition invalid_literal :: "string \<Rightarrow> exn" where
  "invalid_literal s = ValueError (''invalid literal for int() with base 10: '' @ py_repr s)"

text \<open>
  \<open>int(s)\<close>: white space around it is ignored, a sign may stand in front, and more than 4300
  digits are refused.
\<close>

definition py_int :: "string \<Rightarrow> exn + int" where
  "py_int s =
     (let t = strip_ws s;
          negative = startswith t ''-'';
          body = (if negative \<or> startswith t ''+'' then tl t else t)
      in if length (filter is_digit body) > 4300
         then Inl (ValueError ''Exceeds the limit (4300 digits) for integer string conversion'')
         else case parse_nat body of
           None \<Rightarrow> Inl (invalid_literal s)
         | Some n \<Rightarrow> Inr (if negative then - int n else int n))"

lemma py_int_Inl: "py_int s = Inl e \<Longrightarrow> is_ValueError e"
  by (auto simp: py_int_def Let_def invalid_literal_def is_ValueError_def split: if_splits option.splits)

lemma digit_char_digit [simp]: "n < 10 \<Longrightarrow> is_digit (digit_char n) \<and> digit_value (digit_char n) = n"
  by (simp add: is_digit_def digit_char_def digit_value_def)

lemma nat_str_digits: "list_all is_digit (nat_str n)"
proof (induction n rule: nat_str.induct)
  case (1 n)
  then show ?case by (subst nat_str.simps) auto
qed

lemma parse_digits_nat_str:
  "parse_digits acc (nat_str n @ cs) = parse_digits (acc * 10 ^ length (nat_str n) + n) cs"
proof (induction n arbitrary: acc cs rule: nat_str.induct)
  case (1 n)
  show ?case
  proof (cases "n < 10")
    case True
    then show ?thesis by (simp add: nat_str.simps [of n] mult.commute)
  next
    case False
    have n: "10 * (n div 10) + n mod 10 = n" by simp
    have split: "nat_str n = nat_str (n div 10) @ [digit_char (n mod 10)]"
      using False by (simp add: nat_str.simps [of n])
    let ?k = "length (nat_str (n div 10))"
    have "parse_digits acc (nat_str n @ cs) =
        parse_digits (acc * 10 ^ ?k + n div 10) (digit_char (n mod 10) # cs)"
      unfolding split using "1.IH" [OF False, of acc "digit_char (n mod 10) # cs"] by simp
    also have "\<dots> = parse_digits (10 * (acc * 10 ^ ?k + n div 10) + n mod 10) cs" by simp
    also have "10 * (acc * 10 ^ ?k + n div 10) + n mod 10 = acc * 10 ^ length (nat_str n) + n"
      using n by (simp add: split algebra_simps)
    finally show ?thesis .
  qed
qed

lemma digit_not_space: "is_digit c \<Longrightarrow> \<not> is_space c \<and> c \<noteq> CHR ''-'' \<and> c \<noteq> CHR ''+''"
  by (auto simp: is_digit_def is_space_def Let_def)

lemma nat_str_hd: "is_digit (hd (nat_str n))"
  using nat_str_digits [of n] nat_str_nonempty [of n] by (simp add: list_all_iff)

lemma strip_ws_nat_str: "strip_ws (nat_str n) = nat_str n"
proof -
  have "\<forall>c \<in> set (nat_str n). \<not> is_space c" using nat_str_digits [of n] digit_not_space by (auto simp: list_all_iff)
  then have "dropWhile is_space xs = xs" if "set xs \<subseteq> set (nat_str n)" for xs
    using that by (cases xs) auto
  then show ?thesis by (simp add: strip_ws_def)
qed

text \<open>A printed number is read back.\<close>

lemma py_int_nat_str:
  assumes "length (nat_str n) \<le> 4300"
  shows "py_int (nat_str n) = Inr (int n)"
proof -
  obtain c cs where c: "nat_str n = c # cs" using nat_str_nonempty [of n] by (cases "nat_str n") auto
  have digit: "is_digit c" using nat_str_hd [of n] c by simp
  then have "\<not> startswith (nat_str n) ''-''" "\<not> startswith (nat_str n) ''+''"
    using digit_not_space by (auto simp: startswith_def c)
  moreover have "filter is_digit (nat_str n) = nat_str n" using nat_str_digits [of n] by (simp add: filter_id_conv list_all_iff)
  moreover have "parse_nat (nat_str n) = Some n"
    using parse_digits_nat_str [of 0 n "[]"] nat_str_hd [of n] nat_str_nonempty [of n] by (simp add: parse_nat_def)
  ultimately show ?thesis using assms by (simp add: py_int_def strip_ws_nat_str Let_def)
qed

lemma nat_str_length: "n < 10 ^ k \<Longrightarrow> 0 < k \<Longrightarrow> length (nat_str n) \<le> k"
proof (induction n arbitrary: k rule: nat_str.induct)
  case (1 n)
  show ?case
  proof (cases "n < 10")
    case True
    then show ?thesis using "1.prems" by (simp add: nat_str.simps [of n])
  next
    case False
    with "1.prems" obtain j where j: "k = Suc j" "0 < j" by (cases k; cases "k - 1") auto
    then have "n div 10 < 10 ^ j" using "1.prems" by (simp add: less_mult_imp_div_less mult.commute)
    from "1.IH" [OF False this j(2)] False j show ?thesis by (simp add: nat_str.simps [of n])
  qed
qed

section \<open>The floor of a quotient\<close>

text \<open>\<open>int.bit_length\<close>, and the quotient of two naturals rounded half to even.\<close>

fun bit_length :: "nat \<Rightarrow> nat" where
  "bit_length n = (if n = 0 then 0 else Suc (bit_length (n div 2)))"

declare bit_length.simps [simp del]

definition round_half_even :: "nat \<Rightarrow> nat \<Rightarrow> nat" where
  "round_half_even x y =
     (let d = x div y; r = x mod y
      in if 2 * r < y \<or> 2 * r = y \<and> even d then d else d + 1)"

text \<open>
  \<open>math.floor(a / b)\<close> for positive integers: \<open>a / b\<close> is the nearest number with 53 significant
  bits, and one of \<open>2 ^ 1024\<close> or more is an \<open>OverflowError\<close>.
\<close>

definition floor_true_div :: "nat \<Rightarrow> nat \<Rightarrow> exn + nat" where
  "floor_true_div a b =
     (let l = bit_length (a div b);
          f = (if l \<le> 53 then round_half_even (a * 2 ^ (53 - l)) b div 2 ^ (53 - l)
               else round_half_even a (b * 2 ^ (l - 53)) * 2 ^ (l - 53))
      in if f < 2 ^ 1024 then Inr f
         else Inl (OtherError ''OverflowError: integer division result too large for a float''))"

lemma bit_length_bounds: "n < 2 ^ bit_length n \<and> (n > 0 \<longrightarrow> 2 ^ bit_length n \<le> 2 * n)"
proof (induction n rule: bit_length.induct)
  case (1 n)
  show ?case
  proof (cases "n = 0")
    case False
    then have l: "bit_length n = Suc (bit_length (n div 2))" by (simp add: bit_length.simps [of n])
    from "1.IH" [OF False] have "n div 2 < 2 ^ bit_length (n div 2)"
      and "n div 2 > 0 \<longrightarrow> 2 ^ bit_length (n div 2) \<le> 2 * (n div 2)" by auto
    moreover have "n div 2 = 0 \<Longrightarrow> bit_length (n div 2) = 0" by (simp add: bit_length.simps)
    ultimately show ?thesis using False by (cases "n div 2 = 0") (auto simp: l)
  qed (simp add: bit_length.simps)
qed

lemma bit_length_le: "n < 2 ^ k \<Longrightarrow> bit_length n \<le> k"
proof (rule ccontr)
  assume n: "n < 2 ^ k" "\<not> bit_length n \<le> k"
  then have "n > 0" by (cases "n = 0") (auto simp: bit_length.simps)
  have "(2 :: nat) ^ Suc k \<le> 2 ^ bit_length n" using n(2) by (intro power_increasing) auto
  also have "\<dots> \<le> 2 * n" using bit_length_bounds [of n] \<open>n > 0\<close> by simp
  finally show False using n(1) by simp
qed

text \<open>
  Below \<open>2 ^ 53\<close> the detour through binary64 is exact: rounding never reaches the next integer.
\<close>

text \<open>
  The rounded quotient of numbers below \<open>2 ^ 53\<close> does not reach the next integer: scaled to 53 bits,
  it is at least one unit below it, or the remainder is less than half.
\<close>

lemma no_carry:
  assumes a: "a < 2 ^ 53" and b: "0 < b" and q: "q = a div b" and l: "bit_length q \<le> 53"
    and K: "K = (2 :: nat) ^ (53 - bit_length q)" and upper: "a * K div b < (q + 1) * K"
  shows "a * K div b + 1 < (q + 1) * K \<or> 2 * (a * K mod b) < b"
proof (rule ccontr)
  assume carry: "\<not> ?thesis"
  define R where "R = a * K mod b"
  from carry have D: "a * K div b + 1 = (q + 1) * K" and R: "b \<le> 2 * R" using upper by (auto simp: R_def)
  have aq: "b * q \<le> a" "a < b * (q + 1)" using b by (simp_all add: q dividend_less_times_div algebra_simps)
  define g where "g = b * (q + 1) - a"
  have g: "b * (q + 1) = a + g" "1 \<le> g" using aq(2) by (simp_all add: g_def)
  have "b * (a * K div b + 1) = a * K + g * K" unfolding D using g(1) by (metis add_mult_distrib mult.assoc)
  moreover have "a * K = b * (a * K div b) + R" by (simp add: R_def)
  ultimately have gK: "g * K + R = b" by (simp add: algebra_simps)
  then have two: "2 * (g * K) \<le> b" using R by simp
  have "1 * K \<le> g * K" using g(2) by (rule mult_le_mono1)
  with two have "2 * K \<le> b" by linarith
  show False
  proof (cases "q = 0")
    case True
    then have "2 * (g * K) \<ge> 2 ^ 53 + g" using g(2) by (simp add: K bit_length.simps)
    moreover have "b = a + g" using g(1) True by simp
    ultimately show False using two a by simp
  next
    case False
    have "2 ^ 53 = K * 2 ^ bit_length q" using l by (simp add: K flip: power_add)
    also have "\<dots> \<le> K * (2 * q)" using bit_length_bounds [of q] False by simp
    also have "\<dots> \<le> b * q" using mult_le_mono1 [OF \<open>2 * K \<le> b\<close>, of q] by (simp add: ac_simps)
    finally show False using aq(1) a by simp
  qed
qed

lemma floor_true_div_exact:
  assumes a: "a < 2 ^ 53" and b: "0 < b"
  shows "floor_true_div a b = Inr (a div b)"
proof -
  define q where "q = a div b"
  define K where "K = (2 :: nat) ^ (53 - bit_length q)"
  have K: "0 < K" by (simp add: K_def)
  have qa: "q \<le> a" by (simp add: q_def)
  then have l: "bit_length q \<le> 53" using a bit_length_le [of q 53] by simp
  have aq: "b * q \<le> a" "a < b * (q + 1)" using b by (simp_all add: q_def dividend_less_times_div algebra_simps)
  have lower: "q * K \<le> a * K div b"
    using aq(1) b by (simp add: less_eq_div_iff_mult_less_eq mult.assoc mult.commute [of b])
  have "a * K < b * (q + 1) * K" using aq(2) K by (intro mult_strict_right_mono) auto
  then have "a * K < (q + 1) * K * b" by (simp only: ac_simps)
  then have upper: "a * K div b < (q + 1) * K" by (rule less_mult_imp_div_less)
  define m where "m = round_half_even (a * K) b"
  have "m = a * K div b \<or> m = a * K div b + 1 \<and> b \<le> 2 * (a * K mod b)"
    by (auto simp: m_def round_half_even_def Let_def)
  then have m: "q * K \<le> m" "m < Suc q * K"
    using lower upper no_carry [OF a b q_def l K_def upper] by auto
  have "m div K = q" by (rule div_nat_eqI) (use m in \<open>simp_all add: mult.commute\<close>)
  moreover have "(2 :: nat) ^ 53 \<le> 2 ^ 1024" by (intro power_increasing) auto
  then have "q < 2 ^ 1024" using qa a by (meson le_less_trans less_le_trans)
  ultimately show ?thesis using l by (simp add: floor_true_div_def Let_def m_def K_def flip: q_def)
qed

end
