(* ===== verification/WorkerStart.thy ===== *)
theory WorkerStart
  imports NatsSession Numerals
begin

text \<open>
  The start of \<open>worker/main.py\<close>: connecting with a bounded number of attempts, the size of the
  render pool from the host's CPUs, and the pool that replaces itself when a worker died.
\<close>

section \<open>Connecting\<close>

definition NATS_CONNECT_MAX_ATTEMPTS :: nat where
  "NATS_CONNECT_MAX_ATTEMPTS = 10"

definition NATS_CONNECT_BASE_DELAY_SECONDS :: int where
  "NATS_CONNECT_BASE_DELAY_SECONDS = 2"

definition NATS_CONNECT_MAX_DELAY_SECONDS :: int where
  "NATS_CONNECT_MAX_DELAY_SECONDS = 30"

definition retry_delay :: "nat \<Rightarrow> int" where
  "retry_delay attempt =
     min (NATS_CONNECT_BASE_DELAY_SECONDS * 2 ^ (attempt - 1)) NATS_CONNECT_MAX_DELAY_SECONDS"

definition asyncio_sleep :: "services \<Rightarrow> int \<Rightarrow> (process, unit) io" where
  "asyncio_sleep V delay = perform (sv_sleep V) (Sleep delay)"

text \<open>The \<open>for\<close> loop over the attempts that are left.\<close>

fun connect_loop :: "services \<Rightarrow> app_settings \<Rightarrow> nat list \<Rightarrow> (process, unit) io" where
  "connect_loop V S [] = ret ()"
| "connect_loop V S (attempt # attempts) =
     try_except (init_nats V S) is_Exception
       (\<lambda>exc. if attempt = NATS_CONNECT_MAX_ATTEMPTS then raise exc
              else and_then (asyncio_sleep V (retry_delay attempt)) (\<lambda>_. connect_loop V S attempts))"

definition connect_nats_with_retry :: "services \<Rightarrow> app_settings \<Rightarrow> (process, unit) io" where
  "connect_nats_with_retry V S = connect_loop V S [1..<NATS_CONNECT_MAX_ATTEMPTS + 1]"

section \<open>CPUs and the size of the pool\<close>

text \<open>What the host says: the files of the two cgroup versions, the affinity mask, the CPU count.\<close>

record host =
  hs_cpu_max :: "exn + string"
  hs_cfs_quota :: "exn + string"
  hs_cfs_period :: "exn + string"
  hs_affinity :: "(exn + nat) option"
  hs_cpu_count :: "nat option"

definition quota_cpus :: "int \<Rightarrow> int \<Rightarrow> exn + int option" where
  "quota_cpus quota period =
     (if quota > 0 \<and> period > 0
      then res_bind (floor_true_div (nat quota) (nat period)) (\<lambda>n. Inr (Some (max 1 (int n))))
      else Inr None)"

definition cgroup2_cpus :: "host \<Rightarrow> exn + int option" where
  "cgroup2_cpus h =
     res_bind (hs_cpu_max h) (\<lambda>text.
       case split_ws text of
         [] \<Rightarrow> Inr None
       | quota # rest \<Rightarrow>
           if quota = ''max'' then Inr None
           else res_bind (py_int quota) (\<lambda>q.
             res_bind (case rest of [] \<Rightarrow> Inr 100000 | period # _ \<Rightarrow> py_int period) (\<lambda>p.
             quota_cpus q p)))"

definition cgroup1_cpus :: "host \<Rightarrow> exn + int option" where
  "cgroup1_cpus h =
     res_bind (hs_cfs_quota h) (\<lambda>quota. res_bind (py_int quota) (\<lambda>q.
     res_bind (hs_cfs_period h) (\<lambda>period. res_bind (py_int period) (\<lambda>p. quota_cpus q p))))"

text \<open>\<open>try: ... except (OSError, ValueError): pass\<close>, then the next source.\<close>

definition or_else :: "exn + int option \<Rightarrow> exn + int \<Rightarrow> exn + int" where
  "or_else r next =
     (case r of
        Inr (Some n) \<Rightarrow> Inr n
      | Inr None \<Rightarrow> next
      | Inl e \<Rightarrow> if is_OSError e \<or> is_ValueError e then next else Inl e)"

definition detect_available_cpus :: "host \<Rightarrow> exn + int" where
  "detect_available_cpus h =
     or_else (cgroup2_cpus h) (or_else (cgroup1_cpus h)
       (let counted = Inr (max 1 (case hs_cpu_count h of None \<Rightarrow> 1 | Some n \<Rightarrow> if n = 0 then 1 else int n))
        in case hs_affinity h of
             None \<Rightarrow> counted
           | Some (Inr n) \<Rightarrow> Inr (max 1 (int n))
           | Some (Inl e) \<Rightarrow> if is_OSError e then counted else Inl e))"

definition render_pool_size :: "app_settings \<Rightarrow> host \<Rightarrow> exn + int" where
  "render_pool_size S h =
     (if RENDER_POOL_SIZE S > 0 then Inr (RENDER_POOL_SIZE S)
      else res_bind (detect_available_cpus h) (\<lambda>n. Inr (max 1 (n - 1))))"

section \<open>The render pool\<close>

text \<open>
  \<open>_RenderPool.submit\<close>: \<open>render_pool\<close> counts the pools made so far, and so names the current one.
\<close>

definition submit_once :: "services \<Rightarrow> (process, unit) io" where
  "submit_once V = (\<lambda>p. perform (\<lambda>cs. sv_submit V cs (render_pool p)) (SubmitRender (render_pool p)) p)"

definition is_BrokenProcessPool :: "exn \<Rightarrow> bool" where
  "is_BrokenProcessPool e = (case e of BrokenExecutor _ \<Rightarrow> True | _ \<Rightarrow> False)"

definition pool_submit :: "services \<Rightarrow> (process, unit) io" where
  "pool_submit V =
     try_except (submit_once V) is_BrokenProcessPool
       (\<lambda>_. and_then (\<lambda>p. (Inr (), p\<lparr>render_pool := render_pool p + 1\<rparr>)) (\<lambda>_. submit_once V))"

section \<open>The retries are bounded\<close>

definition connects :: "call list \<Rightarrow> nat" where
  "connects cs = length (filter (\<lambda>c. case c of NatsConnect _ _ \<Rightarrow> True | _ \<Rightarrow> False) cs)"

definition sleeps :: "call list \<Rightarrow> int list" where
  "sleeps cs = concat (map (\<lambda>c. case c of Sleep d _ \<Rightarrow> [d] | _ \<Rightarrow> []) cs)"

lemma connects_simps [simp]:
  "connects [] = 0" "connects (cs @ ds) = connects cs + connects ds"
  "connects (c # cs) = (case c of NatsConnect _ _ \<Rightarrow> 1 | _ \<Rightarrow> 0) + connects cs"
  by (auto simp: connects_def split: call.splits)

lemma sleeps_simps [simp]:
  "sleeps [] = []" "sleeps (cs @ ds) = sleeps cs @ sleeps ds"
  "sleeps (c # cs) = (case c of Sleep d _ \<Rightarrow> [d] | _ \<Rightarrow> []) @ sleeps cs"
  by (auto simp: sleeps_def)

lemma streams_only:
  "list_all (\<lambda>c. \<exists>s ok. c = AddStream s ok) cs \<Longrightarrow> connects cs = 0 \<and> sleeps cs = []"
  by (induction cs) auto

text \<open>The state a successful connection leaves: one client, its context, the streams declared last.\<close>

definition session_up :: "app_settings \<Rightarrow> process \<Rightarrow> bool" where
  "session_up S p \<longleftrightarrow> (\<exists>i before.
     nats_client p = Some i \<and> jetstream p = Some i \<and> i = length before \<and>
     calls p = before @ NatsConnect (connect_args_of S) True # map (\<lambda>s. AddStream s True) (desired_streams S))"

lemma init_nats_attempt:
  assumes "init_nats V S p = (r, p')"
  obtains cs where "calls p' = calls p @ cs" "connects cs = 1" "sleeps cs = []" "succeeded r \<Longrightarrow> session_up S p'"
proof -
  from assms show ?thesis
  proof (cases rule: init_nats_cases)
    case (refused e)
    then show ?thesis by (intro that [of "[NatsConnect (connect_args_of S) False]"]) auto
  next
    case (opened cs)
    then show ?thesis
      by (intro that [of "NatsConnect (connect_args_of S) True # cs"]) (auto simp: streams_only session_up_def)
  qed
qed

text \<open>\<open>asyncio.sleep\<close> raises nothing but the cancellation of its task.\<close>

definition sleep_only_cancelled :: "services \<Rightarrow> bool" where
  "sleep_only_cancelled V \<longleftrightarrow> (\<forall>cs e. sv_sleep V cs = Inl e \<longrightarrow> \<not> is_Exception e)"

text \<open>The calls \<open>cs\<close> of the attempts from number \<open>a\<close> on, which ended with \<open>r\<close> in \<open>p\<close>.\<close>

definition tries_from :: "app_settings \<Rightarrow> nat \<Rightarrow> call list \<Rightarrow> exn + unit \<Rightarrow> process \<Rightarrow> bool" where
  "tries_from S a cs r p \<longleftrightarrow>
     1 \<le> connects cs \<and> a + connects cs \<le> NATS_CONNECT_MAX_ATTEMPTS + 1 \<and>
     sleeps cs = map retry_delay [a..<a + length (sleeps cs)] \<and> a + length (sleeps cs) \<le> NATS_CONNECT_MAX_ATTEMPTS \<and>
     (case r of Inr _ \<Rightarrow> session_up S p \<and> length (sleeps cs) + 1 = connects cs
      | Inl e \<Rightarrow> is_Exception e \<longrightarrow>
          a + connects cs = NATS_CONNECT_MAX_ATTEMPTS + 1 \<and> length (sleeps cs) + 1 = connects cs)"

text \<open>One attempt: it was the last one, it succeeded, or it or the sleep after it was cancelled.\<close>

lemma tries_once:
  assumes "connects cs = 1" "sleeps cs = []" "succeeded r \<Longrightarrow> session_up S p" "a \<le> NATS_CONNECT_MAX_ATTEMPTS"
    and "\<And>e. r = Inl e \<Longrightarrow> is_Exception e \<Longrightarrow> a = NATS_CONNECT_MAX_ATTEMPTS"
  shows "tries_from S a cs r p"
  using assms by (auto simp: tries_from_def split: sum.splits)

lemma tries_cut:
  assumes "connects cs = 1" "sleeps cs = []" "a < NATS_CONNECT_MAX_ATTEMPTS" "\<not> is_Exception e"
  shows "tries_from S a (cs @ [Sleep (retry_delay a) False]) (Inl e) p"
  using assms by (simp add: tries_from_def)

lemma tries_again:
  assumes "connects cs = 1" "sleeps cs = []" "tries_from S (Suc a) ds r p"
  shows "tries_from S a (cs @ Sleep (retry_delay a) True # ds) r p"
proof -
  have "sleeps ds = map retry_delay [Suc a..<Suc a + length (sleeps ds)]" using assms(3) by (simp add: tries_from_def)
  then have "map retry_delay [a..<Suc (a + length (sleeps ds))] = retry_delay a # sleeps ds"
    by (simp add: upt_conv_Cons del: upt_Suc)
  with assms show ?thesis by (auto simp: tries_from_def split: sum.splits simp del: upt_Suc)
qed

lemma connect_loop_step:
  assumes "init_nats V S p = (r1, p1)"
  shows "connect_loop V S (a # ats) p =
    (case r1 of
       Inr _ \<Rightarrow> (r1, p1)
     | Inl e \<Rightarrow>
         if \<not> is_Exception e \<or> a = NATS_CONNECT_MAX_ATTEMPTS then (r1, p1)
         else let p2 = p1\<lparr>calls := calls p1 @ [Sleep (retry_delay a) (succeeded (sv_sleep V (calls p1)))]\<rparr>
              in case sv_sleep V (calls p1) of Inl e \<Rightarrow> (Inl e, p2) | Inr _ \<Rightarrow> connect_loop V S ats p2)"
  using assms by (auto simp: io_simps asyncio_sleep_def Let_def split: sum.splits)

lemma connect_loop_bounded:
  assumes sleeping: "sleep_only_cancelled V"
  shows "connect_loop V S [a..<NATS_CONNECT_MAX_ATTEMPTS + 1] p = (r, p') \<Longrightarrow> a \<le> NATS_CONNECT_MAX_ATTEMPTS \<Longrightarrow>
     \<exists>cs. calls p' = calls p @ cs \<and> tries_from S a cs r p'"
proof (induction "NATS_CONNECT_MAX_ATTEMPTS - a" arbitrary: a p)
  case 0
  then have a: "a = NATS_CONNECT_MAX_ATTEMPTS" by simp
  obtain r1 p1 where i: "init_nats V S p = (r1, p1)" by (cases "init_nats V S p")
  obtain cs where "calls p1 = calls p @ cs" "connects cs = 1" "sleeps cs = []" "succeeded r1 \<Longrightarrow> session_up S p1"
    using init_nats_attempt [OF i] by blast
  moreover have "(r1, p1) = (r, p')" using 0(2) connect_loop_step [OF i, of a "[]"] a by (auto split: sum.splits)
  ultimately show ?case using a by (auto intro!: exI [of _ cs] tries_once)
next
  case (Suc n)
  then have up: "[a..<NATS_CONNECT_MAX_ATTEMPTS + 1] = a # [Suc a..<NATS_CONNECT_MAX_ATTEMPTS + 1]"
    "a < NATS_CONNECT_MAX_ATTEMPTS" by (auto simp: upt_conv_Cons)
  obtain r1 p1 where i: "init_nats V S p = (r1, p1)" by (cases "init_nats V S p")
  obtain cs where cs: "calls p1 = calls p @ cs" "connects cs = 1" "sleeps cs = []" "succeeded r1 \<Longrightarrow> session_up S p1"
    using init_nats_attempt [OF i] by blast
  note run = Suc.prems(1) [unfolded up(1) connect_loop_step [OF i]]
  show ?case
  proof (cases "\<exists>e. r1 = Inl e \<and> is_Exception e")
    case False
    then have "(r1, p1) = (r, p')" using run by (auto split: sum.splits)
    then show ?thesis using cs False up(2) by (auto intro!: exI [of _ cs] tries_once)
  next
    case True
    show ?thesis
    proof (cases "sv_sleep V (calls p1)")
      case (Inl e)
      then have "r = Inl e \<and> calls p' = calls p @ cs @ [Sleep (retry_delay a) False]" using run True up(2) cs(1) by (auto simp: Let_def)
      then show ?thesis using tries_cut [OF cs(2,3) up(2)] sleeping Inl by (auto simp: sleep_only_cancelled_def)
    next
      case (Inr u)
      let ?p2 = "p1\<lparr>calls := calls p1 @ [Sleep (retry_delay a) True]\<rparr>"
      have "connect_loop V S [Suc a..<NATS_CONNECT_MAX_ATTEMPTS + 1] ?p2 = (r, p')" using run True up(2) Inr by (auto simp: Let_def)
      moreover have "n = NATS_CONNECT_MAX_ATTEMPTS - Suc a" using Suc.hyps(2) by simp
      ultimately obtain ds where "calls p' = calls ?p2 @ ds" "tries_from S (Suc a) ds r p'"
        using Suc.hyps(1) [of "Suc a" ?p2] up(2) by auto
      then show ?thesis using tries_again [OF cs(2,3)] cs(1) by auto
    qed
  qed
qed

text \<open>
  An error that ends the loop is the one that its last attempt raised: the run is the nine attempts and
  sleeps before it, then \<open>init_nats\<close> with that error.
\<close>

lemma connect_loop_error:
  assumes sleeping: "sleep_only_cancelled V"
  shows "connect_loop V S [a..<NATS_CONNECT_MAX_ATTEMPTS + 1] p = (Inl e, p') \<Longrightarrow> a \<le> NATS_CONNECT_MAX_ATTEMPTS \<Longrightarrow>
     is_Exception e \<Longrightarrow> \<exists>q ds. calls q = calls p @ ds \<and> connects ds + a = NATS_CONNECT_MAX_ATTEMPTS \<and> init_nats V S q = (Inl e, p')"
proof (induction "NATS_CONNECT_MAX_ATTEMPTS - a" arbitrary: a p)
  case 0
  then have a: "a = NATS_CONNECT_MAX_ATTEMPTS" by simp
  obtain r1 p1 where i: "init_nats V S p = (r1, p1)" by (cases "init_nats V S p")
  have "(r1, p1) = (Inl e, p')" using 0(2) connect_loop_step [OF i, of a "[]"] a by (auto split: sum.splits)
  then show ?case using i a by (intro exI [of _ p] exI [of _ "[]"]) simp
next
  case (Suc n)
  then have up: "[a..<NATS_CONNECT_MAX_ATTEMPTS + 1] = a # [Suc a..<NATS_CONNECT_MAX_ATTEMPTS + 1]"
    "a < NATS_CONNECT_MAX_ATTEMPTS" by (auto simp: upt_conv_Cons)
  obtain r1 p1 where i: "init_nats V S p = (r1, p1)" by (cases "init_nats V S p")
  obtain cs where cs: "calls p1 = calls p @ cs" "connects cs = 1" using init_nats_attempt [OF i] by blast
  note run = Suc.prems(1) [unfolded up(1) connect_loop_step [OF i]]
  have "\<exists>e. r1 = Inl e \<and> is_Exception e" using run Suc.prems(3) by (auto split: sum.splits if_splits)
  moreover have "sv_sleep V (calls p1) = Inr ()"
  proof (rule ccontr)
    assume "sv_sleep V (calls p1) \<noteq> Inr ()"
    then obtain e1 where "sv_sleep V (calls p1) = Inl e1" by (cases "sv_sleep V (calls p1)") auto
    moreover from this have "\<not> is_Exception e1" using sleeping by (auto simp: sleep_only_cancelled_def)
    ultimately show False using run \<open>\<exists>e. r1 = Inl e \<and> is_Exception e\<close> up(2) Suc.prems(3) by (auto simp: Let_def)
  qed
  ultimately have "connect_loop V S [Suc a..<NATS_CONNECT_MAX_ATTEMPTS + 1]
      (p1\<lparr>calls := calls p1 @ [Sleep (retry_delay a) True]\<rparr>) = (Inl e, p')" using run up(2) by (auto simp: Let_def)
  moreover have "n = NATS_CONNECT_MAX_ATTEMPTS - Suc a" using Suc.hyps(2) by simp
  ultimately obtain q ds where q: "calls q = calls p1 @ [Sleep (retry_delay a) True] @ ds"
    "connects ds + Suc a = NATS_CONNECT_MAX_ATTEMPTS" "init_nats V S q = (Inl e, p')"
    using Suc.hyps(1) [of "Suc a"] Suc.prems(3) up(2) by fastforce
  then show ?case using cs by (intro exI [of _ q] exI [of _ "cs @ Sleep (retry_delay a) True # ds"]) simp
qed

lemma retry_delays: "map retry_delay [1..<NATS_CONNECT_MAX_ATTEMPTS] = [2, 4, 8, 16, 30, 30, 30, 30, 30]"
  by code_simp

lemma retry_delay_nonneg: "0 \<le> retry_delay n"
  by (simp add: retry_delay_def NATS_CONNECT_BASE_DELAY_SECONDS_def NATS_CONNECT_MAX_DELAY_SECONDS_def)

text \<open>Any initial part of the delays takes three minutes at most.\<close>

lemma delays_total:
  assumes "1 + n \<le> NATS_CONNECT_MAX_ATTEMPTS"
  shows "map retry_delay [1..<1 + n] = take n [2, 4, 8, 16, 30, 30, 30, 30, 30]"
    and "sum_list (map retry_delay [1..<1 + n]) \<le> 180"
    and "1 + n = NATS_CONNECT_MAX_ATTEMPTS \<Longrightarrow> sum_list (map retry_delay [1..<1 + n]) = 180"
proof -
  have "[1..<1 + n] = take n [1..<NATS_CONNECT_MAX_ATTEMPTS]" using assms by (simp add: take_upt)
  then show t: "map retry_delay [1..<1 + n] = take n [2, 4, 8, 16, 30, 30, 30, 30, 30]"
    using retry_delays by (simp flip: take_map)
  have "sum_list (take n ds) \<le> sum_list ds" if "\<forall>d \<in> set ds. 0 \<le> d" for ds :: "int list"
    using that sum_list_nonneg [of "drop n ds"] sum_list_append [of "take n ds" "drop n ds"] set_drop_subset [of n ds]
    by (fastforce simp del: sum_list_append)
  from this [of "[2, 4, 8, 16, 30, 30, 30, 30, 30]"] show "sum_list (map retry_delay [1..<1 + n]) \<le> 180"
    unfolding t by simp
  show "sum_list (map retry_delay [1..<1 + n]) = 180" if "1 + n = NATS_CONNECT_MAX_ATTEMPTS"
    using that retry_delays by simp
qed

lemma connect_loop_up:
  "connect_loop V S ats p = (Inr (), p') \<Longrightarrow> ats \<noteq> [] \<Longrightarrow> NATS_CONNECT_MAX_ATTEMPTS \<in> set ats \<Longrightarrow> session_up S p'"
proof (induction ats arbitrary: p)
  case (Cons a ats)
  obtain r1 p1 where i: "init_nats V S p = (r1, p1)" by (cases "init_nats V S p")
  obtain cs where "succeeded r1 \<Longrightarrow> session_up S p1" using init_nats_attempt [OF i] by blast
  with Cons i show ?case by (cases r1; cases ats) (auto simp: io_simps split: if_splits prod.splits sum.splits)
qed simp

text \<open>A server that refuses every connection ends the start with its refusal.\<close>

lemma refused_init: "sv_connect V (calls p) = Inl e \<Longrightarrow> fst (init_nats V S p) = Inl e"
  by (simp add: init_nats_def nats_connect_def io_simps)

lemma connect_loop_refused:
  "(\<And>cs. sv_connect V cs = Inl e) \<Longrightarrow> (\<And>cs. sv_sleep V cs = Inr ()) \<Longrightarrow> is_Exception e \<Longrightarrow>
   NATS_CONNECT_MAX_ATTEMPTS \<in> set ats \<Longrightarrow> fst (connect_loop V S ats p) = Inl e"
proof (induction ats arbitrary: p)
  case (Cons a ats)
  have "fst (init_nats V S p) = Inl e" by (rule refused_init) (rule Cons.prems(1))
  then obtain p1 where i: "init_nats V S p = (Inl e, p1)" by (cases "init_nats V S p") simp
  show ?case
  proof (cases "a = NATS_CONNECT_MAX_ATTEMPTS")
    case False
    then have "NATS_CONNECT_MAX_ATTEMPTS \<in> set ats" using Cons.prems(4) by simp
    note next_one = Cons.IH [OF Cons.prems(1-3) this]
    then show ?thesis using i False Cons.prems(2,3) by (simp add: io_simps asyncio_sleep_def)
  qed (use i Cons.prems(3) in \<open>simp add: io_simps\<close>)
qed simp

lemma connect_loop_makes: "preserves (makes (\<lambda>c. \<not> is_drain c)) (connect_loop V S ats)"
proof (induction ats)
  case (Cons a ats)
  have "preserves (makes (\<lambda>c. \<not> is_drain c)) (init_nats V S)" using init_nats_makes by (rule preservesI)
  with Cons show ?case by (auto simp: asyncio_sleep_def intro!: preserves_intros)
qed (simp add: preserves_intros)

text \<open>After the connection is closed, those of the abandoned attempts are still open.\<close>

lemma abandoned_connections:
  assumes "calls p0 = []" "connect_nats_with_retry V S p0 = (Inr (), p1)" "close_nats V p1 = (Inr (), p2)"
  shows "\<exists>i. nats_client p1 = Some i \<and> set (open_connections p2) = {j. opened (calls p1) j} - {i}"
proof -
  have "session_up S p1"
    by (rule connect_loop_up [OF assms(2) [unfolded connect_nats_with_retry_def]])
      (simp_all add: NATS_CONNECT_MAX_ATTEMPTS_def)
  then obtain i where i: "nats_client p1 = Some i" by (auto simp: session_up_def)
  have "makes (\<lambda>c. \<not> is_drain c) p0 p1"
    using preservesD [OF connect_loop_makes] assms(2) by (simp add: connect_nats_with_retry_def)
  then have nd: "NatsDrain j ok \<notin> set (calls p1)" for j ok
    using assms(1) by (auto simp: makes_def list_all_iff)
  have "calls p2 = calls p1 @ [NatsDrain i True]"
    using assms(3) i by (auto simp: close_nats_def io_simps split: sum.splits)
  with i nd show ?thesis
    by (auto simp: open_connections_set opened_append) (auto simp: opened_def split: if_splits)
qed

section \<open>The pool has a size\<close>

lemma quota_cpus_pos: "quota_cpus q p = Inr (Some n) \<Longrightarrow> 1 \<le> n"
  by (auto simp: quota_cpus_def res_bind_Inr split: if_splits)

lemma res_bind_InrE:
  assumes "res_bind r f = Inr y"
  obtains x where "r = Inr x" "f x = Inr y"
  using assms by (auto simp: res_bind_Inr)

lemma cgroup2_pos: "cgroup2_cpus h = Inr (Some n) \<Longrightarrow> 1 \<le> n"
  unfolding cgroup2_cpus_def
  by (elim res_bind_InrE, split list.split_asm, simp)
    (split if_split_asm, simp, elim res_bind_InrE, rule quota_cpus_pos)

lemma cgroup1_pos: "cgroup1_cpus h = Inr (Some n) \<Longrightarrow> 1 \<le> n"
  unfolding cgroup1_cpus_def by (elim res_bind_InrE) (rule quota_cpus_pos)

lemma detect_pos: "detect_available_cpus h = Inr n \<Longrightarrow> 1 \<le> n"
  using cgroup2_pos [of h] cgroup1_pos [of h]
  by (auto simp: detect_available_cpus_def or_else_def Let_def split: sum.splits option.splits if_splits)

lemma render_pool_size_pos: "render_pool_size S h = Inr n \<Longrightarrow> 1 \<le> n"
  by (auto simp: render_pool_size_def res_bind_Inr split: if_splits)

text \<open>A quota that the kernel writes as \<open>quota period\<close> is read exactly.\<close>

lemma nat_str_word: "nat_str n \<noteq> [] \<and> \<not> list_ex is_space (nat_str n)"
  using nat_str_digits [of n] nat_str_nonempty [of n] digit_not_space by (auto simp: list_all_iff list_ex_iff)

lemma below_2_53: "n < 2 ^ 53 \<Longrightarrow> length (nat_str n) \<le> 4300"
  using nat_str_length [of n 16] by simp

lemma cgroup2_exact:
  assumes "hs_cpu_max h = Inr (nat_str q @ '' '' @ nat_str p @ [CHR 0x0A])"
    and "0 < q" "q < 2 ^ 53" "0 < p" "p < 2 ^ 53"
  shows "cgroup2_cpus h = Inr (Some (max 1 (int (q div p))))"
proof -
  have "split_ws (nat_str q @ '' '' @ nat_str p @ [CHR 0x0A]) = [nat_str q, nat_str p]"
    using split_ws_word [of "nat_str q" "CHR '' ''" "nat_str p @ [CHR 0x0A]"] split_ws_word [of "nat_str p" "CHR 0x0A" "[]"]
      nat_str_word by (simp add: is_space_def split_ws.simps [of "[]"])
  moreover have "nat_str q \<noteq> ''max''" using nat_str_hd [of q] by (auto simp: is_digit_def)
  ultimately show ?thesis using assms
    by (simp add: cgroup2_cpus_def py_int_nat_str below_2_53 quota_cpus_def floor_true_div_exact)
qed

section \<open>The pool is rebuilt\<close>

lemma pool_submit_run:
  "pool_submit V p =
     (case sv_submit V (calls p) (render_pool p) of
        Inr _ \<Rightarrow> (Inr (), p\<lparr>calls := calls p @ [SubmitRender (render_pool p) True]\<rparr>)
      | Inl e \<Rightarrow>
          let p1 = p\<lparr>calls := calls p @ [SubmitRender (render_pool p) False]\<rparr>
          in if is_BrokenProcessPool e
             then submit_once V (p1\<lparr>render_pool := render_pool p + 1\<rparr>) else (Inl e, p1))"
  by (auto simp: pool_submit_def submit_once_def io_simps Let_def split: sum.splits)

text \<open>
  What the code relies on: a pool that nothing was submitted to yet takes the first render, and a
  pool refuses a render only because it is broken (it is shut down after the last one).
\<close>

definition pool_library :: "services \<Rightarrow> bool" where
  "pool_library V \<longleftrightarrow>
     (\<forall>cs i e. sv_submit V cs i = Inl e \<longrightarrow> is_BrokenProcessPool e) \<and>
     (\<forall>cs i. (\<forall>ok. SubmitRender i ok \<notin> set cs) \<longrightarrow> sv_submit V cs i = Inr ())"

fun pool_submits :: "services \<Rightarrow> nat \<Rightarrow> process \<Rightarrow> (exn + unit) list \<times> process" where
  "pool_submits V 0 p = ([], p)"
| "pool_submits V (Suc n) p =
     (let (r, p') = pool_submit V p; (rs, p'') = pool_submits V n p' in (r # rs, p''))"

definition refusals :: "call list \<Rightarrow> nat list" where
  "refusals cs = concat (map (\<lambda>c. case c of SubmitRender i False \<Rightarrow> [i] | _ \<Rightarrow> []) cs)"

definition later_pools_fresh :: "process \<Rightarrow> bool" where
  "later_pools_fresh p \<longleftrightarrow> (\<forall>i ok. SubmitRender i ok \<in> set (calls p) \<longrightarrow> i \<le> render_pool p)"

lemma pool_submit_recovers:
  assumes "pool_library V" "later_pools_fresh p"
  shows "\<exists>cs. pool_submit V p = (Inr (), p\<lparr>calls := calls p @ cs, render_pool := render_pool p + length (refusals cs)\<rparr>) \<and>
    (refusals cs = [] \<or> refusals cs = [render_pool p]) \<and> list_all (\<lambda>c. \<exists>i ok. c = SubmitRender i ok \<and> i \<le> render_pool p + length (refusals cs)) cs"
proof (cases "sv_submit V (calls p) (render_pool p)")
  case (Inr u)
  then show ?thesis
    by (intro exI [of _ "[SubmitRender (render_pool p) True]"]) (auto simp: pool_submit_run refusals_def)
next
  case (Inl e)
  let ?cs = "calls p @ [SubmitRender (render_pool p) False]"
  have "SubmitRender (Suc (render_pool p)) ok \<notin> set ?cs" for ok
    using assms(2) by (auto simp: later_pools_fresh_def)
  then have "sv_submit V ?cs (Suc (render_pool p)) = Inr ()"
    using assms(1) unfolding pool_library_def by blast
  moreover have "is_BrokenProcessPool e" using assms(1) Inl by (simp add: pool_library_def)
  ultimately show ?thesis using Inl
    by (intro exI [of _ "[SubmitRender (render_pool p) False, SubmitRender (Suc (render_pool p)) True]"])
      (auto simp: pool_submit_run refusals_def submit_once_def io_simps)
qed

lemma refusals_append [simp]: "refusals (cs @ ds) = refusals cs @ refusals ds"
  by (simp add: refusals_def)

lemma pool_submits_recover:
  "pool_library V \<Longrightarrow> later_pools_fresh p \<Longrightarrow>
   \<exists>cs. pool_submits V n p = (replicate n (Inr ()), p\<lparr>calls := calls p @ cs, render_pool := render_pool p + length (refusals cs)\<rparr>) \<and>
     refusals cs = [render_pool p..<render_pool p + length (refusals cs)]"
proof (induction n arbitrary: p)
  case 0
  show ?case by (intro exI [of _ "[]"]) (simp add: refusals_def)
next
  case (Suc n)
  from pool_submit_recovers [OF Suc.prems] obtain cs where
    r: "pool_submit V p = (Inr (), p\<lparr>calls := calls p @ cs, render_pool := render_pool p + length (refusals cs)\<rparr>)"
      "refusals cs = [] \<or> refusals cs = [render_pool p]"
    and own: "list_all (\<lambda>c. \<exists>i ok. c = SubmitRender i ok \<and> i \<le> render_pool p + length (refusals cs)) cs" by blast
  let ?p = "p\<lparr>calls := calls p @ cs, render_pool := render_pool p + length (refusals cs)\<rparr>"
  have "later_pools_fresh ?p" using Suc.prems(2) own by (fastforce simp: later_pools_fresh_def list_all_iff)
  from Suc.IH [OF Suc.prems(1) this] obtain ds where
    d: "pool_submits V n ?p = (replicate n (Inr ()), ?p\<lparr>calls := calls ?p @ ds, render_pool := render_pool ?p + length (refusals ds)\<rparr>)"
      "refusals ds = [render_pool ?p..<render_pool ?p + length (refusals ds)]" by blast
  have "refusals (cs @ ds) = [render_pool p..<render_pool p + length (refusals (cs @ ds))]"
    using r(2)
  proof
    assume one: "refusals cs = [render_pool p]"
    then have "refusals ds = [Suc (render_pool p)..<Suc (render_pool p) + length (refusals ds)]" using d(2) by simp
    then show ?thesis using one upt_conv_Cons [of "render_pool p" "Suc (render_pool p) + length (refusals ds)"]
      by (simp del: upt_Suc)
  qed (use d(2) in simp)
  then show ?case using r(1) d(1) by (intro exI [of _ "cs @ ds"]) (simp add: add.assoc)
qed

end
