(* ===== verification/ConsumerSetup.thy ===== *)
theory ConsumerSetup
  imports Session
begin

text \<open>
  \<open>core/queue/helper.py\<close> and \<open>subscribe\<close> of \<open>worker/dispatcher.py\<close>: bringing the durable consumer
  that the broker has stored in step with the code's settings, then subscribing.

  nats-py's \<open>ConsumerConfig\<close> is the parameter \<open>nats_lib\<close>: its fields with their defaults, and how
  a drift is printed in an error message.
\<close>

record nats_lib =
  nl_defaults :: consumer_config
  nl_repr :: "consumer_config \<Rightarrow> string"

text \<open>\<open>ConsumerConfig(**kwargs)\<close> and \<open>config.evolve(**changes)\<close>.\<close>

fun evolve :: "consumer_config \<Rightarrow> (string \<times> config_value) list \<Rightarrow> consumer_config" where
  "evolve c [] = c"
| "evolve c ((n, v) # changes) = evolve (dict_set c n v) changes"

definition make_config :: "nats_lib \<Rightarrow> (string \<times> config_value) list \<Rightarrow> consumer_config" where
  "make_config L kwargs = evolve (nl_defaults L) kwargs"

section \<open>Reconciling a stored consumer\<close>

definition RECONCILED_CONSUMER_FIELDS :: "string list" where
  "RECONCILED_CONSUMER_FIELDS = [''ack_wait'', ''max_deliver'', ''max_ack_pending'', ''backoff'']"

definition declared_consumer_fields :: "nats_lib \<Rightarrow> consumer_config \<Rightarrow> exn + (string \<times> config_value) list" where
  "declared_consumer_fields L config =
     (let declared = filter (\<lambda>(n, v). v \<noteq> getattr_config (nl_defaults L) n) config;
          unsupported = sort (remdups (filter (\<lambda>n. n \<notin> set RECONCILED_CONSUMER_FIELDS) (map fst declared)))
      in if unsupported \<noteq> []
         then Inl (ValueError (''ConsumerConfig field(s) '' @ join '', '' unsupported @
           '' would only apply when the durable is first created; js.subscribe ignores them on an existing one''))
         else Inr declared)"

definition is_NotFoundError :: "exn \<Rightarrow> bool" where
  "is_NotFoundError e = (case e of NotFoundError _ \<Rightarrow> True | _ \<Rightarrow> False)"

definition consumer_info :: "services \<Rightarrow> string \<Rightarrow> string \<Rightarrow> (process, consumer_config \<times> int) io" where
  "consumer_info V stream durable =
     perform (\<lambda>cs. sv_consumer_info V cs stream durable) (ConsumerInfo stream durable)"

definition add_consumer :: "services \<Rightarrow> string \<Rightarrow> consumer_config \<Rightarrow> (process, unit) io" where
  "add_consumer V stream config =
     perform (\<lambda>cs. sv_add_consumer V cs stream config) (AddConsumer stream config)"

definition update_failed :: "nats_lib \<Rightarrow> string \<Rightarrow> string \<Rightarrow> consumer_config \<Rightarrow> exn \<Rightarrow> exn" where
  "update_failed L stream durable drift exc = RuntimeError
     (''JetStream consumer '' @ py_repr durable @ '' on stream '' @ py_repr stream @
      '' could not be updated to '' @ nl_repr L drift @
      ''. Delete it and let the worker recreate it, e.g. `nats consumer rm '' @ stream @ '' '' @ durable @
      ''`. Cause: '' @ exn_str exc)"

definition drift_of :: "(string \<times> config_value) list \<Rightarrow> consumer_config \<Rightarrow> (string \<times> config_value) list" where
  "drift_of declared current = filter (\<lambda>(n, v). getattr_config current n \<noteq> v) declared"

definition ensure_consumer_config ::
  "services \<Rightarrow> nats_lib \<Rightarrow> string \<Rightarrow> string \<Rightarrow> consumer_config \<Rightarrow> (process, unit) io" where
  "ensure_consumer_config V L stream durable config =
     and_then (lift_result (declared_consumer_fields L config)) (\<lambda>declared.
     and_then
       (try_except (and_then (consumer_info V stream durable) (\<lambda>info. ret (Some (fst info))))
          is_NotFoundError (\<lambda>_. ret None)) (\<lambda>found.
     case found of
       None \<Rightarrow> ret ()
     | Some current \<Rightarrow>
         let drift = drift_of declared current
         in if drift = [] then ret ()
            else try_except (add_consumer V stream (evolve current drift)) is_APIError
                   (\<lambda>exc. raise (update_failed L stream durable drift exc))))"

definition subscribe_durable ::
  "services \<Rightarrow> nats_lib \<Rightarrow> string \<Rightarrow> string \<Rightarrow> consumer_config \<Rightarrow> string option \<Rightarrow> (process, subscription) io" where
  "subscribe_durable V L subject durable config stream =
     and_then (case stream of
         None \<Rightarrow> perform (\<lambda>cs. sv_find_stream V cs subject) (FindStream subject)
       | Some s \<Rightarrow> ret s) (\<lambda>stream.
     and_then (ensure_consumer_config V L stream durable config) (\<lambda>_.
     let sub = \<lparr>sub_subject = subject, sub_stream = stream, sub_durable = durable, sub_queue = durable,
                sub_manual_ack = True, sub_config = config\<rparr>
     in and_then (perform (\<lambda>cs. sv_subscribe V cs sub) (Subscribe sub)) (\<lambda>_. ret sub)))"

section \<open>The worker's subscription\<close>

definition config_kwargs :: "app_settings \<Rightarrow> int option \<Rightarrow> (string \<times> config_value) list" where
  "config_kwargs S max_ack_pending =
     [(''ack_wait'', CNum (of_int (DOCGEN_ACK_WAIT_SECONDS S))),
      (''max_deliver'', CNum (of_int (DOCGEN_MAX_DELIVER S + 1)))] @
     (case max_ack_pending of None \<Rightarrow> [] | Some n \<Rightarrow> [(''max_ack_pending'', CNum (of_int n))])"

definition subscribe_worker ::
  "services \<Rightarrow> nats_lib \<Rightarrow> app_settings \<Rightarrow> int option \<Rightarrow> (process, subscription) io" where
  "subscribe_worker V L S max_ack_pending =
     subscribe_durable V L (DOCGEN_REQUEST_SUBJECT S) (DOCGEN_DURABLE S)
       (make_config L (config_kwargs S max_ack_pending)) (Some (DOCGEN_REQUEST_STREAM S))"

section \<open>Configurations\<close>

lemma map_of_evolve: "map_of (evolve c changes) = map_of c ++ map_of (rev changes)"
  by (induction c changes rule: evolve.induct) (auto simp: fun_eq_iff map_add_def split: option.splits)

lemma map_fst_dict_set: "n \<in> set (map fst c) \<Longrightarrow> map fst (dict_set c n v) = map fst c"
  by (induction c n v rule: dict_set.induct) auto

lemma map_fst_evolve: "set (map fst changes) \<subseteq> set (map fst c) \<Longrightarrow> map fst (evolve c changes) = map fst c"
proof (induction c changes rule: evolve.induct)
  case (2 c n v changes)
  then show ?case using map_fst_dict_set [of n c v] by (simp add: subset_insertI2)
qed simp

lemma map_of_rev: "distinct (map fst xs) \<Longrightarrow> map_of (rev xs) = map_of xs"
  by (subst map_of_inject_set) (simp_all add: rev_map [symmetric])

lemma getattr_evolve:
  "distinct (map fst changes) \<Longrightarrow>
   getattr_config (evolve c changes) n = (case map_of changes n of None \<Rightarrow> getattr_config c n | Some v \<Rightarrow> v)"
  by (simp add: getattr_config_def map_of_evolve map_of_rev map_add_def split: option.splits)

section \<open>What reconciling does\<close>

text \<open>The documented behaviour of the library: the reconciled fields exist and default to \<open>None\<close>.\<close>

definition config_lib_ok :: "nats_lib \<Rightarrow> bool" where
  "config_lib_ok L \<longleftrightarrow> distinct (map fst (nl_defaults L)) \<and>
     (\<forall>n \<in> set RECONCILED_CONSUMER_FIELDS. (n, CNone) \<in> set (nl_defaults L))"

lemma sort_eq_Nil [simp]: "sort xs = [] \<longleftrightarrow> xs = []"
  by (metis length_0_conv length_sort)

lemma declared_subset:
  "declared_consumer_fields L config = Inr declared \<Longrightarrow>
     set (map fst declared) \<subseteq> set RECONCILED_CONSUMER_FIELDS \<and>
     declared = filter (\<lambda>(n, v). v \<noteq> getattr_config (nl_defaults L) n) config"
  by (auto simp: declared_consumer_fields_def Let_def filter_empty_conv split: if_splits) blast

lemma distinct_filter_keys: "distinct (map fst xs) \<Longrightarrow> distinct (map fst (filter P xs))"
  by (simp add: distinct_map_filter)

lemma map_of_filter_keys:
  "distinct (map fst xs) \<Longrightarrow>
   map_of (filter P xs) n = (case map_of xs n of None \<Rightarrow> None | Some v \<Rightarrow> if P (n, v) then Some v else None)"
  by (induction xs) (auto simp: map_of_eq_None_iff split: option.splits)

lemma drift_of_empty:
  "drift_of declared current = [] \<longleftrightarrow> (\<forall>(n, v) \<in> set declared. getattr_config current n = v)"
  by (auto simp: drift_of_def filter_empty_conv)

text \<open>The stored configuration with the drift applied: declared fields as declared, others as stored.\<close>

definition reconciled :: "(string \<times> config_value) list \<Rightarrow> consumer_config \<Rightarrow> string \<Rightarrow> config_value" where
  "reconciled declared current n = (case map_of declared n of None \<Rightarrow> getattr_config current n | Some v \<Rightarrow> v)"

lemma getattr_drift:
  "distinct (map fst declared) \<Longrightarrow>
   getattr_config (evolve current (drift_of declared current)) n = reconciled declared current n"
  by (auto simp: getattr_evolve distinct_filter_keys drift_of_def map_of_filter_keys reconciled_def split: option.splits)

lemma no_drift_reconciled:
  "distinct (map fst declared) \<Longrightarrow> drift_of declared current = [] \<Longrightarrow>
   getattr_config current n = reconciled declared current n"
  by (auto simp: drift_of_empty reconciled_def split: option.splits dest: map_of_SomeD)

lemma ensure_unsupported:
  "declared_consumer_fields L config = Inl e \<Longrightarrow> ensure_consumer_config V L stream durable config p = (Inl e, p)"
  by (simp add: ensure_consumer_config_def io_simps)

text \<open>The ways a reconciliation of a supported configuration goes.\<close>

lemma ensure_run:
  assumes "declared_consumer_fields L config = Inr declared"
  shows "ensure_consumer_config V L stream durable config p =
    (let answer = sv_consumer_info V (calls p) stream durable;
         p1 = p\<lparr>calls := calls p @ [ConsumerInfo stream durable (succeeded answer)]\<rparr>
     in case answer of
          Inl e \<Rightarrow> (if is_NotFoundError e then Inr () else Inl e, p1)
        | Inr (current, _) \<Rightarrow>
            if drift_of declared current = [] then (Inr (), p1)
            else let new = evolve current (drift_of declared current);
                     answer2 = sv_add_consumer V (calls p1) stream new
                 in (case answer2 of
                       Inr _ \<Rightarrow> Inr ()
                     | Inl e \<Rightarrow> Inl (if is_APIError e then update_failed L stream durable (drift_of declared current) e else e),
                     p1\<lparr>calls := calls p1 @ [AddConsumer stream new (succeeded answer2)]\<rparr>))"
  using assms
  by (auto simp: ensure_consumer_config_def consumer_info_def add_consumer_def io_simps Let_def split: sum.splits)

text \<open>
  The documented behaviour of the broker for one durable: it answers with the configuration it
  has stored, an accepted update replaces it, reading it changes nothing, and a subscription
  creates it from the fields that are reconciled when there is none, and leaves it as it is
  otherwise.
\<close>

definition keeps_durable ::
  "services \<Rightarrow> string \<Rightarrow> string \<Rightarrow> (call list \<Rightarrow> consumer_config option) \<Rightarrow> bool" where
  "keeps_durable V stream durable stored \<longleftrightarrow>
     (\<forall>cs c n. sv_consumer_info V cs stream durable = Inr (c, n) \<longrightarrow> stored cs = Some c) \<and>
     (\<forall>cs e. sv_consumer_info V cs stream durable = Inl e \<longrightarrow> is_NotFoundError e \<longrightarrow> stored cs = None) \<and>
     (\<forall>cs c. stored (cs @ [AddConsumer stream c True]) = Some c) \<and>
     (\<forall>cs ok. stored (cs @ [ConsumerInfo stream durable ok]) = stored cs) \<and>
     (\<forall>cs sub. sub_stream sub = stream \<longrightarrow> sub_durable sub = durable \<longrightarrow>
        (case stored cs of
           Some c \<Rightarrow> stored (cs @ [Subscribe sub True]) = Some c
         | None \<Rightarrow> \<exists>c. stored (cs @ [Subscribe sub True]) = Some c \<and>
             (\<forall>n \<in> set RECONCILED_CONSUMER_FIELDS. getattr_config c n = getattr_config (sub_config sub) n)))"

lemma keeps_durableD:
  assumes "keeps_durable V stream durable stored"
  shows "sv_consumer_info V cs stream durable = Inr i \<Longrightarrow> stored cs = Some (fst i)"
    and "sv_consumer_info V cs stream durable = Inl e \<Longrightarrow> is_NotFoundError e \<Longrightarrow> stored cs = None"
    and "stored (cs @ [AddConsumer stream c True]) = Some c"
    and "stored (cs @ [ConsumerInfo stream durable ok]) = stored cs"
proof -
  assume "sv_consumer_info V cs stream durable = Inr i"
  then have "sv_consumer_info V cs stream durable = Inr (fst i, snd i)" by simp
  with assms show "stored cs = Some (fst i)" unfolding keeps_durable_def by blast
qed (use assms in \<open>unfold keeps_durable_def, blast+\<close>)

lemma keeps_durable_subscribe:
  assumes "keeps_durable V stream durable stored" "sub_stream sub = stream" "sub_durable sub = durable"
  shows "case stored cs of
      Some c \<Rightarrow> stored (cs @ [Subscribe sub True]) = Some c
    | None \<Rightarrow> \<exists>c. stored (cs @ [Subscribe sub True]) = Some c \<and>
        (\<forall>n \<in> set RECONCILED_CONSUMER_FIELDS. getattr_config c n = getattr_config (sub_config sub) n)"
  using assms unfolding keeps_durable_def by blast

text \<open>After a reconciliation the broker stores what the code declares, and nothing else has changed.\<close>

lemma ensure_stores:
  assumes keeps: "keeps_durable V stream durable stored"
    and declared: "declared_consumer_fields L config = Inr declared" and dist: "distinct (map fst config)"
    and run: "ensure_consumer_config V L stream durable config p = (Inr (), p')"
  shows "case stored (calls p) of
      None \<Rightarrow> stored (calls p') = None
    | Some current \<Rightarrow> \<exists>new. stored (calls p') = Some new \<and> (\<forall>n. getattr_config new n = reconciled declared current n)"
proof -
  note laws = keeps_durableD [OF keeps]
  have d: "distinct (map fst declared)"
    using declared_subset [OF declared] dist by (auto simp: distinct_filter_keys)
  show ?thesis
  proof (cases "sv_consumer_info V (calls p) stream durable")
    case (Inl e)
    with run have e: "is_NotFoundError e" and p': "calls p' = calls p @ [ConsumerInfo stream durable False]"
      by (auto simp: ensure_run [OF declared] Let_def split: if_splits)
    from laws(2) [OF Inl e] p' laws(4) show ?thesis by simp
  next
    case (Inr i)
    then have current: "stored (calls p) = Some (fst i)" by (rule laws(1))
    show ?thesis
    proof (cases "drift_of declared (fst i) = []")
      case True
      with run Inr have "calls p' = calls p @ [ConsumerInfo stream durable True]"
        by (auto simp: ensure_run [OF declared] Let_def split: prod.splits)
      with current laws(4) no_drift_reconciled [OF d True] show ?thesis by simp
    next
      case False
      with run Inr have "calls p' = (calls p @ [ConsumerInfo stream durable True]) @
          [AddConsumer stream (evolve (fst i) (drift_of declared (fst i))) True]"
        by (auto simp: ensure_run [OF declared] Let_def split: prod.splits sum.splits)
      then have "stored (calls p') = Some (evolve (fst i) (drift_of declared (fst i)))"
        using laws(3) by metis
      with current getattr_drift [OF d] show ?thesis by simp
    qed
  qed
qed

text \<open>A configuration that is in step stays untouched.\<close>

lemma reconciled_no_drift:
  assumes "distinct (map fst declared)" "\<And>n. getattr_config new n = reconciled declared current n"
  shows "drift_of declared new = []"
  using assms by (auto simp: drift_of_empty reconciled_def)

lemma ensure_in_step:
  assumes declared: "declared_consumer_fields L config = Inr declared"
    and answer: "sv_consumer_info V (calls p) stream durable = Inr (c, n)" and "drift_of declared c = []"
  shows "ensure_consumer_config V L stream durable config p =
    (Inr (), p\<lparr>calls := calls p @ [ConsumerInfo stream durable True]\<rparr>)"
  using assms(3) answer by (simp add: ensure_run [OF declared] Let_def)

section \<open>What the worker's subscription leaves at the broker\<close>

lemma config_kwargs_keys:
  "distinct (map fst (config_kwargs S m))" "set (map fst (config_kwargs S m)) \<subseteq> set RECONCILED_CONSUMER_FIELDS"
  "(n, v) \<in> set (config_kwargs S m) \<Longrightarrow> v \<noteq> CNone"
  by (auto simp: config_kwargs_def RECONCILED_CONSUMER_FIELDS_def split: option.splits)

lemma default_reconciled:
  "config_lib_ok L \<Longrightarrow> n \<in> set RECONCILED_CONSUMER_FIELDS \<Longrightarrow>
   n \<in> set (map fst (nl_defaults L)) \<and> getattr_config (nl_defaults L) n = CNone"
  by (force simp: config_lib_ok_def getattr_config_def)

lemma worker_config_keys:
  assumes "config_lib_ok L"
  shows "distinct (map fst (make_config L (config_kwargs S m)))"
proof -
  have "set (map fst (config_kwargs S m)) \<subseteq> set (map fst (nl_defaults L))"
    using config_kwargs_keys(2) default_reconciled [OF assms] by blast
  from map_fst_evolve [OF this] assms show ?thesis by (simp add: make_config_def config_lib_ok_def)
qed

lemma worker_config_value:
  "getattr_config (make_config L (config_kwargs S m)) n =
     (case map_of (config_kwargs S m) n of None \<Rightarrow> getattr_config (nl_defaults L) n | Some v \<Rightarrow> v)"
  using getattr_evolve [OF config_kwargs_keys(1)] by (simp add: make_config_def)

lemma worker_declared:
  fixes S m
  assumes ok: "config_lib_ok L"
  defines "config \<equiv> make_config L (config_kwargs S m)"
  shows "\<exists>declared. declared_consumer_fields L config = Inr declared \<and> map_of declared = map_of (config_kwargs S m)"
proof -
  let ?declared = "filter (\<lambda>(n, v). v \<noteq> getattr_config (nl_defaults L) n) config"
  have dist: "distinct (map fst config)" unfolding config_def by (rule worker_config_keys [OF ok])
  have given: "map_of config = map_of (nl_defaults L) ++ map_of (config_kwargs S m)"
    by (simp add: config_def make_config_def map_of_evolve map_of_rev [OF config_kwargs_keys(1)])
  have "map_of ?declared n = map_of (config_kwargs S m) n" for n
  proof (cases "map_of (config_kwargs S m) n")
    case None
    then show ?thesis
      by (simp add: map_of_filter_keys [OF dist] given map_add_def getattr_config_def split: option.splits)
  next
    case (Some v)
    then have "n \<in> set RECONCILED_CONSUMER_FIELDS" and "v \<noteq> CNone"
      using config_kwargs_keys(2) config_kwargs_keys(3) map_of_SomeD [OF Some] by force+
    with default_reconciled [OF ok] Some show ?thesis
      by (simp add: map_of_filter_keys [OF dist] given map_add_def)
  qed
  then have declared: "map_of ?declared = map_of (config_kwargs S m)" by blast
  then have "fst ` set ?declared = fst ` set (config_kwargs S m)" by (metis dom_map_of_conv_image_fst)
  then have "set (map fst ?declared) \<subseteq> set RECONCILED_CONSUMER_FIELDS"
    using config_kwargs_keys(2) [of S m] by (simp only: set_map)
  then have "filter (\<lambda>n. n \<notin> set RECONCILED_CONSUMER_FIELDS) (map fst ?declared) = []"
    by (simp only: filter_empty_conv) blast
  with declared show ?thesis by (simp add: declared_consumer_fields_def Let_def)
qed

text \<open>Whether the durable existed or not, it ends with the values the worker declares.\<close>

lemma subscribe_stores:
  assumes ok: "config_lib_ok L" and keeps: "keeps_durable V (DOCGEN_REQUEST_STREAM S) (DOCGEN_DURABLE S) stored"
    and run: "subscribe_worker V L S m p = (Inr sub, p')"
  shows "\<exists>c. stored (calls p') = Some c \<and> (\<forall>(n, v) \<in> set (config_kwargs S m). getattr_config c n = v)"
proof -
  let ?config = "make_config L (config_kwargs S m)"
  obtain declared where declared: "declared_consumer_fields L ?config = Inr declared"
    and values_of: "map_of declared = map_of (config_kwargs S m)"
    using worker_declared [OF ok] by blast
  from run obtain p1 where ensure: "ensure_consumer_config V L (DOCGEN_REQUEST_STREAM S) (DOCGEN_DURABLE S) ?config p = (Inr (), p1)"
    and p': "calls p' = calls p1 @ [Subscribe sub True]" and sub: "sub_stream sub = DOCGEN_REQUEST_STREAM S"
      "sub_durable sub = DOCGEN_DURABLE S" "sub_config sub = ?config"
    by (auto simp: subscribe_worker_def subscribe_durable_def io_simps Let_def split: prod.splits sum.splits)
  have law: "case stored (calls p1) of
      Some c \<Rightarrow> stored (calls p') = Some c
    | None \<Rightarrow> \<exists>c. stored (calls p') = Some c \<and>
        (\<forall>n \<in> set RECONCILED_CONSUMER_FIELDS. getattr_config c n = getattr_config ?config n)"
    using keeps_durable_subscribe [OF keeps sub(1,2), of "calls p1"] unfolding sub(3) p' .
  have mine: "map_of (config_kwargs S m) n = Some v" "n \<in> set RECONCILED_CONSUMER_FIELDS"
    if "(n, v) \<in> set (config_kwargs S m)" for n v
    using that config_kwargs_keys(1,2) [of S m] by (auto simp: map_of_is_SomeI)
  show ?thesis
  proof (cases "stored (calls p1)")
    case None
    with law obtain c where c: "stored (calls p') = Some c"
      "\<forall>n \<in> set RECONCILED_CONSUMER_FIELDS. getattr_config c n = getattr_config ?config n" by auto
    then have "getattr_config c n = v" if "(n, v) \<in> set (config_kwargs S m)" for n v
      using mine [OF that] by (simp add: worker_config_value)
    with c show ?thesis by auto
  next
    case (Some c)
    with law have c: "stored (calls p') = Some c" by simp
    from ensure_stores [OF keeps declared worker_config_keys [OF ok] ensure] Some
    have "\<exists>current. \<forall>n. getattr_config c n = reconciled declared current n" by (auto split: option.splits)
    then have "getattr_config c n = v" if "(n, v) \<in> set (config_kwargs S m)" for n v
      using mine [OF that] by (auto simp: reconciled_def values_of)
    with c show ?thesis by auto
  qed
qed

end
