(* ===== verification/Lifecycle.thy ===== *)
theory Lifecycle
  imports WorkerStart ConsumerSetup
begin

text \<open>
  The running worker as a system of tasks: \<open>main\<close> of \<open>worker/main.py\<close> from its subscription to its
  end, the callback of \<open>_make_handler\<close> in \<open>worker/dispatcher.py\<close>, which spawns one task per message,
  and the semaphore of \<open>ProcessPoolRenderExecutor\<close>. Between two awaits a task runs alone, so a step
  of the system is what one of them does from one await to the next; \<open>step\<close> is a partial function
  of an action, and the order of the actions is arbitrary.
\<close>

section \<open>The state\<close>

datatype task_state = Running | Rendering | Finished

record task =
  tk_message :: nat
  tk_state :: task_state
  tk_cancelled :: bool

text \<open>Where \<open>main\<close> is: before its subscription, in its \<open>try\<close> block, or in a part of its \<open>finally\<close> block.\<close>

datatype phase =
    Subscribing
  | Listening
  | StoppingPoller
  | Draining
  | Collecting
  | Awaiting "nat list"
  | StoppingPool
  | Closing
  | Ended

record system =
  sy_phase :: phase
  sy_subscribed :: bool
  sy_receiving :: bool
  sy_drain_failed :: bool
  sy_shutdown :: bool
  sy_poller :: bool
  sy_delivered :: "nat list"
  sy_buffer :: "nat list"
  sy_tasks :: "task list"
  sy_inflight :: "nat list"
  sy_permits :: nat
  sy_pool_open :: bool
  sy_connected :: bool

definition initial_system :: "nat \<Rightarrow> system" where
  "initial_system pool_size =
     \<lparr>sy_phase = Subscribing, sy_subscribed = False, sy_receiving = False, sy_drain_failed = False,
      sy_shutdown = False, sy_poller = False, sy_delivered = [], sy_buffer = [], sy_tasks = [],
      sy_inflight = [], sy_permits = pool_size, sy_pool_open = True, sy_connected = True\<rparr>"

text \<open>The part of \<open>main\<close> before the \<open>try\<close> statement: connect, then size the pool and the semaphore.\<close>

definition start_worker :: "services \<Rightarrow> app_settings \<Rightarrow> host \<Rightarrow> (process, system) io" where
  "start_worker V S h =
     and_then (connect_nats_with_retry V S) (\<lambda>_.
     and_then get_jetstream (\<lambda>_.
     and_then (lift_result (render_pool_size S h)) (\<lambda>n.
     ret (initial_system (nat n)))))"

section \<open>The steps\<close>

datatype action =
    Subscribed
  | SubscribeFailed
  | Signal
  | Wakes
  | PollerStopped
  | DrainDone
  | DrainFailed
  | Collect
  | AllFinished
  | WaitTimeout
  | PoolStopped
  | Closed bool
  | Arrives nat
  | Callback
  | Acquire nat
  | Release nat
  | Finish nat
  | DoneCallback nat
  | Cancelled nat

definition finished :: "system \<Rightarrow> nat \<Rightarrow> bool" where
  "finished s t \<longleftrightarrow> tk_state (sy_tasks s ! t) = Finished"

definition in_state :: "system \<Rightarrow> nat \<Rightarrow> task_state \<Rightarrow> bool" where
  "in_state s t st \<longleftrightarrow> t < length (sy_tasks s) \<and> tk_state (sy_tasks s ! t) = st"

definition set_state :: "system \<Rightarrow> nat \<Rightarrow> task_state \<Rightarrow> system" where
  "set_state s t st = s\<lparr>sy_tasks := (sy_tasks s)[t := (sy_tasks s ! t)\<lparr>tk_state := st\<rparr>]\<rparr>"

text \<open>\<open>handle(msg)\<close>: \<open>create_task\<close>, \<open>inflight.add\<close>, \<open>add_done_callback\<close>.\<close>

definition spawn :: "nat \<Rightarrow> system \<Rightarrow> system" where
  "spawn m s =
     s\<lparr>sy_tasks := sy_tasks s @ [\<lparr>tk_message = m, tk_state = Running, tk_cancelled = False\<rparr>],
       sy_inflight := sy_inflight s @ [length (sy_tasks s)]\<rparr>"

text \<open>\<open>_on_task_done\<close>: \<open>inflight.discard\<close>; a crash is only logged.\<close>

definition on_task_done :: "nat \<Rightarrow> system \<Rightarrow> system" where
  [simp]: "on_task_done t s = s\<lparr>sy_inflight := removeAll t (sy_inflight s)\<rparr>"

text \<open>\<open>for task in pending: task.cancel()\<close>.\<close>

definition cancel_pending :: "nat list \<Rightarrow> system \<Rightarrow> system" where
  "cancel_pending snapshot s =
     s\<lparr>sy_tasks := map (\<lambda>(t, k). if t \<in> set snapshot \<and> tk_state k \<noteq> Finished then k\<lparr>tk_cancelled := True\<rparr> else k)
         (enumerate 0 (sy_tasks s))\<rparr>"

definition awaited :: "phase \<Rightarrow> nat list option" where
  "awaited ph = (case ph of Awaiting snapshot \<Rightarrow> Some snapshot | _ \<Rightarrow> None)"

definition guarded :: "bool \<Rightarrow> 'a \<Rightarrow> 'a option" where
  "guarded b x = (if b then Some x else None)"

fun step :: "action \<Rightarrow> system \<Rightarrow> system option" where
  "step Subscribed s = guarded (sy_phase s = Subscribing)
     (s\<lparr>sy_phase := Listening, sy_subscribed := True, sy_receiving := True, sy_poller := True\<rparr>)"
| "step SubscribeFailed s = guarded (sy_phase s = Subscribing) (s\<lparr>sy_phase := StoppingPoller\<rparr>)"
| "step Signal s = Some (s\<lparr>sy_shutdown := True\<rparr>)"
| "step Wakes s = guarded (sy_phase s = Listening \<and> sy_shutdown s) (s\<lparr>sy_phase := StoppingPoller\<rparr>)"
| "step PollerStopped s = guarded (sy_phase s = StoppingPoller)
     (s\<lparr>sy_poller := False, sy_phase := if sy_subscribed s then Draining else Collecting\<rparr>)"
| "step DrainDone s = guarded (sy_phase s = Draining \<and> sy_buffer s = [])
     (s\<lparr>sy_receiving := False, sy_phase := Collecting\<rparr>)"
| "step DrainFailed s = guarded (sy_phase s = Draining) (s\<lparr>sy_drain_failed := True, sy_phase := Collecting\<rparr>)"
| "step Collect s = guarded (sy_phase s = Collecting)
     (s\<lparr>sy_phase := if sy_inflight s = [] then StoppingPool else Awaiting (sy_inflight s)\<rparr>)"
| "step AllFinished s = (case awaited (sy_phase s) of
     None \<Rightarrow> None
   | Some snapshot \<Rightarrow> guarded (list_all (finished s) snapshot) (s\<lparr>sy_phase := StoppingPool\<rparr>))"
| "step WaitTimeout s = (case awaited (sy_phase s) of
     None \<Rightarrow> None
   | Some snapshot \<Rightarrow> Some ((cancel_pending snapshot s)\<lparr>sy_phase := StoppingPool\<rparr>))"
| "step PoolStopped s = guarded (sy_phase s = StoppingPool) (s\<lparr>sy_pool_open := False, sy_phase := Closing\<rparr>)"
| "step (Closed ok) s = guarded (sy_phase s = Closing) (s\<lparr>sy_connected := \<not> ok, sy_phase := Ended\<rparr>)"
| "step (Arrives m) s = guarded (sy_receiving s \<and> sy_connected s)
     (s\<lparr>sy_delivered := sy_delivered s @ [m], sy_buffer := sy_buffer s @ [m]\<rparr>)"
| "step Callback s = (case sy_buffer s of
     [] \<Rightarrow> None
   | m # ms \<Rightarrow> guarded (sy_receiving s \<and> sy_connected s) (spawn m (s\<lparr>sy_buffer := ms\<rparr>)))"
| "step (Acquire t) s = guarded (in_state s t Running \<and> sy_permits s > 0)
     ((set_state s t Rendering)\<lparr>sy_permits := sy_permits s - 1\<rparr>)"
| "step (Release t) s = guarded (in_state s t Rendering)
     ((set_state s t Running)\<lparr>sy_permits := sy_permits s + 1\<rparr>)"
| "step (Finish t) s = guarded (in_state s t Running) (set_state s t Finished)"
| "step (DoneCallback t) s = guarded (in_state s t Finished \<and> t \<in> set (sy_inflight s))
     (on_task_done t s)"
| "step (Cancelled t) s = guarded (t < length (sy_tasks s) \<and> tk_cancelled (sy_tasks s ! t) \<and> \<not> finished s t)
     ((set_state s t Finished)\<lparr>sy_permits := sy_permits s + (if in_state s t Rendering then 1 else 0)\<rparr>)"

fun run_system :: "action list \<Rightarrow> system \<Rightarrow> system option" where
  "run_system [] s = Some s"
| "run_system (a # as) s = (case step a s of None \<Rightarrow> None | Some s' \<Rightarrow> run_system as s')"

inductive reachable :: "nat \<Rightarrow> system \<Rightarrow> bool" for pool_size where
  start: "reachable pool_size (initial_system pool_size)"
| step: "reachable pool_size s \<Longrightarrow> step a s = Some s' \<Longrightarrow> reachable pool_size s'"

lemma guarded_Some [simp]: "guarded b x = Some y \<longleftrightarrow> b \<and> y = x" "guarded True x = Some x"
  by (auto simp: guarded_def)

lemma reachable_run: "reachable n s \<Longrightarrow> run_system as s = Some s' \<Longrightarrow> reachable n s'"
  by (induction as arbitrary: s) (auto split: option.splits intro: reachable.step)

lemma awaited_Some: "awaited ph = Some snapshot \<longleftrightarrow> ph = Awaiting snapshot"
  by (cases ph) (auto simp: awaited_def)

lemma run_append: "run_system (as @ bs) s = (case run_system as s of None \<Rightarrow> None | Some s' \<Rightarrow> run_system bs s')"
  by (induction as arbitrary: s) (auto split: option.splits)

section \<open>How the steps change the tasks\<close>

definition is_unfinished :: "system \<Rightarrow> nat \<Rightarrow> bool" where
  "is_unfinished s t \<longleftrightarrow> t < length (sy_tasks s) \<and> \<not> finished s t"

definition is_cancelled :: "system \<Rightarrow> nat \<Rightarrow> bool" where
  "is_cancelled s t \<longleftrightarrow> t < length (sy_tasks s) \<and> tk_cancelled (sy_tasks s ! t)"

definition rendering :: "system \<Rightarrow> nat" where
  "rendering s = length (filter (\<lambda>k. tk_state k = Rendering) (sy_tasks s))"

lemma length_filter_update:
  "t < length xs \<Longrightarrow>
   length (filter P (xs[t := y])) + (if P (xs ! t) then 1 else 0) = length (filter P xs) + (if P y then 1 else 0)"
proof (induction xs arbitrary: t)
  case (Cons x xs)
  then show ?case using Cons.IH [of "t - 1"] by (cases t) auto
qed simp

lemma rendering_set_state:
  "t < length (sy_tasks s) \<Longrightarrow>
   rendering (set_state s t st) + (if in_state s t Rendering then 1 else 0) =
   rendering s + (if st = Rendering then 1 else 0)"
  using length_filter_update [of t "sy_tasks s" "\<lambda>k. tk_state k = Rendering" "(sy_tasks s ! t)\<lparr>tk_state := st\<rparr>"]
  by (simp add: rendering_def set_state_def in_state_def)

lemma length_cancel_pending [simp]: "length (sy_tasks (cancel_pending sn s)) = length (sy_tasks s)"
  by (simp add: cancel_pending_def)

lemma nth_cancel_pending:
  "t < length (sy_tasks s) \<Longrightarrow> sy_tasks (cancel_pending sn s) ! t =
     (let k = sy_tasks s ! t in if t \<in> set sn \<and> tk_state k \<noteq> Finished then k\<lparr>tk_cancelled := True\<rparr> else k)"
  by (simp add: cancel_pending_def nth_enumerate_eq Let_def)

lemma rendering_cancel_pending [simp]: "rendering (cancel_pending sn s) = rendering s"
proof -
  have "{t. t < length (sy_tasks s) \<and> tk_state (sy_tasks (cancel_pending sn s) ! t) = Rendering} =
      {t. t < length (sy_tasks s) \<and> tk_state (sy_tasks s ! t) = Rendering}"
    by (auto simp: nth_cancel_pending Let_def split: if_splits)
  then show ?thesis by (simp add: rendering_def length_filter_conv_card)
qed

lemma messages_cancel_pending [simp]: "map tk_message (sy_tasks (cancel_pending sn s)) = map tk_message (sy_tasks s)"
  by (rule nth_equalityI) (simp_all add: nth_cancel_pending Let_def)

lemma messages_set_state [simp]:
  "t < length (sy_tasks s) \<Longrightarrow> map tk_message (sy_tasks (set_state s t st)) = map tk_message (sy_tasks s)"
  by (simp add: set_state_def map_update list_update_same_conv)

lemma set_state_fields [simp]:
  "sy_phase (set_state s t st) = sy_phase s" "sy_subscribed (set_state s t st) = sy_subscribed s"
  "sy_receiving (set_state s t st) = sy_receiving s" "sy_drain_failed (set_state s t st) = sy_drain_failed s"
  "sy_shutdown (set_state s t st) = sy_shutdown s" "sy_delivered (set_state s t st) = sy_delivered s"
  "sy_buffer (set_state s t st) = sy_buffer s" "sy_inflight (set_state s t st) = sy_inflight s"
  "sy_permits (set_state s t st) = sy_permits s" "sy_pool_open (set_state s t st) = sy_pool_open s"
  "sy_connected (set_state s t st) = sy_connected s" "length (sy_tasks (set_state s t st)) = length (sy_tasks s)"
  by (simp_all add: set_state_def)

lemma cancel_pending_fields [simp]:
  "sy_subscribed (cancel_pending sn s) = sy_subscribed s" "sy_receiving (cancel_pending sn s) = sy_receiving s"
  "sy_drain_failed (cancel_pending sn s) = sy_drain_failed s" "sy_shutdown (cancel_pending sn s) = sy_shutdown s"
  "sy_delivered (cancel_pending sn s) = sy_delivered s" "sy_buffer (cancel_pending sn s) = sy_buffer s"
  "sy_inflight (cancel_pending sn s) = sy_inflight s" "sy_permits (cancel_pending sn s) = sy_permits s"
  "sy_pool_open (cancel_pending sn s) = sy_pool_open s" "sy_connected (cancel_pending sn s) = sy_connected s"
  by (simp_all add: cancel_pending_def)

lemma unfinished_set_state:
  "u < length (sy_tasks s) \<Longrightarrow>
   is_unfinished (set_state s u st) t \<longleftrightarrow> (if t = u then st \<noteq> Finished else is_unfinished s t)"
  by (auto simp: is_unfinished_def finished_def set_state_def nth_list_update)

lemma cancelled_set_state: "is_cancelled (set_state s u st) t \<longleftrightarrow> is_cancelled s t"
  by (cases "u < length (sy_tasks s)"; cases "t = u") (auto simp: is_cancelled_def set_state_def nth_list_update)

lemma unfinished_cancel_pending [simp]: "is_unfinished (cancel_pending sn s) t \<longleftrightarrow> is_unfinished s t"
  by (auto simp: is_unfinished_def finished_def nth_cancel_pending Let_def split: if_splits)

lemma cancelled_cancel_pending:
  "is_cancelled (cancel_pending sn s) t \<longleftrightarrow> is_cancelled s t \<or> t \<in> set sn \<and> is_unfinished s t"
  by (auto simp: is_cancelled_def is_unfinished_def finished_def nth_cancel_pending Let_def split: if_splits)

lemma spawn_tasks [simp]:
  "sy_tasks (spawn m s) = sy_tasks s @ [\<lparr>tk_message = m, tk_state = Running, tk_cancelled = False\<rparr>]"
  "sy_inflight (spawn m s) = sy_inflight s @ [length (sy_tasks s)]" "sy_phase (spawn m s) = sy_phase s"
  "sy_subscribed (spawn m s) = sy_subscribed s" "sy_receiving (spawn m s) = sy_receiving s"
  "sy_drain_failed (spawn m s) = sy_drain_failed s" "sy_shutdown (spawn m s) = sy_shutdown s"
  "sy_delivered (spawn m s) = sy_delivered s" "sy_buffer (spawn m s) = sy_buffer s"
  "sy_permits (spawn m s) = sy_permits s" "sy_pool_open (spawn m s) = sy_pool_open s"
  "sy_connected (spawn m s) = sy_connected s"
  by (simp_all add: spawn_def)

lemma unfinished_spawn: "is_unfinished (spawn m s) t \<longleftrightarrow> is_unfinished s t \<or> t = length (sy_tasks s)"
  by (auto simp: is_unfinished_def finished_def nth_append)

lemma cancelled_spawn: "is_cancelled (spawn m s) t \<longleftrightarrow> is_cancelled s t"
  by (auto simp: is_cancelled_def nth_append)

lemma rendering_spawn [simp]: "rendering (spawn m s) = rendering s"
  by (simp add: rendering_def)

text \<open>The fields that these notions do not look at.\<close>

lemma rendering_frame [simp]:
  "rendering (s\<lparr>sy_phase := x0\<rparr>) = rendering s" "rendering (s\<lparr>sy_subscribed := x1\<rparr>) = rendering s"
  "rendering (s\<lparr>sy_receiving := x2\<rparr>) = rendering s" "rendering (s\<lparr>sy_drain_failed := x3\<rparr>) = rendering s"
  "rendering (s\<lparr>sy_shutdown := x4\<rparr>) = rendering s" "rendering (s\<lparr>sy_poller := x5\<rparr>) = rendering s"
  "rendering (s\<lparr>sy_delivered := x6\<rparr>) = rendering s" "rendering (s\<lparr>sy_buffer := x7\<rparr>) = rendering s"
  "rendering (s\<lparr>sy_inflight := x8\<rparr>) = rendering s" "rendering (s\<lparr>sy_permits := x9\<rparr>) = rendering s"
  "rendering (s\<lparr>sy_pool_open := x10\<rparr>) = rendering s" "rendering (s\<lparr>sy_connected := x11\<rparr>) = rendering s"
  by (simp_all add: rendering_def)

lemma unfinished_frame [simp]:
  "is_unfinished (s\<lparr>sy_phase := x0\<rparr>) t = is_unfinished s t" "is_unfinished (s\<lparr>sy_subscribed := x1\<rparr>) t = is_unfinished s t"
  "is_unfinished (s\<lparr>sy_receiving := x2\<rparr>) t = is_unfinished s t" "is_unfinished (s\<lparr>sy_drain_failed := x3\<rparr>) t = is_unfinished s t"
  "is_unfinished (s\<lparr>sy_shutdown := x4\<rparr>) t = is_unfinished s t" "is_unfinished (s\<lparr>sy_poller := x5\<rparr>) t = is_unfinished s t"
  "is_unfinished (s\<lparr>sy_delivered := x6\<rparr>) t = is_unfinished s t" "is_unfinished (s\<lparr>sy_buffer := x7\<rparr>) t = is_unfinished s t"
  "is_unfinished (s\<lparr>sy_inflight := x8\<rparr>) t = is_unfinished s t" "is_unfinished (s\<lparr>sy_permits := x9\<rparr>) t = is_unfinished s t"
  "is_unfinished (s\<lparr>sy_pool_open := x10\<rparr>) t = is_unfinished s t" "is_unfinished (s\<lparr>sy_connected := x11\<rparr>) t = is_unfinished s t"
  by (simp_all add: is_unfinished_def finished_def)

lemma cancelled_frame [simp]:
  "is_cancelled (s\<lparr>sy_phase := x0\<rparr>) t = is_cancelled s t" "is_cancelled (s\<lparr>sy_subscribed := x1\<rparr>) t = is_cancelled s t"
  "is_cancelled (s\<lparr>sy_receiving := x2\<rparr>) t = is_cancelled s t" "is_cancelled (s\<lparr>sy_drain_failed := x3\<rparr>) t = is_cancelled s t"
  "is_cancelled (s\<lparr>sy_shutdown := x4\<rparr>) t = is_cancelled s t" "is_cancelled (s\<lparr>sy_poller := x5\<rparr>) t = is_cancelled s t"
  "is_cancelled (s\<lparr>sy_delivered := x6\<rparr>) t = is_cancelled s t" "is_cancelled (s\<lparr>sy_buffer := x7\<rparr>) t = is_cancelled s t"
  "is_cancelled (s\<lparr>sy_inflight := x8\<rparr>) t = is_cancelled s t" "is_cancelled (s\<lparr>sy_permits := x9\<rparr>) t = is_cancelled s t"
  "is_cancelled (s\<lparr>sy_pool_open := x10\<rparr>) t = is_cancelled s t" "is_cancelled (s\<lparr>sy_connected := x11\<rparr>) t = is_cancelled s t"
  by (simp_all add: is_cancelled_def)

end
