(* ===== verification/Shutdown.thy ===== *)
theory Shutdown
  imports Lifecycle
begin

text \<open>
  The invariants of the running worker and its shutdown: the semaphore bounds the renders, the
  \<open>inflight\<close> set knows every unfinished task, no delivered message is lost unless the drain fails,
  and once it has been told to stop \<open>main\<close> ends in every fair run, after a bounded number of its own
  steps and whatever the tasks do.
\<close>

section \<open>Resources\<close>

definition resources :: "nat \<Rightarrow> system \<Rightarrow> bool" where
  "resources n s \<longleftrightarrow> rendering s + sy_permits s = n"

lemma rendering_state_cases:
  "in_state s t Rendering \<Longrightarrow> st \<noteq> Rendering \<Longrightarrow> rendering (set_state s t st) + 1 = rendering s"
  "in_state s t Running \<Longrightarrow> rendering (set_state s t Rendering) = rendering s + 1"
  "in_state s t Running \<Longrightarrow> st \<noteq> Rendering \<Longrightarrow> rendering (set_state s t st) = rendering s"
  "t < length (sy_tasks s) \<Longrightarrow> \<not> in_state s t Rendering \<Longrightarrow> st \<noteq> Rendering \<Longrightarrow> rendering (set_state s t st) = rendering s"
proof -
  note count = rendering_set_state [of t s]
  show "in_state s t Rendering \<Longrightarrow> st \<noteq> Rendering \<Longrightarrow> rendering (set_state s t st) + 1 = rendering s"
    using count [of st] by (simp add: in_state_def)
  show "in_state s t Running \<Longrightarrow> rendering (set_state s t Rendering) = rendering s + 1"
    using count [of Rendering] by (simp add: in_state_def)
  show "in_state s t Running \<Longrightarrow> st \<noteq> Rendering \<Longrightarrow> rendering (set_state s t st) = rendering s"
    using count [of st] by (simp add: in_state_def)
  show "t < length (sy_tasks s) \<Longrightarrow> \<not> in_state s t Rendering \<Longrightarrow> st \<noteq> Rendering \<Longrightarrow> rendering (set_state s t st) = rendering s"
    using count [of st] by simp
qed

lemma resources_step:
  assumes "step a s = Some s'" "resources n s"
  shows "resources n s'"
proof (cases a)
  case (Cancelled t)
  with assms rendering_state_cases(1,4) [where st = Finished] show ?thesis
    by (cases "in_state s t Rendering") (auto simp: resources_def finished_def)
next
  case (Release t)
  with assms rendering_state_cases(1) [where st = Running] show ?thesis by (auto simp: resources_def)
qed (use assms in \<open>auto simp: resources_def rendering_state_cases(2,3) awaited_Some
      split: list.splits option.splits\<close>)

lemma reachable_resources: "reachable n s \<Longrightarrow> resources n s"
proof (induction rule: reachable.induct)
  case start
  show ?case by (simp add: resources_def initial_system_def rendering_def)
qed (rule resources_step)

section \<open>Book-keeping\<close>

definition bookkeeping :: "system \<Rightarrow> bool" where
  "bookkeeping s \<longleftrightarrow> distinct (sy_inflight s) \<and> (\<forall>t \<in> set (sy_inflight s). t < length (sy_tasks s)) \<and>
     (\<forall>t. is_unfinished s t \<longrightarrow> t \<in> set (sy_inflight s))"

definition handled_in_order :: "system \<Rightarrow> bool" where
  "handled_in_order s \<longleftrightarrow> map tk_message (sy_tasks s) @ sy_buffer s = sy_delivered s"

lemma in_state_length: "in_state s t st \<Longrightarrow> t < length (sy_tasks s)"
  by (simp add: in_state_def)

lemma in_state_unfinished: "in_state s t st \<Longrightarrow> is_unfinished s t \<longleftrightarrow> st \<noteq> Finished"
  by (auto simp: in_state_def is_unfinished_def finished_def)

lemma handled_in_order_step:
  assumes "step a s = Some s'" "handled_in_order s"
  shows "handled_in_order s'"
  by (cases a) (use assms in \<open>auto simp: handled_in_order_def awaited_Some in_state_length split: list.splits option.splits\<close>)

text \<open>Steps of a task neither add a task nor revive one.\<close>

lemma unfinished_after:
  assumes "step a s = Some s'" "is_unfinished s' t"
  shows "is_unfinished s t \<or> a = Callback \<and> t = length (sy_tasks s) \<and> t \<in> set (sy_inflight s')"
proof -
  have old: "is_unfinished s t" if "is_unfinished (set_state s u st) t" "is_unfinished s u" for u st
    using that unfinished_set_state [of u s st t] by (auto simp: is_unfinished_def [of s u] split: if_splits)
  have old': "is_unfinished s t" if "is_unfinished (set_state s u st) t" "in_state s u st'" "st' \<noteq> Finished" for u st st'
    using old that in_state_unfinished by blast
  show ?thesis
  proof (cases a)
    case (Cancelled u)
    with assms show ?thesis using old [of u Finished] by (auto simp: is_unfinished_def [of s u])
  qed (use assms in \<open>auto simp: awaited_Some unfinished_spawn split: list.splits option.splits dest: old'\<close>)
qed

lemma inflight_after:
  assumes "step a s = Some s'" "t \<in> set (sy_inflight s')"
  shows "t \<in> set (sy_inflight s) \<or> a = Callback \<and> t = length (sy_tasks s)"
  by (cases a) (use assms in \<open>auto simp: awaited_Some split: list.splits option.splits\<close>)

lemma length_after:
  assumes "step a s = Some s'"
  shows "length (sy_tasks s') = length (sy_tasks s) + (if a = Callback then 1 else 0)"
  by (cases a) (use assms in \<open>auto simp: awaited_Some split: list.splits option.splits\<close>)

lemma inflight_forgets:
  assumes "step a s = Some s'" "t \<in> set (sy_inflight s)"
  shows "t \<in> set (sy_inflight s') \<or> \<not> is_unfinished s t \<and> a = DoneCallback t"
  by (cases a) (use assms in_state_unfinished in \<open>auto simp: awaited_Some split: list.splits option.splits\<close>)

lemma bookkeeping_step:
  assumes run: "step a s = Some s'" and inv: "bookkeeping s"
  shows "bookkeeping s'"
proof -
  have "distinct (sy_inflight s')"
    by (cases a) (use run inv in \<open>auto simp: bookkeeping_def awaited_Some distinct_removeAll split: list.splits option.splits\<close>)
  moreover have "t < length (sy_tasks s')" if "t \<in> set (sy_inflight s')" for t
    using inflight_after [OF run that] inv length_after [OF run] by (auto simp: bookkeeping_def)
  moreover have "t \<in> set (sy_inflight s')" if "is_unfinished s' t" for t
    using unfinished_after [OF run that] inv inflight_forgets [OF run, of t] by (auto simp: bookkeeping_def)
  ultimately show ?thesis by (simp add: bookkeeping_def)
qed

section \<open>The order of the shutdown\<close>

definition after_drain :: "phase \<Rightarrow> bool" where
  "after_drain ph = (case ph of Collecting \<Rightarrow> True | Awaiting _ \<Rightarrow> True | StoppingPool \<Rightarrow> True | Closing \<Rightarrow> True
     | Ended \<Rightarrow> True | _ \<Rightarrow> False)"

definition after_wait :: "phase \<Rightarrow> bool" where
  "after_wait ph = (case ph of StoppingPool \<Rightarrow> True | Closing \<Rightarrow> True | Ended \<Rightarrow> True | _ \<Rightarrow> False)"

definition closing_order :: "system \<Rightarrow> bool" where
  "closing_order s \<longleftrightarrow>
     (\<not> sy_connected s \<longrightarrow> sy_phase s = Ended) \<and> (\<not> sy_pool_open s \<longrightarrow> sy_phase s \<in> {Closing, Ended})"

definition subscription_stage :: "system \<Rightarrow> bool" where
  "subscription_stage s \<longleftrightarrow>
     (if sy_subscribed s
      then sy_phase s \<noteq> Subscribing \<and> (sy_phase s \<in> {Listening, StoppingPoller, Draining} \<longrightarrow> sy_receiving s) \<and>
        (sy_phase s \<noteq> Listening \<longrightarrow> sy_shutdown s)
      else sy_phase s \<notin> {Listening, Draining} \<and> \<not> sy_receiving s \<and> sy_buffer s = [])"

definition drained :: "system \<Rightarrow> bool" where
  "drained s \<longleftrightarrow> (after_drain (sy_phase s) \<and> \<not> sy_drain_failed s \<longrightarrow> \<not> sy_receiving s \<and> sy_buffer s = [])"

definition settled :: "system \<Rightarrow> bool" where
  "settled s \<longleftrightarrow>
     (\<forall>t. is_cancelled s t \<longrightarrow> after_wait (sy_phase s)) \<and>
     (\<not> sy_drain_failed s \<longrightarrow>
        (case sy_phase s of Awaiting snapshot \<Rightarrow> \<forall>t. is_unfinished s t \<longrightarrow> t \<in> set snapshot | _ \<Rightarrow> True) \<and>
        (after_wait (sy_phase s) \<longrightarrow> (\<forall>t. is_unfinished s t \<longrightarrow> is_cancelled s t)))"

lemma phase_tests [simp]:
  "after_drain Collecting" "after_drain (Awaiting sn)" "after_drain StoppingPool" "after_drain Closing" "after_drain Ended"
  "\<not> after_drain Subscribing" "\<not> after_drain Listening" "\<not> after_drain StoppingPoller" "\<not> after_drain Draining"
  "after_wait StoppingPool" "after_wait Closing" "after_wait Ended" "\<not> after_wait Collecting" "\<not> after_wait (Awaiting sn)"
  "\<not> after_wait Subscribing" "\<not> after_wait Listening" "\<not> after_wait StoppingPoller" "\<not> after_wait Draining"
  by (simp_all add: after_drain_def after_wait_def)

lemma closing_order_step:
  assumes "step a s = Some s'" "closing_order s"
  shows "closing_order s'"
  by (cases a) (use assms in \<open>auto simp: closing_order_def awaited_Some split: list.splits option.splits\<close>)

lemma subscription_stage_step:
  assumes "step a s = Some s'" "subscription_stage s"
  shows "subscription_stage s'"
  by (cases a) (use assms in \<open>auto simp: subscription_stage_def awaited_Some split: list.splits option.splits if_splits\<close>)

lemma drained_step:
  assumes "step a s = Some s'" "subscription_stage s" "drained s"
  shows "drained s'"
  by (cases a) (use assms in \<open>auto simp: drained_def subscription_stage_def awaited_Some
      split: list.splits option.splits if_splits\<close>)

lemma cancelled_after:
  assumes "step a s = Some s'"
  shows "is_cancelled s t \<Longrightarrow> is_cancelled s' t" and "is_cancelled s' t \<Longrightarrow> is_cancelled s t \<or> a = WaitTimeout"
  by (cases a; use assms in \<open>auto simp: awaited_Some cancelled_set_state cancelled_spawn cancelled_cancel_pending
      split: list.splits option.splits\<close>)+

lemma after_wait_stays: "step a s = Some s' \<Longrightarrow> after_wait (sy_phase s) \<Longrightarrow> after_wait (sy_phase s')"
  by (cases a) (auto simp: awaited_Some split: list.splits option.splits)

lemma drain_failed_stays: "step a s = Some s' \<Longrightarrow> sy_drain_failed s \<Longrightarrow> sy_drain_failed s'"
  by (cases a) (auto simp: awaited_Some split: list.splits option.splits)

lemma timeout_after_wait: "step WaitTimeout s = Some s' \<Longrightarrow> after_wait (sy_phase s')"
  by (auto split: option.splits)

text \<open>How the two phases are entered.\<close>

lemma enters_awaiting:
  assumes "step a s = Some s'" "sy_phase s' = Awaiting sn"
  shows "sy_phase s = Awaiting sn \<or> a = Collect \<and> sn = sy_inflight s"
  by (cases a) (use assms in \<open>auto simp: awaited_Some split: list.splits option.splits if_splits\<close>)

lemma enters_after_wait:
  assumes "step a s = Some s'" "after_wait (sy_phase s')"
  shows "after_wait (sy_phase s) \<or> a = Collect \<and> sy_inflight s = [] \<or>
    (\<exists>sn. sy_phase s = Awaiting sn \<and> (a = AllFinished \<and> list_all (finished s) sn \<or> a = WaitTimeout \<and>
       (\<forall>t. is_unfinished s t \<longrightarrow> t \<in> set sn \<longrightarrow> is_cancelled s' t)))"
  by (cases a) (use assms in \<open>auto simp: awaited_Some cancelled_cancel_pending split: list.splits option.splits if_splits\<close>)

text \<open>After the drain no step brings in a task, so what is unfinished after a step was so before.\<close>

lemma no_new_task:
  assumes "step a s = Some s'" "drained s" "is_unfinished s' t" "\<not> sy_drain_failed s'" "after_drain (sy_phase s)"
  shows "is_unfinished s t" and "\<not> sy_drain_failed s"
proof -
  show ok: "\<not> sy_drain_failed s" using assms(4) drain_failed_stays [OF assms(1)] by blast
  then have "\<not> sy_receiving s" using assms(2,5) by (simp add: drained_def)
  then have "a \<noteq> Callback" using assms(1) by (auto split: list.splits)
  with unfinished_after [OF assms(1,3)] show "is_unfinished s t" by blast
qed

lemma snapshot_step:
  assumes run: "step a s = Some s'" and inv: "bookkeeping s" "drained s" "settled s"
    and now: "\<not> sy_drain_failed s'" "sy_phase s' = Awaiting sn" "is_unfinished s' t"
  shows "t \<in> set sn"
  using enters_awaiting [OF run now(2)]
proof
  assume w: "sy_phase s = Awaiting sn"
  then show ?thesis using no_new_task [OF run inv(2) now(3,1)] inv(3) by (auto simp: settled_def)
next
  assume c: "a = Collect \<and> sn = sy_inflight s"
  then have "after_drain (sy_phase s)" using run by auto
  then show ?thesis using no_new_task(1) [OF run inv(2) now(3,1)] inv(1) c by (auto simp: bookkeeping_def)
qed

lemma settled_end_step:
  assumes run: "step a s = Some s'" and inv: "bookkeeping s" "drained s" "settled s"
    and now: "\<not> sy_drain_failed s'" "after_wait (sy_phase s')" "is_unfinished s' t"
  shows "is_cancelled s' t"
  using enters_after_wait [OF run now(2)]
proof (elim disjE exE conjE)
  assume w: "after_wait (sy_phase s)"
  then have "after_drain (sy_phase s)" by (cases "sy_phase s") auto
  then show ?thesis using w no_new_task [OF run inv(2) now(3,1)] inv(3) cancelled_after(1) [OF run]
    by (auto simp: settled_def)
next
  assume c: "a = Collect" "sy_inflight s = []"
  then have "after_drain (sy_phase s)" using run by auto
  then show ?thesis using no_new_task(1) [OF run inv(2) now(3,1)] inv(1) c by (fastforce simp: bookkeeping_def)
next
  fix sn assume w: "sy_phase s = Awaiting sn" "a = AllFinished" "list_all (finished s) sn"
  then have "is_unfinished s t" "t \<in> set sn"
    using no_new_task [OF run inv(2) now(3,1)] inv(3) by (auto simp: settled_def)
  with w show ?thesis by (auto simp: is_unfinished_def list_all_iff)
next
  fix sn assume w: "sy_phase s = Awaiting sn" "\<forall>t. is_unfinished s t \<longrightarrow> t \<in> set sn \<longrightarrow> is_cancelled s' t"
  then have "is_unfinished s t" "t \<in> set sn"
    using no_new_task [OF run inv(2) now(3,1)] inv(3) by (auto simp: settled_def)
  with w show ?thesis by blast
qed

lemma settled_step:
  assumes run: "step a s = Some s'" and inv: "bookkeeping s" "drained s" "settled s"
  shows "settled s'"
proof -
  have "after_wait (sy_phase s')" if "is_cancelled s' t" for t
    using cancelled_after(2) [OF run that] inv(3) after_wait_stays [OF run] timeout_after_wait run
    by (auto simp: settled_def)
  then show ?thesis unfolding settled_def using snapshot_step [OF assms] settled_end_step [OF assms]
    by (auto split: phase.splits)
qed

section \<open>Every reachable state\<close>

definition worker_inv :: "nat \<Rightarrow> system \<Rightarrow> bool" where
  "worker_inv n s \<longleftrightarrow> resources n s \<and> bookkeeping s \<and> handled_in_order s \<and> closing_order s \<and>
     subscription_stage s \<and> drained s \<and> settled s"

lemmas worker_inv_defs = resources_def bookkeeping_def handled_in_order_def closing_order_def
  subscription_stage_def drained_def settled_def

lemma worker_inv_initial: "worker_inv n (initial_system n)"
  by (simp add: worker_inv_def worker_inv_defs initial_system_def rendering_def is_unfinished_def is_cancelled_def)

lemma worker_inv_step: "step a s = Some s' \<Longrightarrow> worker_inv n s \<Longrightarrow> worker_inv n s'"
  unfolding worker_inv_def
  by (elim conjE, intro conjI)
    (erule (1) resources_step bookkeeping_step handled_in_order_step closing_order_step subscription_stage_step
       drained_step [rotated -1] settled_step [rotated -1], assumption?)+

lemma reachable_inv: "reachable n s \<Longrightarrow> worker_inv n s"
  by (induction rule: reachable.induct) (auto intro: worker_inv_initial worker_inv_step)

section \<open>Every fair run of the shutdown ends\<close>

text \<open>
  The own actions are the steps of \<open>main\<close> and the callbacks of buffered messages; the others are
  those of the tasks, the arrival of a message and the signal.
\<close>

definition own_action :: "action \<Rightarrow> bool" where
  "own_action a = (case a of Arrives _ \<Rightarrow> False | Acquire _ \<Rightarrow> False | Release _ \<Rightarrow> False | Finish _ \<Rightarrow> False
     | DoneCallback _ \<Rightarrow> False | Cancelled _ \<Rightarrow> False | Signal \<Rightarrow> False | _ \<Rightarrow> True)"

lemma own_actions [simp]:
  "own_action Subscribed" "own_action Wakes" "own_action PollerStopped" "own_action DrainDone" "own_action Collect"
  "own_action WaitTimeout" "own_action PoolStopped" "own_action (Closed ok)" "own_action Callback"
  by (simp_all add: own_action_def)

text \<open>
  The steps that main and the callbacks have ahead of them before the end, each own action being
  one of them; no other action adds to them, save the arrival of a message.
\<close>

fun phase_rank :: "phase \<Rightarrow> nat" where
  "phase_rank Subscribing = 8"
| "phase_rank Listening = 7"
| "phase_rank StoppingPoller = 6"
| "phase_rank Draining = 5"
| "phase_rank Collecting = 4"
| "phase_rank (Awaiting _) = 3"
| "phase_rank StoppingPool = 2"
| "phase_rank Closing = 1"
| "phase_rank Ended = 0"

definition ahead :: "system \<Rightarrow> nat" where
  "ahead s = phase_rank (sy_phase s) + length (sy_buffer s)"

definition is_arrival :: "action \<Rightarrow> bool" where
  "is_arrival a = (case a of Arrives _ \<Rightarrow> True | _ \<Rightarrow> False)"

definition is_failure :: "action \<Rightarrow> bool" where
  "is_failure a \<longleftrightarrow> a \<in> {SubscribeFailed, DrainFailed}"

lemma ahead_step:
  "step a s = Some s' \<Longrightarrow> ahead s' + (if own_action a then 1 else 0) \<le> ahead s + (if is_arrival a then 1 else 0)"
  by (cases a) (auto simp: ahead_def own_action_def is_arrival_def awaited_Some split: list.splits option.splits)

lemma ahead_bound: "ahead s \<le> length (sy_buffer s) + 8"
  by (cases "sy_phase s") (simp_all add: ahead_def)

lemma shutdown_stays: "step a s = Some s' \<Longrightarrow> sy_shutdown s \<Longrightarrow> sy_shutdown s'"
  by (cases a) (auto simp: awaited_Some split: list.splits option.splits)

lemma ended_stays: "step a s = Some s' \<Longrightarrow> sy_phase s = Ended \<Longrightarrow> sy_phase s' = Ended"
  by (cases a) (auto simp: awaited_Some split: list.splits option.splits)

text \<open>Main is never stuck: whatever the tasks do, one of its own steps or a callback is ready.\<close>

lemma never_stuck:
  assumes reach: "reachable n s" and told: "sy_shutdown s" and "sy_phase s \<noteq> Ended"
  shows "\<exists>a. own_action a \<and> \<not> is_failure a \<and> step a s \<noteq> None"
proof -
  have inv: "closing_order s" "subscription_stage s" using reachable_inv [OF reach] by (auto simp: worker_inv_def)
  have ready: ?thesis if "step a s = Some s'" "own_action a" "\<not> is_failure a" for a s' using that by auto
  show ?thesis
  proof (cases "sy_phase s")
    case Subscribing then show ?thesis by (intro ready [of Subscribed]) (simp_all add: is_failure_def)
  next
    case Listening then show ?thesis using told by (intro ready [of Wakes]) (simp_all add: is_failure_def)
  next
    case StoppingPoller then show ?thesis by (intro ready [of PollerStopped]) (simp_all add: is_failure_def)
  next
    case Draining
    then have "sy_receiving s" "sy_connected s" using inv by (auto simp: closing_order_def subscription_stage_def split: if_splits)
    then show ?thesis using Draining ready [of Callback] ready [of DrainDone]
      by (cases "sy_buffer s") (simp_all add: is_failure_def)
  next
    case Collecting then show ?thesis by (intro ready [of Collect]) (simp_all add: is_failure_def)
  next
    case (Awaiting sn) then show ?thesis by (intro ready [of WaitTimeout]) (simp_all add: is_failure_def awaited_def)
  next
    case StoppingPool then show ?thesis by (intro ready [of PoolStopped]) (simp_all add: is_failure_def)
  next
    case Closing then show ?thesis by (intro ready [of "Closed True"]) (simp_all add: is_failure_def)
  qed (use assms(3) in simp)
qed

text \<open>
  A run without end: \<open>act n\<close> is the step from the \<open>n\<close>-th state. Weak fairness asks of the event loop
  that it does not pass over main and the callbacks for ever while one of them is ready.
\<close>

definition endless_run :: "(nat \<Rightarrow> action) \<Rightarrow> (nat \<Rightarrow> system) \<Rightarrow> bool" where
  "endless_run act st \<longleftrightarrow> (\<forall>n. step (act n) (st n) = Some (st (Suc n)))"

definition own_step_ready :: "system \<Rightarrow> bool" where
  "own_step_ready s \<longleftrightarrow> (\<exists>a. own_action a \<and> step a s \<noteq> None)"

definition weakly_fair :: "(nat \<Rightarrow> action) \<Rightarrow> (nat \<Rightarrow> system) \<Rightarrow> bool" where
  "weakly_fair act st \<longleftrightarrow> (\<forall>n. (\<forall>k \<ge> n. own_step_ready (st k)) \<longrightarrow> (\<exists>k \<ge> n. own_action (act k)))"

definition steps_of :: "(action \<Rightarrow> bool) \<Rightarrow> (nat \<Rightarrow> action) \<Rightarrow> nat \<Rightarrow> nat" where
  "steps_of P act n = length (filter P (map act [0..<n]))"

lemma endless_states:
  assumes "endless_run act st" "reachable k (st 0)" "sy_shutdown (st 0)"
  shows "reachable k (st n) \<and> sy_shutdown (st n)"
proof (induction n)
  case (Suc n)
  have "step (act n) (st n) = Some (st (Suc n))" using assms(1) by (simp add: endless_run_def)
  with Suc shutdown_stays show ?case by (blast intro: reachable.step)
qed (use assms in simp)

lemma endless_ended:
  assumes "endless_run act st" "sy_phase (st n) = Ended" "n \<le> k"
  shows "sy_phase (st k) = Ended"
  using assms(3,2)
proof (induction k rule: dec_induct)
  case (step k)
  have "Lifecycle.step (act k) (st k) = Some (st (Suc k))" using assms(1) by (simp add: endless_run_def)
  with step show ?case by (blast intro: ended_stays)
qed

lemma own_steps_bounded:
  assumes "endless_run act st"
  shows "ahead (st n) + steps_of own_action act n \<le> ahead (st 0) + steps_of is_arrival act n"
proof (induction n)
  case (Suc n)
  have "step (act n) (st n) = Some (st (Suc n))" using assms by (simp add: endless_run_def)
  from ahead_step [OF this] Suc show ?case by (simp add: steps_of_def split: if_splits)
qed (simp add: steps_of_def)

text \<open>Once no message arrives any more, own steps cannot go on for ever.\<close>

lemma own_steps_end:
  assumes run: "endless_run act st" and quiet: "\<forall>k \<ge> N. \<not> is_arrival (act k)"
    and own: "\<forall>n. \<exists>k \<ge> n. own_action (act k)"
  shows False
proof -
  have step: "step (act k) (st k) = Some (st (Suc k))" for k using run by (simp add: endless_run_def)
  have down: "ahead (st k) \<le> ahead (st n)" if "N \<le> n" "n \<le> k" for n k
    using that(2)
  proof (induction k rule: dec_induct)
    case (step k)
    have "ahead (st (Suc k)) \<le> ahead (st k)" using ahead_step [OF \<open>\<And>k. Lifecycle.step (act k) (st k) = Some (st (Suc k))\<close> [of k]] quiet step that(1) by auto
    with step show ?case by simp
  qed simp
  have "False" if "N \<le> n" for n
    using that
  proof (induction "ahead (st n)" arbitrary: n rule: less_induct)
    case less
    obtain k where k: "n \<le> k" "own_action (act k)" using own by blast
    have "ahead (st (Suc k)) < ahead (st k)" using ahead_step [OF step [of k]] quiet k less.prems by auto
    also have "\<dots> \<le> ahead (st n)" by (rule down [OF less.prems k(1)])
    finally show ?case using less.hyps [of "Suc k"] less.prems k(1) by simp
  qed
  then show False by blast
qed

lemma fair_run_ends:
  assumes run: "endless_run act st" and reach: "reachable m (st 0)" and told: "sy_shutdown (st 0)"
    and arrivals: "finite {n. is_arrival (act n)}" and fair: "weakly_fair act st"
  shows "\<exists>n. \<forall>k \<ge> n. sy_phase (st k) = Ended"
proof -
  have "\<exists>n. sy_phase (st n) = Ended"
  proof (rule ccontr)
    assume "\<nexists>n. sy_phase (st n) = Ended"
    then have "own_step_ready (st k)" for k
      using never_stuck endless_states [OF run reach told, of k] unfolding own_step_ready_def by blast
    then have own: "\<forall>n. \<exists>k \<ge> n. own_action (act k)" using fair by (auto simp: weakly_fair_def)
    from arrivals obtain N where "\<forall>n \<in> {n. is_arrival (act n)}. n < N" using finite_nat_set_iff_bounded by blast
    then have "\<forall>k \<ge> N. \<not> is_arrival (act k)" by fastforce
    from own_steps_end [OF run this own] show False .
  qed
  then show ?thesis using endless_ended [OF run] by blast
qed

text \<open>A run that has ended goes on for ever with signals, which change nothing any more.\<close>

definition signals_after :: "action list \<Rightarrow> nat \<Rightarrow> action" where
  "signals_after as n = (if n < length as then as ! n else Signal)"

fun states_from :: "system \<Rightarrow> (nat \<Rightarrow> action) \<Rightarrow> nat \<Rightarrow> system" where
  "states_from s act 0 = s"
| "states_from s act (Suc n) = the (step (act n) (states_from s act n))"

lemma states_from_run:
  "run_system as s = Some s' \<Longrightarrow> n \<le> length as \<Longrightarrow> (\<And>k. k < n \<Longrightarrow> act k = as ! k) \<Longrightarrow>
   run_system (take n as) s = Some (states_from s act n)"
proof (induction n)
  case (Suc n)
  have t: "run_system (take n as) s = Some (states_from s act n)" using Suc by simp
  have "as = take n as @ as ! n # drop (Suc n) as" using Suc.prems(2) by (simp add: id_take_nth_drop)
  then have "run_system (take n as @ as ! n # drop (Suc n) as) s = Some s'" using Suc.prems(1) by simp
  then have "step (as ! n) (states_from s act n) \<noteq> None" using t by (auto simp: run_append split: option.splits)
  then show ?case using t Suc.prems by (auto simp: take_Suc_conv_app_nth run_append)
qed simp

lemma states_from_end:
  assumes "run_system as s = Some s'" "sy_shutdown s'" "length as \<le> n"
  shows "states_from s (signals_after as) n = s'"
  using assms(3)
proof (induction n rule: dec_induct)
  case base
  have "run_system (take (length as) as) s = Some (states_from s (signals_after as) (length as))"
    by (rule states_from_run [OF assms(1)]) (simp_all add: signals_after_def)
  with assms(1) show ?case by simp
next
  case (step n)
  then show ?case using assms(2) by (simp add: signals_after_def)
qed

lemma endless_run_signals:
  assumes "run_system as s = Some s'" "sy_shutdown s'"
  shows "endless_run (signals_after as) (states_from s (signals_after as))"
proof -
  have "step (signals_after as n) (states_from s (signals_after as) n) \<noteq> None" for n
  proof (cases "n < length as")
    case True
    have "run_system (take (Suc n) as) s = Some (states_from s (signals_after as) (Suc n))"
      "run_system (take n as) s = Some (states_from s (signals_after as) n)"
      using True by (intro states_from_run [OF assms(1)]; simp add: signals_after_def)+
    then show ?thesis using True by (auto simp: take_Suc_conv_app_nth run_append signals_after_def split: option.splits)
  qed (simp add: signals_after_def)
  then show ?thesis by (auto simp: endless_run_def)
qed

lemma weakly_fair_signals:
  assumes "run_system as s = Some s'" "sy_shutdown s'" "\<not> own_step_ready s'"
  shows "weakly_fair (signals_after as) (states_from s (signals_after as))"
proof -
  have "\<exists>k \<ge> n. \<not> own_step_ready (states_from s (signals_after as) k)" for n
    using states_from_end [OF assms(1,2), of "max n (length as)"] assms(3) by (intro exI [of _ "max n (length as)"]) simp
  then show ?thesis unfolding weakly_fair_def by blast
qed

lemma finite_arrivals_signals: "finite {n. is_arrival (signals_after as n)}"
  by (rule finite_subset [of _ "{..<length as}"]) (auto simp: signals_after_def is_arrival_def split: if_splits)

lemma ended_not_ready: "sy_phase s = Ended \<Longrightarrow> sy_buffer s = [] \<Longrightarrow> \<not> own_step_ready s"
  unfolding own_step_ready_def
  by (rule notI, elim exE conjE, rename_tac a, case_tac a) (auto simp: own_action_def guarded_def awaited_def)

end
