(* ===== verification/Poller.thy ===== *)
theory Poller
  imports ConsumerSetup "HOL-Library.Sublist"
begin

text \<open>
  \<open>_poll_queue_depth\<close> of \<open>worker/main.py\<close> and the snapshot of \<open>core/metrics.py\<close>: the loop that
  measures the queue and touches the liveness file. The loop may run for ever, so it is a partial
  function; that it ends once the shutdown event is set is proved.
\<close>

definition QUEUE_DEPTH_POLL_INTERVAL_SECONDS :: int where
  "QUEUE_DEPTH_POLL_INTERVAL_SECONDS = 15"

definition is_TimeoutError :: "exn \<Rightarrow> bool" where
  "is_TimeoutError e = (case e of TimeoutError _ \<Rightarrow> True | _ \<Rightarrow> False)"

text \<open>The first \<open>try\<close> statement: whether the broker answered.\<close>

definition measure_queue :: "services \<Rightarrow> app_settings \<Rightarrow> (process, bool) io" where
  "measure_queue V S =
     try_except
       (and_then (consumer_info V (DOCGEN_REQUEST_STREAM S) (DOCGEN_DURABLE S)) (\<lambda>info p.
          (Inr True, p\<lparr>queue_depth_snapshot :=
             dict_set (queue_depth_snapshot p) (DOCGEN_REQUEST_SUBJECT S) (snd info)\<rparr>)))
       is_Exception (\<lambda>_. ret False)"

definition touch_heartbeat :: "services \<Rightarrow> (process, unit) io" where
  "touch_heartbeat V = try_except (perform (sv_touch V) TouchHeartbeat) is_OSError (\<lambda>_. ret ())"

definition wait_for_shutdown :: "services \<Rightarrow> (process, unit) io" where
  "wait_for_shutdown V =
     try_except (perform (sv_wait V) (WaitForShutdown QUEUE_DEPTH_POLL_INTERVAL_SECONDS))
       is_TimeoutError (\<lambda>_. ret ())"

text \<open>The body of the loop.\<close>

definition poll_round :: "services \<Rightarrow> app_settings \<Rightarrow> (process, unit) io" where
  "poll_round V S =
     and_then (measure_queue V S) (\<lambda>answered.
     and_then (if answered then touch_heartbeat V else ret ()) (\<lambda>_.
     wait_for_shutdown V))"

partial_function (option) poll_queue_depth ::
  "services \<Rightarrow> app_settings \<Rightarrow> process \<Rightarrow> ((exn + unit) \<times> process) option" where
  "poll_queue_depth V S p =
     (if sv_shutdown_set V (calls p) then Some (Inr (), p)
      else case fst (poll_round V S p) of
             Inl e \<Rightarrow> Some (Inl e, snd (poll_round V S p))
           | Inr _ \<Rightarrow> poll_queue_depth V S (snd (poll_round V S p)))"

text \<open>\<open>_queue_depth_callback\<close>: one observation per subject.\<close>

definition queue_depth_callback :: "process \<Rightarrow> (int \<times> string) list" where
  "queue_depth_callback p = map (\<lambda>(subject, depth). (depth, subject)) (queue_depth_snapshot p)"

section \<open>One round\<close>

text \<open>The calls of a round: a question, a touch only after an answer, then the wait.\<close>

definition round_calls :: "app_settings \<Rightarrow> call list \<Rightarrow> bool" where
  "round_calls S cs \<longleftrightarrow>
     (let asked = (\<lambda>ok. ConsumerInfo (DOCGEN_REQUEST_STREAM S) (DOCGEN_DURABLE S) ok);
          waited = (\<lambda>ok. WaitForShutdown QUEUE_DEPTH_POLL_INTERVAL_SECONDS ok)
      in cs = [asked False] \<or> cs = [asked True, TouchHeartbeat False] \<or>
         (\<exists>ok. cs = [asked False, waited ok]) \<or> (\<exists>ok ok'. cs = [asked True, TouchHeartbeat ok, waited ok']))"

lemma poll_round_calls:
  assumes "poll_round V S p = (r, p')"
  shows "\<exists>cs. calls p' = calls p @ cs \<and> round_calls S cs \<and> (succeeded r \<longrightarrow> 2 \<le> length cs)"
  using assms
  by (auto simp: poll_round_def measure_queue_def consumer_info_def touch_heartbeat_def wait_for_shutdown_def
      io_simps round_calls_def Let_def split: sum.splits if_splits)

text \<open>
  What ends a round with an exception: a cancellation, provided that touching raises nothing but
  \<open>OSError\<close> and waiting nothing but a timeout.
\<close>

definition mild :: "services \<Rightarrow> bool" where
  "mild V \<longleftrightarrow> (\<forall>cs e. sv_touch V cs = Inl e \<longrightarrow> is_OSError e \<or> \<not> is_Exception e) \<and>
     (\<forall>cs e. sv_wait V cs = Inl e \<longrightarrow> is_TimeoutError e \<or> \<not> is_Exception e)"

lemma poll_round_raises:
  assumes "mild V" "poll_round V S p = (Inl e, p')"
  shows "\<not> is_Exception e"
  using assms
  by (auto simp: poll_round_def measure_queue_def consumer_info_def touch_heartbeat_def wait_for_shutdown_def
      io_simps mild_def split: sum.splits if_splits)

section \<open>The loop\<close>

lemma poll_stop: "sv_shutdown_set V (calls p) \<Longrightarrow> poll_queue_depth V S p = Some (Inr (), p)"
  by (simp add: poll_queue_depth.simps [of V S p])

lemma poll_go:
  "\<not> sv_shutdown_set V (calls p) \<Longrightarrow> poll_round V S p = (r, p1) \<Longrightarrow>
   poll_queue_depth V S p = (case r of Inl e \<Rightarrow> Some (Inl e, p1) | Inr _ \<Rightarrow> poll_queue_depth V S p1)"
  by (simp add: poll_queue_depth.simps [of V S p] cong: sum.case_cong)

text \<open>A property of the calls that every round adds holds of those of a whole run.\<close>

lemma poll_invariant:
  assumes R: "\<And>V S p r p'. Q V S \<Longrightarrow> poll_round V S p = (r, p') \<Longrightarrow> R p p'" and refl: "\<And>p. R p p"
    and trans: "\<And>p p' p''. R p p' \<Longrightarrow> R p' p'' \<Longrightarrow> R p p''"
    and "Q V S" and run: "poll_queue_depth V S p = Some y"
  shows "R p (snd y)"
proof -
  have "Q V S \<longrightarrow> R p (snd y)"
  proof (rule poll_queue_depth.raw_induct [where P = "\<lambda>V S p y. Q V S \<longrightarrow> R p (snd y)", OF _ run])
    fix f V S p y
    assume IH: "\<And>V S p y. f V S p = Some y \<Longrightarrow> Q V S \<longrightarrow> R p (snd y)"
      and eq: "(if sv_shutdown_set V (calls p) then Some (Inr (), p)
        else case fst (poll_round V S p) of
            Inl e \<Rightarrow> Some (Inl e, snd (poll_round V S p))
          | Inr _ \<Rightarrow> f V S (snd (poll_round V S p))) = Some y"
    obtain r p1 where round: "poll_round V S p = (r, p1)" by (cases "poll_round V S p")
    show "Q V S \<longrightarrow> R p (snd y)"
    proof
      assume q: "Q V S"
      note first = R [OF q round]
      show "R p (snd y)"
      proof (cases "sv_shutdown_set V (calls p)")
        case False
        with eq have "(case r of Inl e \<Rightarrow> Some (Inl e, p1) | Inr _ \<Rightarrow> f V S p1) = Some y"
          by (simp add: round cong: sum.case_cong)
        then show ?thesis using first q IH [of V S p1 y] trans [OF first] by (cases r) auto
      qed (use eq refl in auto)
    qed
  qed
  with \<open>Q V S\<close> show ?thesis by blast
qed

text \<open>
  Every touch of the liveness file follows an answer of the broker: the calls of a run are those
  of its rounds.
\<close>

definition made_of_rounds :: "app_settings \<Rightarrow> process \<Rightarrow> process \<Rightarrow> bool" where
  "made_of_rounds S p p' \<longleftrightarrow> (\<exists>rounds. calls p' = calls p @ concat rounds \<and> list_all (round_calls S) rounds)"

lemma poll_rounds:
  assumes "poll_queue_depth V S p = Some y"
  shows "made_of_rounds S p (snd y)"
proof (rule poll_invariant [where Q = "\<lambda>_ S'. S' = S", OF _ _ _ _ assms])
  show "made_of_rounds S p p'" if same: "S' = S" and round: "poll_round V S' p = (r, p')" for V S' p r p'
  proof -
    obtain cs where "calls p' = calls p @ cs" "round_calls S cs" using poll_round_calls [OF round] same by auto
    then show ?thesis by (auto simp: made_of_rounds_def intro!: exI [of _ "[cs]"])
  qed
  show "made_of_rounds S p p" for p by (auto simp: made_of_rounds_def intro!: exI [of _ "[]"])
  show "made_of_rounds S p p''" if steps: "made_of_rounds S p p'" "made_of_rounds S p' p''" for p p' p''
  proof -
    from steps obtain as bs where "calls p' = calls p @ concat as" "calls p'' = calls p' @ concat bs"
      "list_all (round_calls S) as" "list_all (round_calls S) bs" by (auto simp: made_of_rounds_def)
    then show ?thesis unfolding made_of_rounds_def by (intro exI [of _ "as @ bs"]) simp
  qed
qed simp

text \<open>Once the event stays set, the loop ends, after finitely many rounds.\<close>

lemma poll_returns:
  assumes set_at: "\<And>cs. n \<le> length cs \<Longrightarrow> sv_shutdown_set V cs"
  shows "\<exists>r p'. poll_queue_depth V S p = Some (r, p')"
proof (induction "n - length (calls p)" arbitrary: p rule: less_induct)
  case less
  show ?case
  proof (cases "sv_shutdown_set V (calls p)")
    case False
    then have room: "length (calls p) < n" using set_at [of "calls p"] by linarith
    obtain r p1 where round: "poll_round V S p = (r, p1)" by (cases "poll_round V S p")
    show ?thesis
    proof (cases r)
      case (Inr u)
      obtain cs where "calls p1 = calls p @ cs" "2 \<le> length cs"
        using poll_round_calls [OF round] Inr by auto
      then have "n - length (calls p1) < n - length (calls p)" using room by simp
      from less [OF this] show ?thesis using poll_go [OF False round] Inr by simp
    qed (use poll_go [OF False round] in simp)
  qed (use poll_stop in blast)
qed

text \<open>In a run without cancellation the loop ends without an exception.\<close>

lemma poll_ends_mildly:
  assumes "mild V" and run: "poll_queue_depth V S p = Some (r, p')"
  shows "case r of Inl e \<Rightarrow> \<not> is_Exception e | Inr _ \<Rightarrow> sv_shutdown_set V (calls p')"
proof -
  have "mild V \<longrightarrow> (case fst (r, p') of Inl e \<Rightarrow> \<not> is_Exception e | Inr _ \<Rightarrow> sv_shutdown_set V (calls (snd (r, p'))))"
  proof (rule poll_queue_depth.raw_induct [where P = "\<lambda>V S p y. mild V \<longrightarrow>
        (case fst y of Inl e \<Rightarrow> \<not> is_Exception e | Inr _ \<Rightarrow> sv_shutdown_set V (calls (snd y)))", OF _ run])
    fix f V S p y
    assume IH: "\<And>V S p y. f V S p = Some y \<Longrightarrow> mild V \<longrightarrow>
        (case fst y of Inl e \<Rightarrow> \<not> is_Exception e | Inr _ \<Rightarrow> sv_shutdown_set V (calls (snd y)))"
      and eq: "(if sv_shutdown_set V (calls p) then Some (Inr (), p)
        else case fst (poll_round V S p) of
            Inl e \<Rightarrow> Some (Inl e, snd (poll_round V S p))
          | Inr _ \<Rightarrow> f V S (snd (poll_round V S p))) = Some y"
    obtain r p1 where round: "poll_round V S p = (r, p1)" by (cases "poll_round V S p")
    show "mild V \<longrightarrow> (case fst y of Inl e \<Rightarrow> \<not> is_Exception e | Inr _ \<Rightarrow> sv_shutdown_set V (calls (snd y)))"
    proof (cases "sv_shutdown_set V (calls p)")
      case False
      with eq have "(case r of Inl e \<Rightarrow> Some (Inl e, p1) | Inr _ \<Rightarrow> f V S p1) = Some y"
        by (simp add: round cong: sum.case_cong)
      then show ?thesis using round IH [of V S p1 y] poll_round_raises [of V S p] by (cases r) auto
    qed (use eq in auto)
  qed
  with assms(1) show ?thesis by (cases r) simp_all
qed

end
