(* ===== verification/Telemetry.thy ===== *)
theory Telemetry
  imports Config
begin

text \<open>
  \<open>core/logging.py\<close> and \<open>core/tracing.py\<close>: where the log lines and metrics of the process go. The
  OpenTelemetry SDK is the parameter \<open>sdk\<close>: the outcome of each of its calls, as a function of the
  calls so far. The state is what the two modules keep and the handlers of the root logger.
\<close>

section \<open>State\<close>

datatype level = DEBUG | INFO

text \<open>A console handler with its formatter, and the exporter with its level.\<close>

datatype handler_kind =
    HumanConsole string string
  | JsonConsole string "(string \<times> string) list"
  | OtlpExport level

record log_handler =
  lh_kind :: handler_kind
  lh_stamps_request_id :: bool

datatype sdk_call =
    CreateResource "(string \<times> string) list"
  | CreateLogExporter string "(string \<times> string) list" int
  | CreateLogProvider
  | AddLogProcessor
  | CreateMetricExporter string "(string \<times> string) list" int
  | CreateMetricReader int
  | CreateMeterProvider
  | SetMeterProvider
  | RegisterAtExit
  | ForceFlushLogs int
  | ShutdownMetrics int

record telemetry =
  tl_calls :: "sdk_call list"
  tl_handlers :: "log_handler list"
  tl_level :: level
  tl_log_provider :: bool
  tl_meter_provider :: bool
  tl_log_handler :: "log_handler option"

type_synonym sdk = "sdk_call list \<Rightarrow> sdk_call \<Rightarrow> exn + unit"

definition call_sdk :: "sdk \<Rightarrow> sdk_call \<Rightarrow> (telemetry, unit) io" where
  "call_sdk K c = (\<lambda>t. (K (tl_calls t) c, t\<lparr>tl_calls := tl_calls t @ [c]\<rparr>))"

definition modify :: "('w \<Rightarrow> 'w) \<Rightarrow> ('w, unit) io" where
  "modify f = (\<lambda>w. (Inr (), f w))"

lemma telemetry_run [io_simps]:
  "call_sdk K c t = (K (tl_calls t) c, t\<lparr>tl_calls := tl_calls t @ [c]\<rparr>)" "modify f w = (Inr (), f w)"
  by (simp_all add: call_sdk_def modify_def)

section \<open>Logging\<close>

text \<open>\<open>RequestIdFilter.filter\<close>: the id a record is stamped with, from the context variable.\<close>

definition stamped_request_id :: "string option \<Rightarrow> string" where
  "stamped_request_id current =
     (case current of None \<Rightarrow> ''-'' | Some rid \<Rightarrow> if rid = [] then ''-'' else rid)"

definition human_console :: log_handler where
  "human_console =
     \<lparr>lh_kind = HumanConsole
        ''%(asctime)s | %(levelname)-8s | %(name)s | req=%(request_id)s | %(message)s'' ''%H:%M:%S'',
      lh_stamps_request_id = True\<rparr>"

definition json_console :: log_handler where
  "json_console =
     \<lparr>lh_kind = JsonConsole ''%(asctime)s %(levelname)s %(name)s %(request_id)s %(message)s''
        [(''levelname'', ''level''), (''asctime'', ''timestamp'')],
      lh_stamps_request_id = True\<rparr>"

lemma console_stamps [simp]: "lh_stamps_request_id human_console" "lh_stamps_request_id json_console"
  by (simp_all add: human_console_def json_console_def)

definition configure_logging :: "app_settings \<Rightarrow> (telemetry, unit) io" where
  "configure_logging S = modify (\<lambda>t.
     let t = t\<lparr>tl_handlers := []\<rparr>
     in if ENV S = LOCAL
        then t\<lparr>tl_handlers := tl_handlers t @ [human_console], tl_level := DEBUG\<rparr>
        else if ENV S = STAGING
        then t\<lparr>tl_handlers := tl_handlers t @ [json_console], tl_level := INFO\<rparr>
        else t\<lparr>tl_level := INFO\<rparr>)"

section \<open>Exporters\<close>

definition EXPORTER_TIMEOUT_SECONDS :: int where
  "EXPORTER_TIMEOUT_SECONDS = 5"

definition EXPORTER_TIMEOUT_MS :: int where
  "EXPORTER_TIMEOUT_MS = EXPORTER_TIMEOUT_SECONDS * 1000"

definition METRIC_EXPORT_INTERVAL_MS :: int where
  "METRIC_EXPORT_INTERVAL_MS = 15000"

text \<open>The lines under \<open># --- Logs ---\<close> and \<open># --- Metrics ---\<close>.\<close>

definition export_handler :: log_handler where
  "export_handler = \<lparr>lh_kind = OtlpExport INFO, lh_stamps_request_id = True\<rparr>"

definition setup_logs :: "sdk \<Rightarrow> app_settings \<Rightarrow> (string \<times> string) list \<Rightarrow> (telemetry, unit) io" where
  "setup_logs K S headers =
     and_then (call_sdk K (CreateLogExporter (LOGGING_LOGS_URL S) headers EXPORTER_TIMEOUT_SECONDS)) (\<lambda>_.
     and_then (call_sdk K CreateLogProvider) (\<lambda>_.
     and_then (call_sdk K AddLogProcessor) (\<lambda>_.
     modify (\<lambda>t. t\<lparr>tl_handlers := tl_handlers t @ [export_handler], tl_log_handler := Some export_handler\<rparr>))))"

definition setup_metrics :: "sdk \<Rightarrow> app_settings \<Rightarrow> (string \<times> string) list \<Rightarrow> (telemetry, unit) io" where
  "setup_metrics K S headers =
     and_then (call_sdk K (CreateMetricExporter (LOGGING_METRICS_URL S) headers EXPORTER_TIMEOUT_SECONDS)) (\<lambda>_.
     and_then (call_sdk K (CreateMetricReader METRIC_EXPORT_INTERVAL_MS)) (\<lambda>_.
     and_then (call_sdk K CreateMeterProvider) (\<lambda>_.
     and_then (call_sdk K SetMeterProvider) (\<lambda>_.
     and_then (modify (\<lambda>t. t\<lparr>tl_meter_provider := True, tl_log_provider := True\<rparr>)) (\<lambda>_.
     call_sdk K RegisterAtExit)))))"

text \<open>\<open>setup_tracer_provider\<close>; \<open>instance\<close> is \<open>os.getenv("HOSTNAME") or str(uuid.uuid4())\<close>.\<close>

definition setup_tracer_provider :: "sdk \<Rightarrow> app_settings \<Rightarrow> string \<Rightarrow> (telemetry, unit) io" where
  "setup_tracer_provider K S inst =
     (if ENV S \<in> {LOCAL, TEST} then ret ()
      else if LOGGING_METRICS_URL S = [] \<or> LOGGING_LOGS_URL S = [] then ret ()
      else
        and_then (call_sdk K (CreateResource
          [(''service.name'', ''document-generation''), (''env'', environment_value (ENV S)), (''service.instance.id'', inst)])) (\<lambda>_.
        let headers = [(''Authorization'', ''Bearer '' @ LOGGING_TOKEN S)]
        in and_then (setup_logs K S headers) (\<lambda>_. setup_metrics K S headers)))"

section \<open>The flush at exit\<close>

text \<open>\<open>logging.getLogger().removeHandler(h)\<close>.\<close>

definition flush_logs :: "sdk \<Rightarrow> int \<Rightarrow> (telemetry, unit) io" where
  "flush_logs K timeout_millis =
     try_except
       (and_then (call_sdk K (ForceFlushLogs timeout_millis)) (\<lambda>_.
        modify (\<lambda>t. case tl_log_handler t of
            None \<Rightarrow> t
          | Some h \<Rightarrow> t\<lparr>tl_handlers := remove1 h (tl_handlers t), tl_log_handler := None\<rparr>)))
       is_Exception (\<lambda>_. ret ())"

definition flush_metrics :: "sdk \<Rightarrow> int \<Rightarrow> (telemetry, unit) io" where
  "flush_metrics K timeout_millis =
     try_except (call_sdk K (ShutdownMetrics timeout_millis)) is_Exception (\<lambda>_. ret ())"

definition shutdown_telemetry :: "sdk \<Rightarrow> int \<Rightarrow> (telemetry, unit) io" where
  "shutdown_telemetry K timeout_millis = (\<lambda>t.
     and_then (if tl_log_provider t then flush_logs K timeout_millis else ret ()) (\<lambda>_ t'.
     (if tl_meter_provider t' then flush_metrics K timeout_millis else ret ()) t') t)"

section \<open>What start and exit leave\<close>

definition fresh_telemetry :: "log_handler list \<Rightarrow> telemetry" where
  "fresh_telemetry hs =
     \<lparr>tl_calls = [], tl_handlers = hs, tl_level = INFO, tl_log_provider = False, tl_meter_provider = False,
      tl_log_handler = None\<rparr>"

definition start_telemetry :: "sdk \<Rightarrow> app_settings \<Rightarrow> string \<Rightarrow> (telemetry, unit) io" where
  "start_telemetry K S inst = and_then (configure_logging S) (\<lambda>_. setup_tracer_provider K S inst)"

definition exports :: "app_settings \<Rightarrow> bool" where
  "exports S \<longleftrightarrow> ENV S \<in> {STAGING, PRODUCTION} \<and> LOGGING_METRICS_URL S \<noteq> [] \<and> LOGGING_LOGS_URL S \<noteq> []"

lemma setup_idle: "\<not> exports S \<Longrightarrow> setup_tracer_provider K S inst t = (Inr (), t)"
  by (cases "ENV S") (auto simp: setup_tracer_provider_def exports_def)

lemma setup_exports:
  assumes "exports S" "\<And>cs c. K cs c = Inr ()"
  shows "\<exists>t'. setup_tracer_provider K S inst t = (Inr (), t') \<and> tl_handlers t' = tl_handlers t @ [export_handler] \<and>
    tl_log_handler t' = Some export_handler \<and> tl_meter_provider t' \<and> tl_log_provider t'"
  using assms by (auto simp: exports_def setup_tracer_provider_def setup_logs_def setup_metrics_def io_simps Let_def)

lemma configured_handlers:
  "\<exists>t'. configure_logging S t = (Inr (), t') \<and> tl_handlers t' =
    (case ENV S of LOCAL \<Rightarrow> [human_console]
       | STAGING \<Rightarrow> [json_console] | _ \<Rightarrow> [])"
  by (cases "ENV S") (auto simp: configure_logging_def io_simps)

text \<open>
  The handlers after the start: one console handler locally and in staging, the exporter where it
  is configured, and in every environment but \<open>TEST\<close> at least one that stamps the request id.
\<close>

lemma start_handlers:
  assumes "\<And>cs c. K cs c = Inr ()"
  shows "\<exists>t'. start_telemetry K S inst t = (Inr (), t') \<and> tl_handlers t' =
    (case ENV S of LOCAL \<Rightarrow> [human_console]
       | STAGING \<Rightarrow> [json_console] | _ \<Rightarrow> []) @
    (if exports S then [export_handler] else [])"
proof -
  obtain t0 where t0: "configure_logging S t = (Inr (), t0)" "tl_handlers t0 =
    (case ENV S of LOCAL \<Rightarrow> [human_console]
       | STAGING \<Rightarrow> [json_console] | _ \<Rightarrow> [])"
    using configured_handlers by blast
  show ?thesis
  proof (cases "exports S")
    case True
    then show ?thesis using setup_exports [OF True, of K inst t0] assms t0 by (auto simp: start_telemetry_def io_simps)
  next
    case False
    then show ?thesis using t0 by (simp add: start_telemetry_def io_simps setup_idle)
  qed
qed

text \<open>The flush never raises, and it detaches the handler it has flushed.\<close>

lemma shutdown_telemetry_quiet:
  "shutdown_telemetry K ms t = (Inl e, t') \<Longrightarrow> \<not> is_Exception e"
  by (auto simp: shutdown_telemetry_def flush_logs_def flush_metrics_def io_simps split: sum.splits if_splits)

lemma shutdown_detaches:
  assumes "tl_log_provider t" "\<And>cs c. K cs c = Inr ()" "shutdown_telemetry K ms t = (Inr (), t')"
  shows "tl_log_handler t' = None"
  using assms
  by (auto simp: shutdown_telemetry_def flush_logs_def flush_metrics_def io_simps split: sum.splits if_splits option.splits)

end
