(* ===== verification/Deployment.thy ===== *)
theory Deployment
  imports LiveWorker Shutdown Poller Telemetry
begin

text \<open>
  The worker as it is configured: the handler's dependencies from the settings
  (\<open>HandlerDeps\<close> of \<open>worker/dispatcher.py\<close>, whose defaults are settings, and \<open>_build_deps\<close> of
  \<open>worker/main.py\<close>), and services for the examples of the process.
\<close>

definition storage_settings :: "app_settings \<Rightarrow> settings" where
  "storage_settings S =
     \<lparr>set_templates_bucket = TEMPLATES_BUCKET S, set_output_bucket = OUTPUT_BUCKET S,
      set_cache_dir = path_parts (TEMPLATE_CACHE_DIR S)\<rparr>"

definition configured_deps ::
  "env \<Rightarrow> pydantic \<Rightarrow> jsonschema \<Rightarrow> libs \<Rightarrow> (bytes \<Rightarrow> string) \<Rightarrow> app_settings \<Rightarrow> (event list \<Rightarrow> string) \<Rightarrow>
   renderer handler_deps" where
  "configured_deps E pd js L sha S clock =
     build_deps E pd js L sha (storage_settings S) (DOCGEN_DLQ_SUBJECT S) (DOCGEN_MAX_DELIVER S)
       (DOCGEN_NAK_RETRY_DELAY_SECONDS S) clock"

section \<open>Examples\<close>

text \<open>
  A library with the fields that matter, and a broker that keeps a durable which an earlier build
  created with other values and which has one unrelated setting.
\<close>

definition ex_nats_lib :: nats_lib where
  "ex_nats_lib = \<lparr>nl_defaults = [(''durable_name'', CNone), (''ack_wait'', CNone), (''max_deliver'', CNone),
     (''max_ack_pending'', CNone), (''backoff'', CNone)], nl_repr = (\<lambda>_. ''{...}'')\<rparr>"

definition ex_stored_before :: consumer_config where
  "ex_stored_before = [(''durable_name'', CText ''worker-docgen''), (''ack_wait'', CNum 120), (''max_deliver'', CNum 5),
     (''max_ack_pending'', CNum 1000), (''backoff'', CNone)]"

definition ex_stored :: "call list \<Rightarrow> consumer_config option" where
  "ex_stored cs = Some (fold (\<lambda>c now. case c of
       AddConsumer stream config ok \<Rightarrow> if ok \<and> stream = ''DOCGEN_REQUESTS'' then config else now | _ \<Rightarrow> now) cs ex_stored_before)"

definition ex_services :: services where
  "ex_services =
     \<lparr>sv_connect = (\<lambda>_. Inr ()), sv_add_stream = (\<lambda>_ _. Inr ()), sv_drain = (\<lambda>_. Inr ()), sv_sleep = (\<lambda>_. Inr ()),
      sv_find_stream = (\<lambda>_ _. Inr ''DOCGEN_REQUESTS''),
      sv_consumer_info = (\<lambda>cs _ _. Inr (the (ex_stored cs), 7)), sv_add_consumer = (\<lambda>_ _ _. Inr ()),
      sv_subscribe = (\<lambda>_ _. Inr ()), sv_touch = (\<lambda>_. Inr ()), sv_shutdown_set = (\<lambda>cs. 6 \<le> length cs),
      sv_wait = (\<lambda>_. Inl (TimeoutError [])), sv_submit = (\<lambda>_ _. Inr ())\<rparr>"

text \<open>A broker that does not take connections, and one that refuses the first declaration.\<close>

definition ex_services_down :: services where
  "ex_services_down = ex_services\<lparr>sv_connect := (\<lambda>_. Inl (OtherError ''no servers available''))\<rparr>"

definition ex_services_slow :: services where
  "ex_services_slow = ex_services\<lparr>sv_add_stream := (\<lambda>cs _. if length cs < 2 then Inl (TimeoutError []) else Inr ())\<rparr>"

definition ex_process :: process where
  "ex_process = \<lparr>calls = [], nats_client = None, jetstream = None, queue_depth_snapshot = [], render_pool = 0\<rparr>"

text \<open>A container with a quota of two CPUs and a half.\<close>

definition ex_host :: host where
  "ex_host = \<lparr>hs_cpu_max = Inr (nat_str 250000 @ '' '' @ nat_str 100000 @ [CHR 0x0A]), hs_cfs_quota = Inl (OSError []),
     hs_cfs_period = Inl (OSError []), hs_affinity = Some (Inr 8), hs_cpu_count = Some 8\<rparr>"

lemma ex_keeps_durable: "keeps_durable ex_services ''DOCGEN_REQUESTS'' ''worker-docgen'' ex_stored"
  by (simp add: keeps_durable_def ex_services_def ex_stored_def)

lemma ex_config_lib: "config_lib_ok ex_nats_lib"
  by (simp add: config_lib_ok_def ex_nats_lib_def RECONCILED_CONSUMER_FIELDS_def)

definition ex_started :: system where
  "ex_started = initial_system 1"

lemma ex_pool_size: "render_pool_size default_settings ex_host = Inr 1"
proof -
  have "cgroup2_cpus ex_host = Inr (Some (max 1 (int (250000 div 100000))))"
    by (rule cgroup2_exact) (simp_all add: ex_host_def)
  then show ?thesis by (simp add: render_pool_size_def detect_available_cpus_def or_else_def default_settings_def)
qed

lemma ex_start: "\<exists>p. start_worker ex_services default_settings ex_host ex_process = (Inr ex_started, p)"
proof -
  let ?c = "connect_nats_with_retry ex_services default_settings ex_process"
  have "fst ?c = Inr ()" "jetstream (snd ?c) = Some 0" by code_simp+
  then obtain p where "?c = (Inr (), p)" "jetstream p = Some 0" by (cases ?c) auto
  then show ?thesis by (simp add: start_worker_def io_simps get_jetstream_def ex_pool_size ex_started_def)
qed

text \<open>Two messages, one of which is still rendering when the worker is told to stop.\<close>

definition ex_actions :: "action list" where
  "ex_actions = [Subscribed, Arrives 5, Arrives 6, Callback, Acquire 0, Release 0, Finish 0, DoneCallback 0, Signal,
     Wakes, PollerStopped, Callback, DrainDone, Acquire 1, Collect, WaitTimeout, PoolStopped, Closed True]"

definition ex_ended :: system where
  "ex_ended = the (run_system ex_actions ex_started)"

lemma ex_run: "run_system ex_actions ex_started = Some ex_ended"
proof -
  have "run_system ex_actions ex_started \<noteq> None" by code_simp
  then show ?thesis by (auto simp: ex_ended_def)
qed

end
