(* ===== verification/RequestContext.thy ===== *)
theory RequestContext
  imports Telemetry
begin

text \<open>
  \<open>core/context_vars.py\<close> and its users: the context variable \<open>current_request_id\<close>, which
  \<open>_handle_message\<close> of \<open>worker/dispatcher.py\<close> sets at its start and resets in its \<open>finally\<close> clause, and
  from which \<open>RequestIdFilter\<close> of \<open>core/logging.py\<close> stamps every log record. A task that
  \<open>asyncio.create_task\<close> makes runs in a copy of the context of its creator; without \<open>inflight\<close> the
  handler runs in the callback's own context. The steps of the tasks interleave in any order.
\<close>

section \<open>The state\<close>

datatype handler_phase = Entering | Inside "string option" | Left

text \<open>
  A handler: the request it is about (none when the message does not decode), whether it runs in the
  callback's context, its own copy of the variable otherwise, and in its phase the token of \<open>set\<close>.
\<close>

record handler_run =
  hr_request :: "string option"
  hr_inline :: bool
  hr_current :: "string option"
  hr_phase :: handler_phase

record log_record =
  lr_handler :: nat
  lr_inside :: bool
  lr_stamp :: string

record contexts =
  cx_callback :: "string option"
  cx_handlers :: "handler_run list"
  cx_log :: "log_record list"

datatype context_action =
    CallbackRuns "string option"
  | SetsId nat
  | LogsLine nat
  | ResetsId nat

definition initial_contexts :: contexts where
  "initial_contexts = \<lparr>cx_callback = None, cx_handlers = [], cx_log = []\<rparr>"

definition current_request_id :: "contexts \<Rightarrow> handler_run \<Rightarrow> string option" where
  "current_request_id c h = (if hr_inline h then cx_callback c else hr_current h)"

definition set_request_id :: "string option \<Rightarrow> nat \<Rightarrow> handler_run \<Rightarrow> contexts \<Rightarrow> contexts" where
  "set_request_id v i h c =
     (if hr_inline h then c\<lparr>cx_callback := v, cx_handlers := (cx_handlers c)[i := h]\<rparr>
      else c\<lparr>cx_handlers := (cx_handlers c)[i := h\<lparr>hr_current := v\<rparr>]\<rparr>)"

text \<open>
  The callback of \<open>_make_handler\<close>, with or without \<open>inflight\<close>. nats-py awaits one callback before the
  next: an inline handler has left before the next message.
\<close>

definition make_handler :: "bool \<Rightarrow> string option \<Rightarrow> contexts \<Rightarrow> contexts option" where
  "make_handler inflight request c =
     (if list_ex (\<lambda>h. hr_inline h \<and> hr_phase h \<noteq> Left) (cx_handlers c) then None
      else Some (c\<lparr>cx_handlers := cx_handlers c @
        [\<lparr>hr_request = request, hr_inline = \<not> inflight, hr_current = cx_callback c, hr_phase = Entering\<rparr>]\<rparr>))"

fun context_step :: "bool \<Rightarrow> context_action \<Rightarrow> contexts \<Rightarrow> contexts option" where
  "context_step inflight (CallbackRuns request) c = make_handler inflight request c"
| "context_step inflight (SetsId i) c =
     (if i < length (cx_handlers c)
      then let h = cx_handlers c ! i
           in case (hr_phase h, hr_request h) of
                (Entering, Some rid) \<Rightarrow>
                  Some (set_request_id (Some rid) i (h\<lparr>hr_phase := Inside (current_request_id c h)\<rparr>) c)
              | (Entering, None) \<Rightarrow> Some (c\<lparr>cx_handlers := (cx_handlers c)[i := h\<lparr>hr_phase := Left\<rparr>]\<rparr>)
              | _ \<Rightarrow> None
      else None)"
| "context_step inflight (LogsLine i) c =
     (if i < length (cx_handlers c) \<and> hr_phase (cx_handlers c ! i) \<noteq> Left
      then let h = cx_handlers c ! i
           in Some (c\<lparr>cx_log := cx_log c @
                [\<lparr>lr_handler = i, lr_inside = (case hr_phase h of Inside _ \<Rightarrow> True | _ \<Rightarrow> False),
                  lr_stamp = stamped_request_id (current_request_id c h)\<rparr>]\<rparr>)
      else None)"
| "context_step inflight (ResetsId i) c =
     (if i < length (cx_handlers c)
      then let h = cx_handlers c ! i
           in case hr_phase h of
                Inside token \<Rightarrow> Some (set_request_id token i (h\<lparr>hr_phase := Left\<rparr>) c)
              | _ \<Rightarrow> None
      else None)"

inductive context_reaches :: "bool \<Rightarrow> contexts \<Rightarrow> bool" for inflight where
  start: "context_reaches inflight initial_contexts"
| step: "context_reaches inflight c \<Longrightarrow> context_step inflight a c = Some c' \<Longrightarrow> context_reaches inflight c'"

fun context_run :: "bool \<Rightarrow> context_action list \<Rightarrow> contexts \<Rightarrow> contexts option" where
  "context_run inflight [] c = Some c"
| "context_run inflight (a # as) c =
     (case context_step inflight a c of None \<Rightarrow> None | Some c' \<Rightarrow> context_run inflight as c')"

lemma context_run_reaches:
  "context_reaches inflight c \<Longrightarrow> context_run inflight as c = Some c' \<Longrightarrow> context_reaches inflight c'"
  by (induction inflight as c rule: context_run.induct)
    (auto split: option.splits intro: context_reaches.step)

section \<open>Every line carries its own request\<close>

text \<open>
  The value of the variable for a handler: its request inside, nothing outside; and the callback's
  context is untouched, unless an inline handler is inside, which is the only one and the last.
\<close>

definition expected :: "handler_run \<Rightarrow> string option" where
  "expected h = (case hr_phase h of Inside _ \<Rightarrow> hr_request h | _ \<Rightarrow> None)"

definition handler_ok :: "bool \<Rightarrow> handler_run \<Rightarrow> bool" where
  "handler_ok inflight h \<longleftrightarrow> hr_inline h = (\<not> inflight) \<and>
     (inflight \<longrightarrow> hr_current h = expected h) \<and>
     (\<forall>t. hr_phase h = Inside t \<longrightarrow> t = None \<and> hr_request h \<noteq> None)"

definition stamp_ok :: "handler_run list \<Rightarrow> log_record \<Rightarrow> bool" where
  "stamp_ok hs r \<longleftrightarrow> lr_handler r < length hs \<and>
     lr_stamp r = (if lr_inside r then stamped_request_id (hr_request (hs ! lr_handler r)) else ''-'')"

definition contexts_ok :: "bool \<Rightarrow> contexts \<Rightarrow> bool" where
  "contexts_ok inflight c \<longleftrightarrow>
     list_all (handler_ok inflight) (cx_handlers c) \<and> list_all (stamp_ok (cx_handlers c)) (cx_log c) \<and>
     (if inflight then cx_callback c = None
      else list_all (\<lambda>h. hr_phase h = Left) (butlast (cx_handlers c)) \<and>
        cx_callback c = (if cx_handlers c = [] then None else expected (last (cx_handlers c))))"

lemma stamp_ok_update: "stamp_ok hs r \<Longrightarrow> i < length hs \<Longrightarrow> hr_request h = hr_request (hs ! i) \<Longrightarrow> stamp_ok (hs[i := h]) r"
  by (auto simp: stamp_ok_def nth_list_update)

lemma stamp_ok_append: "stamp_ok hs r \<Longrightarrow> stamp_ok (hs @ [h]) r"
  by (auto simp: stamp_ok_def nth_append)

lemma inline_is_last:
  assumes "contexts_ok False c" "i < length (cx_handlers c)" "hr_phase (cx_handlers c ! i) \<noteq> Left"
  shows "cx_handlers c ! i = last (cx_handlers c)" "i = length (cx_handlers c) - 1"
proof -
  have "\<not> i < length (butlast (cx_handlers c))"
    using assms(1,3) by (auto simp: contexts_ok_def list_all_length nth_butlast)
  then show "i = length (cx_handlers c) - 1" using assms(2) by simp
  moreover have "cx_handlers c \<noteq> []" using assms(2) by auto
  ultimately show "cx_handlers c ! i = last (cx_handlers c)" by (simp add: last_conv_nth)
qed

lemma current_expected:
  assumes "contexts_ok inflight c" "i < length (cx_handlers c)" "hr_phase (cx_handlers c ! i) \<noteq> Left"
  shows "current_request_id c (cx_handlers c ! i) = expected (cx_handlers c ! i)"
proof (cases inflight)
  case True
  then show ?thesis using assms by (auto simp: contexts_ok_def current_request_id_def handler_ok_def list_all_length)
next
  case False
  have "cx_handlers c \<noteq> []" using assms(2) by auto
  then show ?thesis
    using assms False inline_is_last(1) [of c i]
    by (auto simp: contexts_ok_def current_request_id_def handler_ok_def list_all_length)
qed

lemma set_request_id_ok:
  assumes ok: "contexts_ok inflight c" and i: "i < length (cx_handlers c)" "hr_phase (cx_handlers c ! i) \<noteq> Left"
    and h: "hr_request h = hr_request (cx_handlers c ! i)" "hr_inline h = (\<not> inflight)" "expected h = v"
      "\<And>t. hr_phase h = Inside t \<Longrightarrow> t = None \<and> hr_request h \<noteq> None"
  shows "contexts_ok inflight (set_request_id v i h c)"
proof -
  let ?hs = "cx_handlers c"
  have log: "list_all (stamp_ok (?hs[i := h'])) (cx_log c)" if "hr_request h' = hr_request (?hs ! i)" for h'
    using ok stamp_ok_update [OF _ i(1) that] by (auto simp: contexts_ok_def list_all_iff)
  have hs: "list_all (handler_ok inflight) (?hs[i := h'])" if "handler_ok inflight h'" for h'
    using ok that by (auto simp: contexts_ok_def list_all_iff dest!: set_update_subset_insert [THEN subsetD])
  show ?thesis
  proof (cases inflight)
    case True
    have "handler_ok inflight (h\<lparr>hr_current := v\<rparr>)" using h True by (auto simp: handler_ok_def expected_def split: handler_phase.splits)
    then show ?thesis using ok h(1,2) True log [of "h\<lparr>hr_current := v\<rparr>"] hs
      by (auto simp: contexts_ok_def set_request_id_def)
  next
    case False
    have "handler_ok inflight h" using h False by (auto simp: handler_ok_def)
    moreover have "i = length ?hs - 1" by (rule inline_is_last(2)) (use ok i False in auto)
    moreover have "?hs \<noteq> []" using i by auto
    ultimately show ?thesis using ok h(1-3) False log [of h] hs [of h]
      by (auto simp: contexts_ok_def set_request_id_def butlast_list_update last_list_update)
  qed
qed

lemma context_step_ok:
  assumes ok: "contexts_ok inflight c" and step: "context_step inflight a c = Some c'"
  shows "contexts_ok inflight c'"
proof (cases a)
  case (CallbackRuns request)
  have "stamp_ok (cx_handlers c @ [h]) r" if "r \<in> set (cx_log c)" for r h
    using ok that stamp_ok_append by (auto simp: contexts_ok_def list_all_iff)
  with CallbackRuns show ?thesis using ok step
    by (auto simp: make_handler_def contexts_ok_def handler_ok_def expected_def list_all_iff list_ex_iff butlast_append
        split: if_splits handler_phase.splits dest: last_in_set)
next
  case (SetsId i)
  let ?h = "cx_handlers c ! i"
  from step SetsId have i: "i < length (cx_handlers c)" and e: "hr_phase ?h = Entering"
    by (auto simp: Let_def split: if_splits handler_phase.splits)
  have inl: "hr_inline ?h = (\<not> inflight)" using ok i by (auto simp: contexts_ok_def handler_ok_def list_all_length)
  have cur: "current_request_id c ?h = None" using current_expected [OF ok i] e by (simp add: expected_def)
  show ?thesis
  proof (cases "hr_request ?h")
    case (Some rid)
    then have "c' = set_request_id (Some rid) i (?h\<lparr>hr_phase := Inside None\<rparr>) c" using step SetsId i e cur by (simp add: Let_def)
    moreover have "contexts_ok inflight (set_request_id (Some rid) i (?h\<lparr>hr_phase := Inside None\<rparr>) c)"
      by (rule set_request_id_ok [OF ok i]) (use e inl Some in \<open>auto simp: expected_def\<close>)
    ultimately show ?thesis by simp
  next
    case None
    then have c': "c' = c\<lparr>cx_handlers := (cx_handlers c)[i := ?h\<lparr>hr_phase := Left\<rparr>]\<rparr>" using step SetsId i e by (simp add: Let_def)
    have "set_request_id None i (?h\<lparr>hr_phase := Left\<rparr>) c = c'"
      using cur by (cases ?h) (auto simp: c' set_request_id_def current_request_id_def split: if_splits)
    moreover have "contexts_ok inflight (set_request_id None i (?h\<lparr>hr_phase := Left\<rparr>) c)"
      by (rule set_request_id_ok [OF ok i]) (use e inl in \<open>auto simp: expected_def\<close>)
    ultimately show ?thesis by simp
  qed
next
  case (LogsLine i)
  let ?h = "cx_handlers c ! i"
  from step LogsLine have i: "i < length (cx_handlers c)" "hr_phase ?h \<noteq> Left" by (auto split: if_splits)
  have "stamped_request_id (current_request_id c ?h) = (case hr_phase ?h of Inside _ \<Rightarrow> stamped_request_id (hr_request ?h) | _ \<Rightarrow> ''-'')"
    using current_expected [OF ok i] by (simp add: expected_def stamped_request_id_def split: handler_phase.splits)
  then show ?thesis using ok step LogsLine i
    by (auto simp: contexts_ok_def stamp_ok_def Let_def split: handler_phase.splits if_splits)
next
  case (ResetsId i)
  let ?h = "cx_handlers c ! i"
  from step ResetsId obtain t where i: "i < length (cx_handlers c)" and t: "hr_phase ?h = Inside t"
    and c': "c' = set_request_id t i (?h\<lparr>hr_phase := Left\<rparr>) c"
    by (auto simp: Let_def split: if_splits handler_phase.splits)
  have inl: "hr_inline ?h = (\<not> inflight)" "t = None" using ok i t by (auto simp: contexts_ok_def handler_ok_def list_all_length)
  show ?thesis unfolding c' by (rule set_request_id_ok [OF ok i]) (use t inl in \<open>auto simp: expected_def\<close>)
qed

lemma reachable_contexts_ok: "context_reaches inflight c \<Longrightarrow> contexts_ok inflight c"
proof (induction rule: context_reaches.induct)
  case start
  show ?case by (simp add: contexts_ok_def initial_contexts_def)
next
  case (step c a c')
  then show ?case using context_step_ok by blast
qed

end
