(* ===== verification/ProcessClaims.thy ===== *)
theory ProcessClaims
  imports Deployment Examples RequestContext
begin

text \<open>
  The properties of the process around the handler: its settings, its NATS session and consumer,
  its start, its poller, and its tasks until the end of the shutdown.
\<close>

section \<open>The consumer\<close>

text \<open>
  C18. The broker's own bound backs up the handler's. With settings that the validator accepted, a
  subscription that returned has left the durable, new or old, with one delivery more than the
  handler allows; and a request that is delivered up to that stored bound is acknowledged by the
  handler before it, provided that no delivery is cancelled and that the broker takes every
  acknowledgement. Both conditions matter: the spare delivery makes up for one interruption, but
  not for two (\<open>two_interruptions_are_too_many\<close> in \<open>InterruptionClaims\<close>).
\<close>

theorem server_bound_backs_the_handler:
  fixes E pd js L sha S clock
  defines "D \<equiv> configured_deps E pd js L sha S clock"
  assumes "validate_env_config S' = Inr S"
    and "config_lib_ok NL" "keeps_durable V (DOCGEN_REQUEST_STREAM S) (DOCGEN_DURABLE S) stored"
    and "subscribe_worker V NL S m p = (Inr sub, p')"
    and "decode pd data = Some req" "\<And>tr. env_ack E tr = Inr ()"
    and "uncut E pd D data (nat (DOCGEN_MAX_DELIVER S + 1)) 1 w"
  shows "\<exists>c bound k w'. stored (calls p') = Some c \<and> getattr_config c ''max_deliver'' = CNum (of_int bound) \<and>
    redeliver E pd D data (nat bound) 1 w = (Some k, w') \<and> k \<le> DOCGEN_MAX_DELIVER S \<and> DOCGEN_MAX_DELIVER S < bound"
proof -
  let ?n = "DOCGEN_MAX_DELIVER S"
  have n: "1 \<le> ?n" using assms(2) by (auto simp: validate_env_config_ok)
  obtain c where c: "stored (calls p') = Some c" "\<forall>(n, v) \<in> set (config_kwargs S m). getattr_config c n = v"
    using subscribe_stores [OF assms(3-5)] by blast
  then have "getattr_config c ''max_deliver'' = CNum (of_int (?n + 1))" by (auto simp: config_kwargs_def)
  moreover have "\<exists>j w'. redeliver E pd D data (nat (?n + 1)) 1 w = (Some j, w') \<and> 1 \<le> j \<and> j \<le> ?n"
    using live_delivery.redeliver_acks [OF assms(6,7) assms(8) [unfolded D_def configured_deps_def]] n
    by (simp add: D_def configured_deps_def build_deps_def)
  ultimately show ?thesis using c(1) by (metis less_add_one)
qed

lemma server_bound_backs_the_handler_witness:
  "\<exists>c bound k w'. ex_stored (calls (snd (subscribe_worker ex_services ex_nats_lib default_settings (Some 1) ex_process))) = Some c \<and>
    getattr_config c ''max_deliver'' = CNum (of_int bound) \<and>
    redeliver ex_env_unroutable ex_pd (configured_deps ex_env_unroutable ex_pd ex_js ex_libs (\<lambda>_. ''0a'') default_settings (\<lambda>_. ''2024-01-01''))
      ''{request}'' (nat bound) 1 ex_world = (Some k, w') \<and> k \<le> 4 \<and> 4 < bound"
proof -
  let ?D = "configured_deps ex_env_unroutable ex_pd ex_js ex_libs (\<lambda>_. ''0a'') default_settings (\<lambda>_. ''2024-01-01'')"
  let ?s = "subscribe_worker ex_services ex_nats_lib default_settings (Some 1) ex_process"
  have four: "DOCGEN_MAX_DELIVER default_settings = 4" by (simp add: default_settings_def)
  have "uncut ex_env_unroutable ex_pd ?D ''{request}'' (nat 5) 1 ex_world" by code_simp
  moreover have "env_ack ex_env_unroutable tr = Inr ()" for tr by (simp add: ex_env_unroutable_def ex_env_def)
  moreover have "succeeded (fst ?s)" by code_simp
  then obtain sub p' where s: "?s = (Inr sub, p')" by (cases ?s; cases "fst ?s") auto
  moreover have "keeps_durable ex_services (DOCGEN_REQUEST_STREAM default_settings) (DOCGEN_DURABLE default_settings) ex_stored"
    using ex_keeps_durable by (simp add: default_settings_def)
  ultimately show ?thesis
    using server_bound_backs_the_handler [OF default_settings_accepted ex_config_lib, of ex_services ex_stored "Some 1" ex_process sub p' ex_pd
        "''{request}''" ex_request ex_env_unroutable ex_js ex_libs "\<lambda>_. ''0a''" "\<lambda>_. ''2024-01-01''" ex_world] ex_decode four s
    by simp
qed

text \<open>
  C17. Reconciling writes what the code declares and nothing else: after it has returned, the
  durable that the broker keeps has every declared field as declared and every other field as it
  was, a missing durable is left to the subscription, and a second reconciliation only looks.
\<close>

theorem consumer_is_reconciled:
  assumes keeps: "keeps_durable V stream durable stored" and dist: "distinct (map fst config)"
    and run: "ensure_consumer_config V L stream durable config p = (Inr (), p')"
  shows "\<exists>declared. declared_consumer_fields L config = Inr declared \<and>
    (case stored (calls p) of
       None \<Rightarrow> stored (calls p') = None
     | Some current \<Rightarrow> \<exists>new. stored (calls p') = Some new \<and>
         (\<forall>n. getattr_config new n =
            (case map_of declared n of Some v \<Rightarrow> v | None \<Rightarrow> getattr_config current n)) \<and>
         (\<forall>i. sv_consumer_info V (calls p') stream durable = Inr i \<longrightarrow>
            ensure_consumer_config V L stream durable config p' =
              (Inr (), p'\<lparr>calls := calls p' @ [ConsumerInfo stream durable True]\<rparr>)))"
proof -
  obtain declared where declared: "declared_consumer_fields L config = Inr declared"
    using run ensure_unsupported by (cases "declared_consumer_fields L config") fastforce+
  have d: "distinct (map fst declared)" using declared_subset [OF declared] dist by (auto simp: distinct_filter_keys)
  have again: "ensure_consumer_config V L stream durable config p' =
      (Inr (), p'\<lparr>calls := calls p' @ [ConsumerInfo stream durable True]\<rparr>)"
    if "sv_consumer_info V (calls p') stream durable = Inr i" "stored (calls p') = Some new"
      "\<And>n. getattr_config new n = reconciled declared current n" for i new current
  proof -
    have "i = (new, snd i)" using keeps_durableD(1) [OF keeps that(1)] that(2) by (simp add: prod_eq_iff)
    then have "sv_consumer_info V (calls p') stream durable = Inr (new, snd i)" using that(1) by simp
    then show ?thesis using reconciled_no_drift [OF d that(3)] by (rule ensure_in_step [OF declared])
  qed
  show ?thesis
  proof (cases "stored (calls p)")
    case None
    then show ?thesis using ensure_stores [OF keeps declared dist run] declared by simp
  next
    case (Some current)
    with ensure_stores [OF keeps declared dist run] obtain new where
      new: "stored (calls p') = Some new" "\<And>n. getattr_config new n = reconciled declared current n" by auto
    note again [OF _ new]
    with Some declared new show ?thesis by (simp add: reconciled_def)
  qed
qed

lemma consumer_is_reconciled_witness:
  "\<exists>new. ex_stored (calls (snd (ensure_consumer_config ex_services ex_nats_lib ''DOCGEN_REQUESTS'' ''worker-docgen''
      (make_config ex_nats_lib (config_kwargs default_settings (Some 1))) ex_process))) = Some new \<and>
    getattr_config new ''ack_wait'' = CNum 600 \<and> getattr_config new ''durable_name'' = CText ''worker-docgen''"
proof -
  let ?c = "make_config ex_nats_lib (config_kwargs default_settings (Some 1))"
  let ?h = "ensure_consumer_config ex_services ex_nats_lib ''DOCGEN_REQUESTS'' ''worker-docgen'' ?c ex_process"
  have "succeeded (fst ?h)" by code_simp
  then obtain p' where h: "?h = (Inr (), p')" by (cases ?h; cases "fst ?h") auto
  obtain declared where d: "declared_consumer_fields ex_nats_lib ?c = Inr declared"
    "map_of declared = map_of (config_kwargs default_settings (Some 1))"
    using worker_declared [OF ex_config_lib] by blast
  have "ex_stored (calls ex_process) = Some ex_stored_before" by (simp add: ex_stored_def ex_process_def)
  with consumer_is_reconciled [OF ex_keeps_durable worker_config_keys [OF ex_config_lib] h] d h show ?thesis
    by (auto simp: config_kwargs_def default_settings_def ex_stored_before_def getattr_config_def)
qed

section \<open>The start\<close>

text \<open>
  C24. Connecting takes between one and ten attempts with the delays 2, 4, 8, 16 and then 30 seconds
  between them, three minutes in all at most. It ends in one of three ways: it returns, with one client,
  its context and all three streams declared; it raises the cancellation that ended an attempt or a
  sleep; or, after ten attempts and exactly 180 seconds of sleeping, it raises the very error that the
  tenth attempt raised.
\<close>

theorem connect_retry_is_bounded:
  assumes "sleep_only_cancelled V" "connect_nats_with_retry V S p = (r, p')"
  shows "\<exists>cs. calls p' = calls p @ cs \<and> 1 \<le> connects cs \<and> connects cs \<le> 10 \<and>
    sleeps cs = take (length (sleeps cs)) [2, 4, 8, 16, 30, 30, 30, 30, 30] \<and> sum_list (sleeps cs) \<le> 180 \<and>
    (case r of Inr _ \<Rightarrow> session_up S p'
     | Inl e \<Rightarrow> e = CancelledError \<or> connects cs = 10 \<and> sum_list (sleeps cs) = 180 \<and>
         (\<exists>q ds. calls q = calls p @ ds \<and> connects ds = 9 \<and> init_nats V S q = (Inl e, p')))"
proof -
  let ?M = NATS_CONNECT_MAX_ATTEMPTS
  have loop: "connect_loop V S [1..<?M + 1] p = (r, p')" using assms(2) by (simp only: connect_nats_with_retry_def)
  have last: "\<exists>q ds. calls q = calls p @ ds \<and> connects ds = 9 \<and> init_nats V S q = (Inl e, p')" if "r = Inl e" "is_Exception e" for e
    using connect_loop_error [OF assms(1) loop [unfolded that(1)] _ that(2)] by (simp add: NATS_CONNECT_MAX_ATTEMPTS_def)
  from loop have "\<exists>cs. calls p' = calls p @ cs \<and> tries_from S 1 cs r p'"
    by (rule connect_loop_bounded [OF assms(1)]) (simp add: NATS_CONNECT_MAX_ATTEMPTS_def)
  then obtain cs where cs: "calls p' = calls p @ cs" "1 \<le> connects cs" "1 + connects cs \<le> ?M + 1"
    "sleeps cs = map retry_delay [1..<1 + length (sleeps cs)]" "1 + length (sleeps cs) \<le> ?M"
    "case r of Inr _ \<Rightarrow> session_up S p' \<and> length (sleeps cs) + 1 = connects cs
      | Inl e \<Rightarrow> is_Exception e \<longrightarrow> 1 + connects cs = ?M + 1 \<and> length (sleeps cs) + 1 = connects cs"
    unfolding tries_from_def by blast
  note total = delays_total [OF cs(5)]
  show ?thesis
  proof (intro exI [of _ cs] conjI)
    show "sleeps cs = take (length (sleeps cs)) [2, 4, 8, 16, 30, 30, 30, 30, 30]" using total(1) cs(4) by metis
    show "sum_list (sleeps cs) \<le> 180" using total(2) cs(4) by metis
    have "sum_list (sleeps cs) = 180" if "1 + length (sleeps cs) = ?M" using total(3) [OF that] cs(4) by metis
    then show "case r of Inr _ \<Rightarrow> session_up S p'
      | Inl e \<Rightarrow> e = CancelledError \<or> connects cs = 10 \<and> sum_list (sleeps cs) = 180 \<and>
         (\<exists>q ds. calls q = calls p @ ds \<and> connects ds = 9 \<and> init_nats V S q = (Inl e, p'))"
      using cs(6) last by (cases r) (auto simp: NATS_CONNECT_MAX_ATTEMPTS_def is_Exception_def)
  qed (use cs in \<open>auto simp: NATS_CONNECT_MAX_ATTEMPTS_def\<close>)
qed

lemma connect_retry_is_bounded_witness:
  "\<exists>cs q. calls (snd (connect_nats_with_retry ex_services_down default_settings ex_process)) = cs \<and> connects cs = 10 \<and>
     sum_list (sleeps cs) = 180 \<and> connects (calls q) = 9 \<and>
     fst (init_nats ex_services_down default_settings q) = Inl (OtherError ''no servers available'')"
proof -
  let ?h = "connect_nats_with_retry ex_services_down default_settings ex_process"
  have r: "fst ?h = Inl (OtherError ''no servers available'')" unfolding connect_nats_with_retry_def
    by (rule connect_loop_refused) (simp_all add: ex_services_down_def ex_services_def NATS_CONNECT_MAX_ATTEMPTS_def)
  obtain p' where h: "?h = (Inl (OtherError ''no servers available''), p')" using prod.collapse [of ?h] unfolding r by metis
  have "sleep_only_cancelled ex_services_down"
    by (simp add: sleep_only_cancelled_def ex_services_down_def ex_services_def)
  from connect_retry_is_bounded [OF this h] obtain cs q where "calls p' = calls ex_process @ cs" "connects cs = 10"
    "sum_list (sleeps cs) = 180" "connects (calls q) = 9"
    "init_nats ex_services_down default_settings q = (Inl (OtherError ''no servers available''), p')"
    by (auto simp: ex_process_def)
  then show ?thesis unfolding h by (intro exI [of _ cs] exI [of _ q]) (simp add: ex_process_def)
qed

text \<open>
  C37. An attempt that connects but fails to declare a stream abandons its connection: the next
  attempt replaces the only reference to it, and closing the session after a start that needed
  several attempts closes the last connection only. Every other one stays open.
\<close>

theorem retries_abandon_connections:
  assumes "calls p0 = []" "connect_nats_with_retry V S p0 = (Inr (), p1)" "close_nats V p1 = (Inr (), p2)"
  shows "\<exists>i. nats_client p1 = Some i \<and> set (open_connections p2) = {j. opened (calls p1) j} - {i}"
  using abandoned_connections [OF assms] .

lemma retries_abandon_connections_witness:
  "0 \<in> set (open_connections (snd (close_nats ex_services_slow
     (snd (connect_nats_with_retry ex_services_slow default_settings ex_process)))))"
proof -
  let ?c = "connect_nats_with_retry ex_services_slow default_settings ex_process"
  have up: "fst ?c = Inr ()" "nats_client (snd ?c) = Some 3" "opened (calls (snd ?c)) 0" by code_simp+
  have "fst (close_nats ex_services_slow (snd ?c)) = Inr ()" by code_simp
  then obtain p2 where p2: "close_nats ex_services_slow (snd ?c) = (Inr (), p2)" by (metis prod.collapse)
  have "?c = (Inr (), snd ?c)" using up(1) by (simp add: prod_eq_iff)
  from retries_abandon_connections [OF _ this p2] have "set (open_connections p2) = {j. opened (calls (snd ?c)) j} - {3}"
    using up(2) by (simp add: ex_process_def)
  then show ?thesis unfolding p2 using up(3) by simp
qed

text \<open>
  C35. The pool has at least one process, the configured number if there is one. In a container
  with a CPU quota it has one process fewer than whole CPUs in the quota; the quotient that the
  code takes in floating point is exact for all quotas below \<open>2 ^ 53\<close>.
\<close>

theorem pool_size_follows_the_quota:
  assumes "hs_cpu_max h = Inr (nat_str quota @ '' '' @ nat_str period @ [CHR 0x0A])"
    and "0 < quota" "quota < 2 ^ 53" "0 < period" "period < 2 ^ 53"
  shows "render_pool_size S h =
    Inr (if RENDER_POOL_SIZE S > 0 then RENDER_POOL_SIZE S else max 1 (int (quota div period) - 1))"
  using cgroup2_exact [OF assms] by (simp add: render_pool_size_def detect_available_cpus_def or_else_def max_def)

lemma pool_size_follows_the_quota_witness:
  "render_pool_size default_settings (ex_host\<lparr>hs_cpu_max := Inr (nat_str 450000 @ '' '' @ nat_str 100000 @ [CHR 0x0A])\<rparr>) = Inr 3"
  using pool_size_follows_the_quota [of "ex_host\<lparr>hs_cpu_max := Inr (nat_str 450000 @ '' '' @ nat_str 100000 @ [CHR 0x0A])\<rparr>"
      450000 100000 default_settings]
  by (simp add: default_settings_def)

section \<open>Tasks and shutdown\<close>

text \<open>
  C10. From the start on, in whatever order the tasks run: as many renders run at once as the pool
  has processes at most, since renders and free permits of the semaphore add up to its size; and
  the set of tasks in flight has every unfinished task once.
\<close>

theorem renders_stay_within_the_pool:
  assumes "start_worker V S h p = (Inr s0, p')" "run_system as s0 = Some s"
  shows "\<exists>n. render_pool_size S h = Inr n \<and> 1 \<le> n \<and> int (rendering s) + int (sy_permits s) = n \<and>
    distinct (sy_inflight s) \<and> (\<forall>t. is_unfinished s t \<longrightarrow> t \<in> set (sy_inflight s))"
proof -
  obtain n where n: "render_pool_size S h = Inr n" "s0 = initial_system (nat n)"
    using assms(1) by (auto simp: start_worker_def io_simps split: prod.splits sum.splits)
  then have "1 \<le> n" using render_pool_size_pos by blast
  moreover have "reachable (nat n) s" using reachable_run [OF reachable.start] assms(2) n(2) by blast
  then have "worker_inv (nat n) s" by (rule reachable_inv)
  ultimately show ?thesis using n(1) by (auto simp: worker_inv_def resources_def bookkeeping_def)
qed

lemma renders_stay_within_the_pool_witness:
  "rendering ex_ended + sy_permits ex_ended = 1 \<and> is_unfinished ex_ended 1 \<and> 1 \<in> set (sy_inflight ex_ended)"
proof -
  obtain p where start: "start_worker ex_services default_settings ex_host ex_process = (Inr ex_started, p)"
    using ex_start by blast
  have "is_unfinished ex_ended 1" by code_simp
  then show ?thesis using renders_stay_within_the_pool [OF start ex_run] by (auto simp: ex_pool_size)
qed

text \<open>
  C9. No message is orphaned by a shutdown whose drain succeeds. At every moment the delivered messages
  are those of the tasks, in order, and those still in the subscription's buffer. When \<open>main\<close> has
  ended after a drain that did not fail, the buffer is empty, and each task has finished, or was
  still running when the wait timed out and has been cancelled. Until that wait is over no task
  is cancelled and the pool and the connection stay usable. After a failed drain \<open>main\<close> goes on,
  and a message that is still buffered may never get its task (\<open>failed_drain_leaves_messages\<close>).
\<close>

theorem no_message_is_orphaned:
  assumes "start_worker V S h p = (Inr s0, p')" "run_system as s0 = Some s"
  shows "sy_delivered s = map tk_message (sy_tasks s) @ sy_buffer s \<and>
    (sy_phase s = Ended \<and> \<not> sy_drain_failed s \<longrightarrow>
      sy_buffer s = [] \<and> map tk_message (sy_tasks s) = sy_delivered s \<and>
      (\<forall>t < length (sy_tasks s). finished s t \<or> is_cancelled s t)) \<and>
    ((\<exists>t. is_cancelled s t) \<or> \<not> sy_pool_open s \<or> \<not> sy_connected s \<longrightarrow> sy_phase s \<in> {StoppingPool, Closing, Ended})"
proof -
  obtain n where n: "s0 = initial_system n"
    using assms(1) by (auto simp: start_worker_def io_simps split: prod.splits sum.splits)
  have "worker_inv n s" using reachable_inv [OF reachable_run [OF reachable.start]] assms(2) n by blast
  moreover have "after_wait ph \<longleftrightarrow> ph \<in> {StoppingPool, Closing, Ended}" for ph by (cases ph) auto
  ultimately show ?thesis
    by (auto simp: worker_inv_def handled_in_order_def drained_def settled_def closing_order_def is_unfinished_def)
qed

text \<open>A message that arrived, but whose callback had not run when the drain failed: nobody handles it.\<close>

lemma failed_drain_leaves_messages:
  "\<exists>s. run_system [Subscribed, Arrives 5, Signal, Wakes, PollerStopped, DrainFailed, Collect, PoolStopped, Closed True]
     (initial_system 1) = Some s \<and> sy_phase s = Ended \<and> sy_delivered s = [5] \<and> sy_buffer s = [5] \<and> sy_tasks s = []"
  by (simp add: initial_system_def)

lemma no_message_is_orphaned_witness:
  "sy_buffer ex_ended = [] \<and> map tk_message (sy_tasks ex_ended) = [5, 6] \<and> finished ex_ended 0 \<and> is_cancelled ex_ended 1"
proof -
  obtain p where start: "start_worker ex_services default_settings ex_host ex_process = (Inr ex_started, p)"
    using ex_start by blast
  have "sy_phase ex_ended = Ended" "\<not> sy_drain_failed ex_ended" "sy_delivered ex_ended = [5, 6]" "length (sy_tasks ex_ended) = 2"
    "finished ex_ended 0" "\<not> finished ex_ended 1" by code_simp+
  note facts = this
  have "sy_buffer ex_ended = [] \<and> map tk_message (sy_tasks ex_ended) = sy_delivered ex_ended \<and>
      (\<forall>t < length (sy_tasks ex_ended). finished ex_ended t \<or> is_cancelled ex_ended t)"
    using conjunct1 [OF conjunct2 [OF no_message_is_orphaned [OF start ex_run]]] facts(1,2) by blast
  moreover have "1 < length (sy_tasks ex_ended)" using facts(4) by simp
  ultimately show ?thesis using facts by metis
qed

text \<open>
  C16. Once it has been told to stop, \<open>main\<close> ends, in whatever order the tasks, the callbacks and \<open>main\<close>
  itself run: every run without end from a state in which the shutdown event is set reaches the end of
  \<open>main\<close> and stays there, provided that only finitely many messages still arrive and that the event
  loop does not pass over \<open>main\<close> and the callbacks for ever while a step of theirs is ready (weak
  fairness; nothing is asked of the tasks, so a render that never returns cannot hold the shutdown up).
  Neither is the shutdown ever stuck: until the end a step of \<open>main\<close> or a callback is ready that is not a
  failure, the timeout of the wait included. In the first \<open>n\<close> steps of any such run, \<open>main\<close> and the
  callbacks make at most eight steps and one for each message that was buffered or arrived.
\<close>

theorem shutdown_ends:
  assumes "start_worker V S h p = (Inr s0, p')" "run_system as s0 = Some (st 0)" "sy_shutdown (st 0)"
    and "endless_run act st" "weakly_fair act st" "finite {n. is_arrival (act n)}"
  shows "(\<exists>n. \<forall>k \<ge> n. sy_phase (st k) = Ended) \<and>
    (\<forall>n. sy_phase (st n) \<noteq> Ended \<longrightarrow> (\<exists>a. own_action a \<and> \<not> is_failure a \<and> step a (st n) \<noteq> None)) \<and>
    (\<forall>n. steps_of own_action act n \<le> 8 + length (sy_buffer (st 0)) + steps_of is_arrival act n)"
proof (intro conjI allI impI)
  obtain m where m: "s0 = initial_system m"
    using assms(1) by (auto simp: start_worker_def io_simps split: prod.splits sum.splits)
  have reach: "reachable m (st 0)" using reachable_run [OF reachable.start] assms(2) m by blast
  show "\<exists>n. \<forall>k \<ge> n. sy_phase (st k) = Ended" by (rule fair_run_ends [OF assms(4) reach assms(3,6,5)])
  show "\<exists>a. own_action a \<and> \<not> is_failure a \<and> step a (st n) \<noteq> None" if "sy_phase (st n) \<noteq> Ended" for n
    using never_stuck endless_states [OF assms(4) reach assms(3)] that by blast
  show "steps_of own_action act n \<le> 8 + length (sy_buffer (st 0)) + steps_of is_arrival act n" for n
    using own_steps_bounded [OF assms(4), of n] ahead_bound [of "st 0"] by simp
qed

text \<open>
  One message is rendered and its render never returns, another is buffered when the signal comes: the
  callback runs in the drain, the wait times out, and both tasks are left cancelled behind the end.
\<close>

definition ex_told :: system where
  "ex_told = the (run_system [Subscribed, Arrives 5, Callback, Acquire 0, Arrives 6, Signal] ex_started)"

definition ex_closing_steps :: "action list" where
  "ex_closing_steps = [Wakes, PollerStopped, Callback, DrainDone, Collect, WaitTimeout, PoolStopped, Closed True]"

lemma shutdown_ends_witness:
  "\<exists>n. \<forall>k \<ge> n. sy_phase (states_from ex_told (signals_after ex_closing_steps) k) = Ended"
proof -
  let ?act = "signals_after ex_closing_steps"
  let ?st = "states_from ex_told ?act"
  obtain p where start: "start_worker ex_services default_settings ex_host ex_process = (Inr ex_started, p)"
    using ex_start by blast
  have "run_system [Subscribed, Arrives 5, Callback, Acquire 0, Arrives 6, Signal] ex_started \<noteq> None" by code_simp
  then have told: "run_system [Subscribed, Arrives 5, Callback, Acquire 0, Arrives 6, Signal] ex_started = Some (?st 0)"
    by (auto simp: ex_told_def)
  let ?s' = "the (run_system ex_closing_steps ex_told)"
  have end_facts: "run_system ex_closing_steps ex_told \<noteq> None" "sy_shutdown ?s'" "sy_phase ?s' = Ended" "sy_buffer ?s' = []"
    "sy_shutdown ex_told" by code_simp+
  have done_run: "run_system ex_closing_steps ex_told = Some ?s'" using end_facts(1) by auto
  have set: "sy_shutdown (?st 0)" using end_facts(5) by simp
  note not_ready = ended_not_ready [OF end_facts(3,4)]
  from shutdown_ends [OF start told set endless_run_signals [OF done_run end_facts(2)]
      weakly_fair_signals [OF done_run end_facts(2) not_ready] finite_arrivals_signals]
  show ?thesis by blast
qed

section \<open>Liveness file and logs\<close>

text \<open>
  C25. The liveness file is touched only after the broker has answered in the same round, so it grows
  stale while the worker has lost contact; errors of the broker or the disk do not end the loop,
  and once the shutdown event is set it returns.
\<close>

theorem heartbeat_follows_an_answer:
  assumes "mild V" "\<And>cs. n \<le> length cs \<Longrightarrow> sv_shutdown_set V cs"
  shows "\<exists>r p' rounds. poll_queue_depth V S p = Some (r, p') \<and> calls p' = calls p @ concat rounds \<and>
    list_all (round_calls S) rounds \<and>
    (case r of Inl e \<Rightarrow> \<not> is_Exception e | Inr _ \<Rightarrow> sv_shutdown_set V (calls p'))"
proof -
  obtain r p' where run: "poll_queue_depth V S p = Some (r, p')" using poll_returns [OF assms(2)] by blast
  with poll_rounds [OF run] poll_ends_mildly [OF assms(1) run] show ?thesis by (auto simp: made_of_rounds_def)
qed

lemma heartbeat_follows_an_answer_witness:
  "\<exists>r p' rounds. poll_queue_depth ex_services default_settings ex_process = Some (r, p') \<and> calls p' = concat rounds \<and>
     list_all (round_calls default_settings) rounds"
proof -
  have "mild ex_services" by (auto simp: mild_def ex_services_def is_TimeoutError_def)
  moreover have "sv_shutdown_set ex_services cs" if "6 \<le> length cs" for cs using that by (simp add: ex_services_def)
  ultimately show ?thesis using heartbeat_follows_an_answer [of ex_services 6 default_settings ex_process]
    by (auto simp: ex_process_def)
qed

text \<open>
  C36. With settings the validator accepts, log lines go somewhere after the start, stamped with the
  request id: to the console locally and in staging, to the exporter in production, which the
  validator guarantees to be configured. Only the test environment is left without a handler.
\<close>

theorem accepted_settings_log_somewhere:
  assumes "validate_env_config S' = Inr S" "\<And>cs c. K cs c = Inr ()"
  shows "\<exists>t'. start_telemetry K S inst t = (Inr (), t') \<and>
    (if ENV S = TEST then tl_handlers t' = []
     else tl_handlers t' \<noteq> [] \<and> list_all lh_stamps_request_id (tl_handlers t')) \<and>
    (ENV S = PRODUCTION \<longrightarrow> tl_handlers t' = [export_handler])"
proof -
  have prod: "ENV S = PRODUCTION \<Longrightarrow> exports S"
    using assms(1) by (auto simp: validate_env_config_ok observable_settings_def exports_def)
  have test: "ENV S = TEST \<Longrightarrow> \<not> exports S" by (simp add: exports_def)
  show ?thesis using start_handlers [of K S inst t] assms(2) prod test
    by (cases "ENV S") (auto simp: export_handler_def split: if_splits)
qed

lemma accepted_settings_log_somewhere_witness:
  "\<exists>t'. start_telemetry (\<lambda>_ _. Inr ()) default_settings ''host'' (fresh_telemetry []) = (Inr (), t') \<and> tl_handlers t' \<noteq> []"
proof -
  have "(\<lambda>_ _. Inr ()) cs c = Inr ()" for cs :: "sdk_call list" and c :: sdk_call by simp
  from accepted_settings_log_somewhere [OF default_settings_accepted this, of "''host''" "fresh_telemetry []"]
  show ?thesis by (auto simp: default_settings_def)
qed

section \<open>Recovery and context\<close>

text \<open>
  C14. A render process that dies does not stop the worker: however often a pool breaks, every later
  submission is taken, since a pool that refuses is replaced at once and the submission repeated on the
  new one. The pools that refused are those replaced, each once and in order: a pool that works is never
  thrown away.
\<close>

theorem broken_pool_is_replaced:
  assumes "pool_library V" "later_pools_fresh p"
  shows "\<exists>cs. pool_submits V n p =
      (replicate n (Inr ()), p\<lparr>calls := calls p @ cs, render_pool := render_pool p + length (refusals cs)\<rparr>) \<and>
    refusals cs = [render_pool p..<render_pool p + length (refusals cs)]"
  by (rule pool_submits_recover [OF assms])

text \<open>Pools of which the second render kills the first process.\<close>

definition ex_services_fragile :: services where
  "ex_services_fragile = ex_services\<lparr>sv_submit := (\<lambda>cs i. if SubmitRender i True \<in> set cs then Inl (BrokenExecutor ''terminated abruptly'') else Inr ())\<rparr>"

lemma broken_pool_is_replaced_witness:
  "fst (pool_submits ex_services_fragile 3 ex_process) = replicate 3 (Inr ()) \<and>
   refusals (calls (snd (pool_submits ex_services_fragile 3 ex_process))) = [0, 1]"
proof
  have "pool_library ex_services_fragile"
    by (auto simp: pool_library_def ex_services_fragile_def is_BrokenProcessPool_def split: if_splits)
  moreover have "later_pools_fresh ex_process" by (simp add: later_pools_fresh_def ex_process_def)
  ultimately show "fst (pool_submits ex_services_fragile 3 ex_process) = replicate 3 (Inr ())"
    using broken_pool_is_replaced [of ex_services_fragile ex_process 3] by auto
  show "refusals (calls (snd (pool_submits ex_services_fragile 3 ex_process))) = [0, 1]" by code_simp
qed

text \<open>
  C15. A log line carries the id of the request that its own handler is about, however the handlers
  interleave and whether they run as tasks or inline; before the id is set, after it is reset, and for a
  message that is no request, it carries a dash. When every handler has left, however it ended, the
  context of the callback is what it was.
\<close>

theorem log_lines_carry_their_request:
  assumes "context_run inflight as initial_contexts = Some c"
  shows "list_all (\<lambda>r. lr_stamp r =
      (if lr_inside r then stamped_request_id (hr_request (cx_handlers c ! lr_handler r)) else ''-'')) (cx_log c) \<and>
    (list_all (\<lambda>h. hr_phase h = Left) (cx_handlers c) \<longrightarrow> cx_callback c = None)"
proof -
  have "contexts_ok inflight c"
    by (rule reachable_contexts_ok [OF context_run_reaches [OF context_reaches.start assms]])
  then show ?thesis
    by (auto simp: contexts_ok_def stamp_ok_def expected_def list_all_iff split: if_splits)
qed

definition ex_context_actions :: "context_action list" where
  "ex_context_actions = [CallbackRuns (Some ''r1''), CallbackRuns (Some ''r2''), SetsId 1, SetsId 0, LogsLine 1, LogsLine 0,
     ResetsId 1, LogsLine 0, ResetsId 0]"

definition ex_contexts :: contexts where
  "ex_contexts = the (context_run True ex_context_actions initial_contexts)"

lemma log_lines_carry_their_request_witness:
  "map lr_stamp (cx_log ex_contexts) = [''r2'', ''r1'', ''r1''] \<and> cx_callback ex_contexts = None"
proof -
  have "context_run True ex_context_actions initial_contexts \<noteq> None" by code_simp
  then have c: "context_run True ex_context_actions initial_contexts = Some ex_contexts" by (simp add: ex_contexts_def)
  have "map (\<lambda>r. (lr_inside r, hr_request (cx_handlers ex_contexts ! lr_handler r))) (cx_log ex_contexts) =
      [(True, Some ''r2''), (True, Some ''r1''), (True, Some ''r1'')]"
    "list_all (\<lambda>h. hr_phase h = Left) (cx_handlers ex_contexts)"
    by code_simp+
  with log_lines_carry_their_request [OF c] show ?thesis
    by (auto simp: map_eq_Cons_conv stamped_request_id_def)
qed

end
