(* ===== verification/CacheSharing.thy ===== *)
theory CacheSharing
  imports TemplateMirror
begin

text \<open>
  Several fetches on one cache at the same time, in one worker or in several that share the
  directory: rely and guarantee. \<open>undisturbed\<close> is the relation between two states of the disk
  that a fetch relies on whenever others run: its scratch directory is left alone, directories
  on the way to the template may appear, and the template's own directory, once it is there, is
  complete and stays. Under it a fetch succeeds; and a fetch itself, of any template, whatever
  fails in it, leaves every other fetch undisturbed.
\<close>

section \<open>The relation\<close>

definition complete :: "(path \<Rightarrow> node option) \<Rightarrow> path \<Rightarrow> fs \<Rightarrow> bool" where
  "complete content dir d \<longleftrightarrow> is_dir d dir \<and> (\<forall>p. p \<noteq> [] \<longrightarrow> node_at d (dir @ p) = content p)"

definition undisturbed :: "path \<Rightarrow> path \<Rightarrow> (path \<Rightarrow> node option) \<Rightarrow> fs \<Rightarrow> fs \<Rightarrow> bool" where
  "undisturbed tmp dir content d d' \<longleftrightarrow>
     (wf_fs d \<longrightarrow> wf_fs d') \<and>
     (\<forall>p. node_at d' (tmp @ p) = node_at d (tmp @ p)) \<and>
     (\<forall>p. strict_prefix p dir \<longrightarrow> node_at d' p = node_at d p \<or> node_at d p = None \<and> node_at d' p = Some Dir) \<and>
     (if path_exists d dir then \<forall>p. node_at d' (dir @ p) = node_at d (dir @ p)
      else path_exists d' dir \<longrightarrow> complete content dir d')"

lemma undisturbed_refl [simp]: "undisturbed tmp dir content d d"
  by (simp add: undisturbed_def)

lemma path_exists_dir: "path_exists d dir \<longleftrightarrow> node_at d (dir @ []) \<noteq> None"
  by (simp add: path_exists_def)

lemma undisturbed_trans:
  assumes "undisturbed tmp dir content d1 d2" "undisturbed tmp dir content d2 d3"
  shows "undisturbed tmp dir content d1 d3"
proof -
  have "if path_exists d1 dir then \<forall>p. node_at d3 (dir @ p) = node_at d1 (dir @ p)
      else path_exists d3 dir \<longrightarrow> complete content dir d3"
  proof (cases "path_exists d1 dir")
    case True
    then have "path_exists d2 dir" using assms(1) unfolding path_exists_dir undisturbed_def by metis
    with True assms show ?thesis by (simp add: undisturbed_def)
  next
    case False
    show ?thesis
    proof (cases "path_exists d2 dir")
      case True
      then have "complete content dir d2" "\<forall>p. node_at d3 (dir @ p) = node_at d2 (dir @ p)"
        using False assms by (auto simp: undisturbed_def)
      then have "complete content dir d3" unfolding complete_def is_dir_def by (metis append_Nil2)
      with False show ?thesis by simp
    qed (use False assms(2) in \<open>simp add: undisturbed_def\<close>)
  qed
  moreover have "node_at d3 p = node_at d1 p \<or> node_at d1 p = None \<and> node_at d3 p = Some Dir"
    if "strict_prefix p dir" for p
    using assms that unfolding undisturbed_def by metis
  ultimately show ?thesis using assms by (simp add: undisturbed_def)
qed

section \<open>What is stable under it\<close>

text \<open>The template's directory is complete or not there, and no file is on the way to it.\<close>

definition cache_ok :: "path \<Rightarrow> (path \<Rightarrow> node option) \<Rightarrow> fs \<Rightarrow> bool" where
  "cache_ok dir content d \<longleftrightarrow>
     wf_fs d \<and> (\<forall>p. strict_prefix p dir \<longrightarrow> \<not> is_file d p) \<and> (path_exists d dir \<longrightarrow> complete content dir d)"

definition considerate :: "env \<Rightarrow> path \<Rightarrow> path \<Rightarrow> (path \<Rightarrow> node option) \<Rightarrow> bool" where
  "considerate E tmp dir content \<longleftrightarrow>
     (\<forall>tr d. cache_ok dir content d \<longrightarrow> undisturbed tmp dir content d (env_others E tr d))"

lemma considerateD:
  "considerate E tmp dir content \<Longrightarrow> cache_ok dir content d \<Longrightarrow> undisturbed tmp dir content d (env_others E tr d)"
  by (simp add: considerate_def)

lemma complete_stable: "undisturbed tmp dir content d d' \<Longrightarrow> complete content dir d \<Longrightarrow> complete content dir d'"
  unfolding undisturbed_def complete_def is_dir_def path_exists_def by (metis append_Nil2 option.distinct(1))

lemma cache_ok_stable:
  assumes "undisturbed tmp dir content d d'" "cache_ok dir content d"
  shows "cache_ok dir content d'"
proof -
  have "\<not> is_file d' p" if "strict_prefix p dir" for p
    using assms that unfolding undisturbed_def cache_ok_def is_file_iff
    by (metis node.distinct(1) option.inject option.distinct(1))
  moreover have "path_exists d' dir \<longrightarrow> complete content dir d'"
    using assms complete_stable [OF assms(1)] by (auto simp: undisturbed_def cache_ok_def split: if_splits)
  ultimately show ?thesis using assms by (simp add: cache_ok_def undisturbed_def)
qed

text \<open>Scratch directories lie in the cache, beside the directories of the templates.\<close>

definition scratch_for :: "path \<Rightarrow> path \<Rightarrow> path \<Rightarrow> bool" where
  "scratch_for cache dir tmp \<longleftrightarrow> strict_prefix cache dir \<and> (\<exists>n. tmp = cache @ [n]) \<and> \<not> prefix tmp dir"

lemma scratch_forD:
  assumes "scratch_for cache dir tmp"
  shows "tmp \<noteq> []" "butlast tmp = cache" "\<not> prefix tmp dir" "strict_prefix cache dir" "\<not> prefix tmp (dir @ p)"
    "strict_prefix q tmp \<Longrightarrow> strict_prefix q dir" "\<not> prefix dir tmp"
proof -
  from assms obtain n where n: "tmp = cache @ [n]" by (auto simp: scratch_for_def)
  with assms show "tmp \<noteq> []" "butlast tmp = cache" "\<not> prefix tmp dir" "strict_prefix cache dir"
    by (auto simp: scratch_for_def)
  show "\<not> prefix tmp (dir @ p)" using assms scratch_is_apart [of cache dir n p] n by (simp add: scratch_for_def)
  show "strict_prefix q tmp \<Longrightarrow> strict_prefix q dir"
    using assms strict_prefix_butlast [of q tmp] n
    by (simp add: scratch_for_def) (metis prefix_order.le_less_trans)
  show "\<not> prefix dir tmp" using assms scratch_is_apart [of cache dir n "[]"] n
    by (auto simp: scratch_for_def)
qed

text \<open>What happens below the scratch directory keeps the cache in order.\<close>

lemma cache_ok_below:
  assumes "scratch_for cache dir tmp" "cache_ok dir content d" "wf_fs d'"
    and "\<And>p. \<not> prefix tmp p \<Longrightarrow> node_at d' p = node_at d p"
  shows "cache_ok dir content d'" and "complete content dir d \<Longrightarrow> complete content dir d'"
proof -
  note s = scratch_forD [OF assms(1)]
  have dir: "node_at d' (dir @ p) = node_at d (dir @ p)" for p using assms(4) s(5) by blast
  show c: "complete content dir d \<Longrightarrow> complete content dir d'"
    using dir [of "[]"] dir by (simp add: complete_def is_dir_def)
  have "node_at d' p = node_at d p" if "strict_prefix p dir" for p
    using assms(4) s(3) that prefix_order.trans prefix_order.less_imp_le by blast
  with assms(2,3) c dir [of "[]"] show "cache_ok dir content d'"
    by (auto simp: cache_ok_def is_file_iff path_exists_def)
qed

lemma cache_ok_mkdir:
  assumes "mkdir_parents q d = Inr d'" "strict_prefix q dir" "cache_ok dir content d"
  shows "cache_ok dir content d'"
proof -
  have "\<not> prefix (dir @ p) q" for p
    using assms(2) by (metis prefixI prefix_order.le_less_trans prefix_order.less_irrefl prefix_order.trans)
  then have same: "node_at d' (dir @ p) = node_at d (dir @ p)" for p
    by (simp add: node_at_mkdir_parents [OF assms(1)])
  have "is_file d' p \<longleftrightarrow> is_file d p" for p by (auto simp: is_file_iff node_at_mkdir_parents [OF assms(1)])
  then show ?thesis
    using assms(3) wf_fs_mkdir_parents [OF _ assms(1)] same [of "[]"]
    by (auto simp: cache_ok_def path_exists_def complete_def is_dir_def same)
qed

lemma mkdir_towards:
  assumes "cache_ok dir content d" "strict_prefix q dir"
  shows "\<exists>d'. mkdir_parents q d = Inr d'"
proof (rule mkdir_parents_ok)
  have "strict_prefix p dir" if "prefix p q" for p
    using assms(2) that prefix_order.le_less_trans by blast
  then show "\<not> list_ex (is_file d) (prefixes q)" using assms(1) by (auto simp: list_ex_iff cache_ok_def)
qed

section \<open>The download\<close>

lemma mirrors_stable:
  assumes "undisturbed tmp dir content d d'" "scratch_for cache dir tmp" "mirrors pre obj ks tmp d"
  shows "mirrors pre obj ks tmp d'"
proof -
  have "is_dir d' p" if "prefix p tmp" for p
  proof (cases "p = tmp")
    case True
    have "node_at d' (tmp @ []) = node_at d (tmp @ [])" using assms(1) unfolding undisturbed_def by blast
    then show ?thesis using assms(3) True by (simp add: mirrors_def is_dir_def)
  next
    case False
    then have "strict_prefix p dir" using scratch_forD(6) [OF assms(2)] that by (simp add: strict_prefix_def)
    then show ?thesis using assms(1,3) that unfolding undisturbed_def mirrors_def is_dir_def
      by (metis option.distinct(1))
  qed
  then show ?thesis using assms(1,3) by (simp add: mirrors_def undisturbed_def)
qed

text \<open>One key: its directory is made, then others run, then the file is written.\<close>

lemma mirrors_step_shared:
  assumes reg: "regular_layout pre keys" and ks: "set ks \<subseteq> set keys" and k: "k \<in> set keys" "file_key pre k"
    and inv: "mirrors pre obj ks tmp d"
    and mk: "mkdir_parents (butlast (tmp @ key_parts pre k)) d = Inr d1"
    and same: "\<And>p. node_at d2 (tmp @ p) = node_at d1 (tmp @ p)" and up: "\<And>p. prefix p tmp \<Longrightarrow> is_dir d2 p"
  shows "\<exists>d3. write_bytes (tmp @ key_parts pre k) (obj k) d2 = Inr d3 \<and> mirrors pre obj (ks @ [k]) tmp d3"
proof -
  let ?kp = "key_parts pre k"
  note ne = regular_key_path(2) [OF reg k]
  from mirrors_step [OF reg ks k inv] mk obtain dx where
    dx: "write_bytes (tmp @ ?kp) (obj k) d1 = Inr dx" "mirrors pre obj (ks @ [k]) tmp dx" by force
  then have dx': "dx = dict_set d1 (tmp @ ?kp) (File (obj k))" "\<not> is_dir d1 (tmp @ ?kp)"
    "is_dir d1 (tmp @ butlast ?kp)" using ne by (auto simp: write_bytes_def butlast_append split: if_splits)
  define d3 where "d3 = dict_set d2 (tmp @ ?kp) (File (obj k))"
  have "write_bytes (tmp @ ?kp) (obj k) d2 = Inr d3"
    using dx'(2,3) ne by (simp add: write_bytes_def butlast_append is_dir_def same d3_def)
  moreover have "node_at d3 (tmp @ p) = node_at dx (tmp @ p)" for p
    by (simp add: d3_def dx'(1) node_at_dict_set same)
  moreover have "is_dir d3 p" if "prefix p tmp" for p
    using up [OF that] that ne by (auto simp: d3_def is_dir_def node_at_dict_set prefix_def)
  ultimately show ?thesis using dx(2) by (auto simp: mirrors_def)
qed

text \<open>What the bucket returns for a key is the object of the key; a call may fail.\<close>

definition honest :: "env \<Rightarrow> string \<Rightarrow> string list \<Rightarrow> (string \<Rightarrow> bytes) \<Rightarrow> bool" where
  "honest E bucket keys obj \<longleftrightarrow> (\<forall>tr c. \<forall>k \<in> set keys. env_get E tr bucket k = Inr c \<longrightarrow> c = obj k)"

definition answers :: "env \<Rightarrow> string \<Rightarrow> string list \<Rightarrow> (string \<Rightarrow> bytes) \<Rightarrow> bool" where
  "answers E bucket keys obj \<longleftrightarrow> (\<forall>tr. \<forall>k \<in> set keys. env_get E tr bucket k = Inr (obj k))"

lemma answers_honest: "answers E bucket keys obj \<Longrightarrow> honest E bucket keys obj"
  by (simp add: answers_def honest_def)

lemma mkdir_below_scratch:
  assumes "mkdir_parents (tmp @ q) d = Inr d'" "\<And>p. prefix p tmp \<Longrightarrow> is_dir d p" "\<not> prefix tmp p"
  shows "node_at d' p = node_at d p"
proof -
  have "prefix p tmp" if "prefix p (tmp @ q)" using that assms(3) by (metis prefixI prefix_same_cases)
  then show ?thesis using assms(2) by (auto simp: node_at_mkdir_parents [OF assms(1)] is_dir_def)
qed

lemma download_one_shared:
  assumes cons: "considerate E tmp dir content" and scr: "scratch_for cache dir tmp"
    and hon: "honest E (ts_bucket S) keys obj" and reg: "regular_layout pre keys"
    and k: "k \<in> set keys" "file_key pre k" "set dn \<subseteq> set keys"
    and inv: "mirrors pre obj dn tmp (disk w)" "cache_ok dir content (disk w)"
  shows "(\<exists>w1. download_keys E S pre tmp (k # ks) w = download_keys E S pre tmp ks w1 \<and>
      mirrors pre obj (dn @ [k]) tmp (disk w1) \<and> cache_ok dir content (disk w1)) \<or>
    (\<exists>e w1. download_keys E S pre tmp (k # ks) w = (Inl e, w1) \<and> cache_ok dir content (disk w1) \<and>
      \<not> answers E (ts_bucket S) keys obj)"
proof -
  let ?target = "tmp @ key_parts pre k"
  note path = regular_key_path(1) [OF reg k(1,2), of tmp] and ne = regular_key_path(2) [OF reg k(1,2)]
  have bl: "butlast ?target = tmp @ butlast (key_parts pre k)" using ne by (simp add: butlast_append)
  obtain d1 where d1: "mkdir_parents (butlast ?target) (disk w) = Inr d1"
    using mirrors_step [OF reg k(3,1,2) inv(1)] by blast
  have up: "prefix p tmp \<Longrightarrow> is_dir (disk w) p" for p using inv(1) by (simp add: mirrors_def)
  have out1: "\<not> prefix tmp p \<Longrightarrow> node_at d1 p = node_at (disk w) p" for p
    using mkdir_below_scratch [OF d1 [unfolded bl] up] by simp
  have wf1: "wf_fs d1" using inv(2) wf_fs_mkdir_parents [OF _ d1] by (simp add: cache_ok_def)
  have ok1: "cache_ok dir content d1" by (rule cache_ok_below [OF scr inv(2) wf1 out1])
  define d2 where "d2 = env_others E (trace w) d1"
  have u: "undisturbed tmp dir content d1 d2" unfolding d2_def by (rule considerateD [OF cons ok1])
  have ok2: "cache_ok dir content d2" by (rule cache_ok_stable [OF u ok1])
  have up1: "is_dir d1 p" if "prefix p tmp" for p using up [OF that] by (simp add: is_dir_def node_at_mkdir_parents [OF d1])
  have same: "node_at d2 (tmp @ p) = node_at d1 (tmp @ p)" for p using u by (simp add: undisturbed_def)
  have up2: "is_dir d2 p" if "prefix p tmp" for p
    using up1 [OF that] u same [of "[]"] that scratch_forD(6) [OF scr, of p]
    unfolding undisturbed_def is_dir_def strict_prefix_def by (cases "p = tmp") auto
  have step: "in_parents tmp ?target" using ne by (simp add: in_parents_def strict_prefix_def)
  show ?thesis
  proof (cases "env_get E (trace w) (ts_bucket S) k")
    case (Inl e)
    then have "\<not> answers E (ts_bucket S) keys obj" using k(1) by (auto simp: answers_def intro!: exI [of _ "trace w"] bexI [of _ k])
    moreover have "\<exists>e' w1. download_keys E S pre tmp (k # ks) w = (Inl e', w1) \<and> disk w1 = d2"
      using Inl k(2) path step d1
      by (auto simp: file_key_def io_simps disk_op_def get_bytes_def d2_def split: exn.splits)
    ultimately show ?thesis using ok2 by metis
  next
    case (Inr c)
    then have c: "c = obj k" using hon k(1) by (auto simp: honest_def)
    obtain d3 where d3: "write_bytes ?target (obj k) d2 = Inr d3" "mirrors pre obj (dn @ [k]) tmp d3"
      using mirrors_step_shared [OF reg k(3,1,2) inv(1) d1 same up2] by blast
    have "node_at d3 p = node_at d2 p" if "\<not> prefix tmp p" for p
      using d3(1) that by (auto simp: write_bytes_def node_at_dict_set split: if_splits)
    then have ok3: "cache_ok dir content d3"
      using cache_ok_below [OF scr ok2] wf_fs_write_bytes [OF _ d3(1)] ok2 by (simp add: cache_ok_def)
    let ?w = "\<lparr>trace = trace w @ [EvGet (ts_bucket S) k True], disk = d3\<rparr>"
    have "download_keys E S pre tmp (k # ks) w = download_keys E S pre tmp ks ?w"
      using Inr c k(2) path step d1 d3(1)
      by (simp add: file_key_def io_simps disk_op_def get_bytes_def flip: d2_def)
    then show ?thesis using d3(2) ok3 by (intro disjI1 exI [of _ ?w]) simp
  qed
qed

lemma download_keys_shared:
  assumes cons: "considerate E tmp dir content" and scr: "scratch_for cache dir tmp"
    and hon: "honest E (ts_bucket S) keys obj" and reg: "regular_layout pre keys"
  shows "set ks \<subseteq> set keys \<Longrightarrow> set dn \<subseteq> set keys \<Longrightarrow> mirrors pre obj dn tmp (disk w) \<Longrightarrow>
    cache_ok dir content (disk w) \<Longrightarrow> download_keys E S pre tmp ks w = (r, w') \<Longrightarrow>
    cache_ok dir content (disk w') \<and> (r = Inr () \<longrightarrow> mirrors pre obj (dn @ ks) tmp (disk w')) \<and>
    (answers E (ts_bucket S) keys obj \<longrightarrow> r = Inr ())"
proof (induction ks arbitrary: dn w)
  case (Cons k ks)
  show ?case
  proof (cases "file_key pre k")
    case False
    then have "mirrors pre obj (dn @ [k]) tmp (disk w)" "download_keys E S pre tmp ks w = (r, w')"
      using Cons.prems(3,5) by (auto simp: mirrors_def mirror_node_skip file_key_def split: if_splits)
    with Cons.IH [of "dn @ [k]" w] Cons.prems show ?thesis by simp
  next
    case True
    have k: "k \<in> set keys" using Cons.prems by simp
    from download_one_shared [OF cons scr hon reg k True Cons.prems(2,3,4), of ks] show ?thesis
    proof (elim disjE exE conjE)
      fix w1 assume "download_keys E S pre tmp (k # ks) w = download_keys E S pre tmp ks w1"
        "mirrors pre obj (dn @ [k]) tmp (disk w1)" "cache_ok dir content (disk w1)"
      with Cons.IH [of "dn @ [k]" w1] Cons.prems k show ?thesis by simp
    qed (use Cons.prems in auto)
  qed
qed simp

section \<open>The publication\<close>

lemma rename_into_place:
  assumes "wf_fs d" "is_dir d tmp" "is_dir d (butlast dir)" "\<not> path_exists d dir" "\<not> prefix tmp dir"
  shows "\<exists>d'. replace_dir tmp dir d = Inr d'"
proof -
  have none: "\<not> list_ex (\<lambda>e. strict_prefix dir (fst e)) d"
  proof -
    have "p \<notin> fst ` set d" if "strict_prefix dir p" for p
    proof -
      have "node_at d p = None" "p \<noteq> []"
        using wf_fs_below_missing [OF assms(1,4), of p] that by auto
      then show ?thesis by (simp add: node_at_def map_of_eq_None_iff)
    qed
    then show ?thesis unfolding list_ex_iff by blast
  qed
  moreover have "dir \<noteq> []" "tmp \<noteq> dir" "\<not> is_file d dir" using assms(4,5) by (auto simp: path_exists_iff)
  ultimately show ?thesis using assms by (simp add: replace_dir_def)
qed

lemma replace_full_directory:
  assumes "is_dir d tmp" "is_dir d (butlast dir)" "complete content dir d" "content q = Some n" "q \<noteq> []"
    and "\<not> prefix tmp dir"
  shows "replace_dir tmp dir d = Inl (OSError ''Directory not empty'')"
proof -
  have "node_at d (dir @ q) \<noteq> None" using assms(3-5) by (simp add: complete_def)
  then have "dir @ q \<in> fst ` set d" using assms(5) by (intro node_at_entry) auto
  moreover have "strict_prefix dir (dir @ q)" using assms(5) by (simp add: strict_prefix_def)
  ultimately have "list_ex (\<lambda>e. strict_prefix dir (fst e)) d" unfolding list_ex_iff by (metis imageE)
  moreover have "tmp \<noteq> dir" "\<not> is_file d dir" using assms(3,6) is_file_not_dir by (auto simp: complete_def)
  ultimately show ?thesis using assms by (simp add: replace_dir_def)
qed

lemma cache_ok_replaced:
  assumes scr: "scratch_for cache dir tmp" and ok: "cache_ok dir content d"
    and r: "replace_dir tmp dir d = Inr d'" and m: "mirrors pre obj keys tmp d"
    and content: "\<And>p. p \<noteq> [] \<Longrightarrow> mirror_node pre obj keys p = content p"
  shows "cache_ok dir content d'" "complete content dir d'"
proof -
  note s = scratch_forD [OF scr]
  have ne: "tmp \<noteq> dir" using s(3) by auto
  note at = node_at_replace_dir [OF r ne]
  have new: "node_at d' (dir @ p) = node_at d (tmp @ p)" for p by (simp add: at)
  show c: "complete content dir d'"
    using m content new [of "[]"] by (simp add: complete_def is_dir_def mirrors_def new)
  have "node_at d' p = node_at d p" if p: "strict_prefix p dir" for p
  proof -
    have "\<not> prefix dir p" using p by (metis prefix_order.less_le_trans prefix_order.less_irrefl)
    moreover have "\<not> prefix tmp p" using p s(3) prefix_order.trans prefix_order.less_imp_le by blast
    ultimately show ?thesis by (simp add: at)
  qed
  then show "cache_ok dir content d'"
    using ok c wf_fs_replace_dir [OF _ r] by (auto simp: cache_ok_def is_file_iff)
qed

lemma publish_shared:
  assumes cons: "considerate E tmp dir content" and scr: "scratch_for cache dir tmp"
    and m: "mirrors pre obj keys tmp (disk w)" and ok: "cache_ok dir content (disk w)"
    and content: "\<And>p. p \<noteq> [] \<Longrightarrow> mirror_node pre obj keys p = content p"
    and some: "content q = Some n" "q \<noteq> []"
  shows "\<exists>d. publish E tmp dir w = (Inr (), w\<lparr>disk := d\<rparr>) \<and> cache_ok dir content d \<and> complete content dir d \<and>
    (d = disk w \<or> (\<exists>d1. mkdir_parents (butlast dir) (disk w) = Inr d1 \<and>
       (d = env_others E (trace w) d1 \<or> \<not> path_exists (env_others E (trace w) d1) dir \<and>
          replace_dir tmp dir (env_others E (trace w) d1) = Inr d)))"
proof (cases "path_exists (disk w) dir")
  case True
  then show ?thesis using ok
    by (auto simp: publish_def io_simps disk_read_def cache_ok_def intro!: exI [of _ "disk w"])
next
  case False
  note s = scratch_forD [OF scr]
  have ne: "dir \<noteq> []" using False by (auto simp: path_exists_def)
  then have sp: "strict_prefix (butlast dir) dir" by (simp flip: prefix_butlast_iff)
  from mkdir_towards [OF ok sp] obtain d1 where d1: "mkdir_parents (butlast dir) (disk w) = Inr d1" ..
  note n1 = node_at_mkdir_parents [OF d1]
  have ok1: "cache_ok dir content d1" by (rule cache_ok_mkdir [OF d1 sp ok])
  have "\<not> prefix (tmp @ p) (butlast dir)" for p
    using s(3) by (metis prefix_order.trans prefixI prefixeq_butlast)
  then have m1: "mirrors pre obj keys tmp d1" using m by (simp add: mirrors_def is_dir_def n1)
  define d2 where "d2 = env_others E (trace w) d1"
  have u: "undisturbed tmp dir content d1 d2" unfolding d2_def by (rule considerateD [OF cons ok1])
  have m2: "mirrors pre obj keys tmp d2" by (rule mirrors_stable [OF u scr m1])
  have ok2: "cache_ok dir content d2" by (rule cache_ok_stable [OF u ok1])
  have par2: "is_dir d2 (butlast dir)"
    using is_dir_mkdir_parents [OF d1] u sp unfolding undisturbed_def is_dir_def by (metis option.distinct(1))
  have tmp2: "is_dir d2 tmp" and wf2: "wf_fs d2" using m2 ok2 by (simp_all add: mirrors_def cache_ok_def)
  show ?thesis
  proof (cases "path_exists d2 dir")
    case True
    then have c: "complete content dir d2" using ok2 by (simp add: cache_ok_def)
    have "publish E tmp dir w = (Inr (), w\<lparr>disk := d2\<rparr>)"
      using False True d1 replace_full_directory [OF tmp2 par2 c some s(3)]
      by (simp add: publish_def io_simps disk_op_def disk_read_def is_OSError_def flip: d2_def)
    with c ok2 d1 show ?thesis by (auto simp: d2_def)
  next
    case False2: False
    from rename_into_place [OF wf2 tmp2 par2 False2 s(3)] obtain d3 where d3: "replace_dir tmp dir d2 = Inr d3" ..
    have "publish E tmp dir w = (Inr (), w\<lparr>disk := d3\<rparr>)"
      using False d1 d3 by (simp add: publish_def io_simps disk_op_def disk_read_def flip: d2_def)
    with cache_ok_replaced [OF scr ok2 d3 m2 content] d1 d3 False2 show ?thesis by (auto simp: d2_def)
  qed
qed

section \<open>A fetch among others\<close>

text \<open>
  What a fetch relies on: the scratch names it is given lie in the cache beside the template, and
  whatever the others do leaves it undisturbed. What the bucket lists and returns is the template,
  although each call may fail.
\<close>

definition relies :: "env \<Rightarrow> path \<Rightarrow> path \<Rightarrow> (path \<Rightarrow> node option) \<Rightarrow> bool" where
  "relies E cache dir content \<longleftrightarrow>
     (\<forall>tr. scratch_for cache dir (cache @ [env_tmp_name E tr]) \<and> considerate E (cache @ [env_tmp_name E tr]) dir content)"

definition fresh_names :: "env \<Rightarrow> path \<Rightarrow> fs \<Rightarrow> bool" where
  "fresh_names E cache d \<longleftrightarrow> (\<forall>tr. \<not> path_exists d (cache @ [env_tmp_name E tr]))"

definition holds_template :: "env \<Rightarrow> string \<Rightarrow> string \<Rightarrow> string list list \<Rightarrow> (string \<Rightarrow> bytes) \<Rightarrow> bool" where
  "holds_template E bucket pre pages obj \<longleftrightarrow>
     (\<forall>tr ps. env_list E tr bucket pre = Inr ps \<longrightarrow> ps = pages) \<and> honest E bucket (concat pages) obj \<and>
     regular_layout pre (concat pages) \<and> pre @ manifest_name \<in> set (concat pages)"

lemma serves_holds:
  "serves E bucket pre pages obj \<Longrightarrow> regular_layout pre (concat pages) \<Longrightarrow>
   pre @ manifest_name \<in> set (concat pages) \<Longrightarrow> holds_template E bucket pre pages obj"
  by (simp add: serves_def holds_template_def honest_def)

lemma relies_undisturbed: "relies E cache dir content \<Longrightarrow> cache_ok dir content d \<Longrightarrow> undisturbed (cache @ [env_tmp_name E tr]) dir content d (env_others E tr' d)"
  by (simp add: relies_def considerate_def)

lemma fresh_names_stable:
  "relies E cache dir content \<Longrightarrow> cache_ok dir content d \<Longrightarrow> fresh_names E cache d \<Longrightarrow> fresh_names E cache (env_others E tr d)"
  using relies_undisturbed [of E cache dir content d _ tr]
  unfolding fresh_names_def undisturbed_def path_exists_def by (metis append_Nil2)

lemma relies_cache_ok: "relies E cache dir content \<Longrightarrow> cache_ok dir content d \<Longrightarrow> cache_ok dir content (env_others E tr d)"
  using cache_ok_stable relies_undisturbed by blast

text \<open>The listing, in which others run once.\<close>

lemma list_prefix_shared:
  assumes rel: "relies E cache dir content" and ok: "cache_ok dir content (disk w)"
    and run: "list_prefix E b p w = (r, w')"
  shows "cache_ok dir content (disk w')" "fresh_names E cache (disk w) \<Longrightarrow> fresh_names E cache (disk w')"
  using run relies_cache_ok [OF rel ok] fresh_names_stable [OF rel ok]
  by (auto simp: list_prefix_def io_simps split: sum.splits)

text \<open>The scratch directory, from its creation to its removal.\<close>

lemma filled_shared:
  assumes scr: "scratch_for cache dir tmp" and cons: "considerate E tmp dir content"
    and holds: "holds_template E (ts_bucket S) pre pages obj" and ok: "cache_ok dir content d0"
    and new: "mkdir_new tmp d0 = Inr (disk w)" and dl: "download_keys E S pre tmp (concat pages) w = (r, w')"
  shows "cache_ok dir content (disk w') \<and> (r = Inr () \<longrightarrow> mirrors pre obj (concat pages) tmp (disk w')) \<and>
    (answers E (ts_bucket S) (concat pages) obj \<longrightarrow> r = Inr ())"
proof -
  have hon: "honest E (ts_bucket S) (concat pages) obj" "regular_layout pre (concat pages)"
    using holds by (simp_all add: holds_template_def)
  have wf0: "wf_fs d0" using ok by (simp add: cache_ok_def)
  have "node_at (disk w) p = node_at d0 p" if "\<not> prefix tmp p" for p
    using new that by (auto simp: mkdir_new_def node_at_dict_set split: if_splits dest!: sym [of _ "disk w"])
  then have ok1: "cache_ok dir content (disk w)"
    by (rule cache_ok_below(1) [OF scr ok wf_fs_mkdir_new [OF wf0 new]])
  have m1: "mirrors pre obj [] tmp (disk w)" by (rule mirrors_new_dir [OF wf0 new])
  show ?thesis using download_keys_shared [OF cons scr hon _ _ m1 ok1 dl] by simp
qed

lemma scratch_phase_shared:
  assumes rel: "relies E cache dir content" and holds: "holds_template E (ts_bucket S) pre pages obj"
    and content: "content = mirror_node pre obj (concat pages)"
    and ok: "cache_ok dir content d0" and tmp: "tmp = cache @ [env_tmp_name E tr]"
    and new: "mkdir_new tmp d0 = Inr (disk w)"
    and run: "try_finally (and_then (download_keys E S pre tmp (concat pages)) (\<lambda>_. publish E tmp dir)) (rmtree tmp) w = (r, w')"
  shows "cache_ok dir content (disk w') \<and> (r = Inr () \<longrightarrow> complete content dir (disk w')) \<and>
    (answers E (ts_bucket S) (concat pages) obj \<longrightarrow> r = Inr ())"
proof -
  have scr: "scratch_for cache dir tmp" and cons: "considerate E tmp dir content" using rel by (simp_all add: relies_def tmp)
  obtain r2 w2 where dl: "download_keys E S pre tmp (concat pages) w = (r2, w2)"
    by (cases "download_keys E S pre tmp (concat pages) w")
  note d = filled_shared [OF scr cons holds ok new dl]
  have rm: "cache_ok dir content (remove_tree tmp d')"
    "complete content dir d' \<Longrightarrow> complete content dir (remove_tree tmp d')" if "cache_ok dir content d'" for d'
  proof -
    have "node_at (remove_tree tmp d') p = node_at d' p" if "\<not> prefix tmp p" for p
      using that by (cases "p = []") (simp_all add: node_at_remove_tree)
    moreover have "wf_fs (remove_tree tmp d')" using that wf_fs_remove_tree by (simp add: cache_ok_def)
    ultimately show "cache_ok dir content (remove_tree tmp d')"
      "complete content dir d' \<Longrightarrow> complete content dir (remove_tree tmp d')"
      using cache_ok_below [OF scr that] by blast+
  qed
  show ?thesis
  proof (cases r2)
    case (Inl e)
    then show ?thesis using run dl d rm(1) by (auto simp: io_simps)
  next
    case (Inr u)
    have some: "content [manifest_name] = Some (File (obj (pre @ manifest_name)))"
      using holds by (simp add: content holds_template_def manifest_mirrored)
    have m2: "mirrors pre obj (concat pages) tmp (disk w2)" using d Inr by simp
    obtain d3 where "publish E tmp dir w2 = (Inr (), w2\<lparr>disk := d3\<rparr>)" "cache_ok dir content d3" "complete content dir d3"
      using publish_shared [OF cons scr m2 _ _ some] d content by (simp only: list.distinct) blast
    then show ?thesis using run dl Inr rm by (auto simp: io_simps)
  qed
qed

lemma names_manifest:
  assumes "pre = base @ ''/''" "pre @ manifest_name \<in> set keys"
  shows "list_ex (\<lambda>k. posix_name k = manifest_name) keys"
proof -
  have "posix_name (pre @ manifest_name) = manifest_name"
    using posix_name_below [of manifest_name base] by (simp add: assms(1) manifest_name_def)
  then show ?thesis using assms(2) by (auto simp: list_ex_iff)
qed

lemma download_prefix_shared:
  assumes rel: "relies E (ts_cache_dir S) dir content" and holds: "holds_template E (ts_bucket S) pre pages obj"
    and content: "content = mirror_node pre obj (concat pages)" and pre: "pre = base @ ''/''"
    and ok: "cache_ok dir content (disk w)" and run: "download_prefix E S pre dir w = (r, w')"
  shows "cache_ok dir content (disk w') \<and> (r = Inr () \<longrightarrow> complete content dir (disk w')) \<and>
    (serves E (ts_bucket S) pre pages obj \<and> fresh_names E (ts_cache_dir S) (disk w) \<longrightarrow> r = Inr ())"
proof -
  let ?cache = "ts_cache_dir S"
  obtain rl wl where ls: "list_prefix E (ts_bucket S) pre w = (rl, wl)" by (cases "list_prefix E (ts_bucket S) pre w")
  note l = list_prefix_shared [OF rel ok ls]
  have man: "pre @ manifest_name \<in> set (concat pages)" using holds by (simp add: holds_template_def)
  show ?thesis
  proof (cases rl)
    case (Inl e)
    moreover have "\<not> serves E (ts_bucket S) pre pages obj"
      using ls Inl by (auto simp: list_prefix_def io_simps serves_def split: if_splits)
    ultimately show ?thesis using run ls l by (auto simp: download_prefix_def io_simps split: if_splits)
  next
    case (Inr keys)
    then have "keys = concat pages" using ls holds
      by (auto simp: list_prefix_def io_simps holds_template_def split: sum.splits if_splits)
    note keys = Inr [unfolded this]
    have sp: "strict_prefix ?cache dir" using rel by (simp add: relies_def scratch_for_def)
    from mkdir_towards [OF l(1) sp] obtain d0 where d0: "mkdir_parents ?cache (disk wl) = Inr d0" ..
    have ok0: "cache_ok dir content d0" by (rule cache_ok_mkdir [OF d0 sp l(1)])
    let ?w0 = "wl\<lparr>disk := d0\<rparr>" and ?tmp = "?cache @ [env_tmp_name E (trace wl)]"
    show ?thesis
    proof (cases "mkdir_new ?tmp d0")
      case (Inl e)
      then have "\<not> fresh_names E ?cache (disk w)"
        using scratch_opens [OF d0, of "env_tmp_name E (trace wl)"] l(2) by (auto simp: fresh_names_def)
      then show ?thesis using run ls keys names_manifest [OF pre man] d0 Inl ok0
        by (auto simp: download_prefix_def io_simps disk_op_def mkdtemp_def)
    next
      case (Inr d1)
      let ?w1 = "?w0\<lparr>disk := d1\<rparr>"
      have mk: "mkdtemp E ?cache ?w0 = (Inr ?tmp, ?w1)" using Inr by (simp add: mkdtemp_def io_simps disk_op_def)
      have "try_finally (and_then (download_keys E S pre ?tmp (concat pages)) (\<lambda>_. publish E ?tmp dir)) (rmtree ?tmp) ?w1 = (r, w')"
        using run ls keys names_manifest [OF pre man] d0 mk by (simp add: download_prefix_def io_simps disk_op_def)
      from scratch_phase_shared [OF rel holds content ok0 refl _ this] Inr show ?thesis
        by (auto simp: serves_def answers_def)
    qed
  qed
qed

text \<open>Once the template's directory is complete, its manifest is read and the bundle returned.\<close>

lemma load_complete:
  assumes "complete content dir (disk w)" "content [manifest_name] = Some (File c)"
    and "model_validate_json pd ''Manifest'' (decode_manifest pd) c = Inr m"
  shows "load_manifest pd (dir @ [manifest_name]) uri w = (Inr m, w)"
  using assms by (simp add: load_manifest_def io_simps disk_read_def read_bytes_def complete_def)

lemma fetch_shared:
  assumes rel: "relies E (ts_cache_dir S) dir content" and holds: "holds_template E (ts_bucket S) pre pages obj"
    and content: "content = mirror_node pre obj (concat pages)"
    and uri: "parse_s3_uri uri = Inr (ts_bucket S, pre)" "pre \<noteq> []" "local_dir_for S pre = Inr dir"
    and valid: "model_validate_json pd ''Manifest'' (decode_manifest pd) (obj (pre @ manifest_name)) = Inr m"
    and ok: "cache_ok dir content (disk w)"
    and run: "fetch E pd S uri w = (r, w')"
  shows "cache_ok dir content (disk w') \<and>
    (\<forall>b. r = Inr b \<longrightarrow> b = \<lparr>bun_manifest = m, bun_root = dir\<rparr> \<and> complete content dir (disk w')) \<and>
    (serves E (ts_bucket S) pre pages obj \<and> fresh_names E (ts_cache_dir S) (disk w) \<longrightarrow> r = Inr \<lparr>bun_manifest = m, bun_root = dir\<rparr>)"
proof -
  from parse_s3_uri_shape [OF uri(1)] uri(2) obtain base where pre: "pre = base @ ''/''" by blast
  have man: "content [manifest_name] = Some (File (obj (pre @ manifest_name)))"
    using holds by (simp add: content holds_template_def manifest_mirrored)
  have load: "load_manifest pd (dir @ [manifest_name]) uri v = (Inr m, v)" if "complete content dir (disk v)" for v
    by (rule load_complete [where content = content, OF that man valid])
  show ?thesis
  proof (cases "is_file (disk w) (dir @ [manifest_name])")
    case True
    then have "path_exists (disk w) dir"
      using wf_fs_below_missing ok unfolding cache_ok_def is_file_iff by (metis option.distinct(1) prefixI)
    then have c: "complete content dir (disk w)" using ok by (simp add: cache_ok_def)
    show ?thesis using run fetch_cached(1) [OF uri True] load [OF c] c ok by (auto simp: io_simps)
  next
    case False
    obtain r1 w1 where dl: "download_prefix E S pre dir w = (r1, w1)" by (cases "download_prefix E S pre dir w")
    note d = download_prefix_shared [OF rel holds content pre ok dl]
    have f: "fetch E pd S uri w = (case r1 of Inl e \<Rightarrow> (Inl e, w1)
        | Inr _ \<Rightarrow> and_then (load_manifest pd (dir @ [manifest_name]) uri) (\<lambda>m. ret \<lparr>bun_manifest = m, bun_root = dir\<rparr>) w1)"
      using False uri dl by (simp add: fetch_def io_simps disk_read_def split: sum.splits)
    show ?thesis
    proof (cases r1)
      case (Inl e)
      then show ?thesis using run f d by auto
    next
      case (Inr u)
      then have c: "complete content dir (disk w1)" using d by simp
      show ?thesis using run f Inr load [OF c] d by (auto simp: io_simps)
    qed
  qed
qed

section \<open>What a fetch does to the others\<close>

text \<open>A run as a sequence of steps of the surroundings and of steps that leave a fetch undisturbed.\<close>

definition harmless :: "env \<Rightarrow> path \<Rightarrow> path \<Rightarrow> (path \<Rightarrow> node option) \<Rightarrow> fs \<Rightarrow> fs \<Rightarrow> bool" where
  "harmless E tmp dir content =
     (\<lambda>d d'. undisturbed tmp dir content d d' \<or> (\<exists>tr. d' = env_others E tr d))\<^sup>*\<^sup>*"

definition runs_harmless :: "env \<Rightarrow> path \<Rightarrow> path \<Rightarrow> (path \<Rightarrow> node option) \<Rightarrow> world \<Rightarrow> world \<Rightarrow> bool" where
  "runs_harmless E tmp dir content w w' \<longleftrightarrow> harmless E tmp dir content (disk w) (disk w')"

lemma harmless_refl [simp]: "harmless E tmp dir content d d"
  by (simp add: harmless_def)

lemma harmless_own: "undisturbed tmp dir content d d' \<Longrightarrow> harmless E tmp dir content d d'"
  by (auto simp: harmless_def)

lemma harmless_others: "harmless E tmp dir content d (env_others E tr d)"
  by (auto simp: harmless_def)

lemma harmless_trans:
  "harmless E tmp dir content d d' \<Longrightarrow> harmless E tmp dir content d' d'' \<Longrightarrow> harmless E tmp dir content d d''"
  by (simp add: harmless_def)

text \<open>When the surroundings leave the fetch undisturbed too, so does the whole run.\<close>

lemma harmless_undisturbed:
  assumes "harmless E tmp dir content d d'" "considerate E tmp dir content" "cache_ok dir content d"
  shows "undisturbed tmp dir content d d'"
  using assms(1) unfolding harmless_def
proof (induction rule: rtranclp_induct)
  case (step d1 d2)
  then have "undisturbed tmp dir content d1 d2"
    using cache_ok_stable [OF _ assms(3)] considerateD [OF assms(2)] by blast
  with step.IH show ?case by (rule undisturbed_trans)
qed simp

lemma runs_harmless_order [simp, preserves_intros]:
  "reflp (runs_harmless E tmp dir content)" "transp (runs_harmless E tmp dir content)"
  by (auto simp: runs_harmless_def reflp_def transp_def intro: harmless_trans)

lemma runs_harmless_disk_op:
  "(\<And>d d'. f d = Inr d' \<Longrightarrow> undisturbed tmp dir content d d') \<Longrightarrow>
   preserves (runs_harmless E tmp dir content) (disk_op f)"
  by (auto simp: preserves_def disk_op_def runs_harmless_def split: sum.splits intro: harmless_own)

lemma runs_harmless_disk_read [preserves_intros]: "preserves (runs_harmless E tmp dir content) (disk_read f)"
  by (simp add: preserves_def disk_read_def runs_harmless_def)

lemma runs_harmless_await [preserves_intros]: "preserves (runs_harmless E tmp dir content) (await E a ev)"
  by (auto simp: preserves_def await_def runs_harmless_def intro: harmless_others)

lemma runs_harmless_others_run [preserves_intros]: "preserves (runs_harmless E tmp dir content) (others_run E)"
  by (auto simp: preserves_def others_run_def runs_harmless_def intro: harmless_others)

text \<open>
  Two fetches on one cache: their scratch directories are different and not in the way of either
  template, and the templates are the same or neither lies within the other.
\<close>

definition apart :: "path \<Rightarrow> path \<Rightarrow> bool" where
  "apart p q \<longleftrightarrow> \<not> prefix p q \<and> \<not> prefix q p"

definition side_by_side :: "path \<Rightarrow> path \<Rightarrow> path \<Rightarrow> path \<Rightarrow> path \<Rightarrow> bool" where
  "side_by_side cache tmp dir tmp' dir' \<longleftrightarrow>
     scratch_for cache dir tmp \<and> scratch_for cache dir tmp' \<and> scratch_for cache dir' tmp \<and> scratch_for cache dir' tmp' \<and>
     tmp \<noteq> tmp' \<and> (dir = dir' \<or> apart dir dir')"

lemma side_by_sideD:
  assumes "side_by_side cache tmp dir tmp' dir'"
  shows "scratch_for cache dir tmp" "scratch_for cache dir tmp'" "scratch_for cache dir' tmp" "scratch_for cache dir' tmp'"
    "\<not> prefix tmp (tmp' @ p)" "\<not> prefix tmp' (tmp @ p)" "dir = dir' \<or> apart dir dir'"
proof -
  from assms show "scratch_for cache dir tmp" "scratch_for cache dir tmp'" "scratch_for cache dir' tmp"
    "scratch_for cache dir' tmp'" "dir = dir' \<or> apart dir dir'" by (simp_all add: side_by_side_def)
  from assms show "\<not> prefix tmp (tmp' @ p)" "\<not> prefix tmp' (tmp @ p)" by (auto simp: side_by_side_def scratch_for_def)
qed

lemma undisturbed_below:
  assumes sbs: "side_by_side cache tmp dir tmp' dir'" and wf: "wf_fs d \<Longrightarrow> wf_fs d'" and c: "confined tmp' d d'"
  shows "undisturbed tmp dir content d d'"
proof -
  note s = side_by_sideD [OF sbs] and b = scratch_forD [OF side_by_sideD(2) [OF sbs]]
  have up: "\<not> prefix tmp' p \<Longrightarrow> \<not> strict_prefix p tmp' \<Longrightarrow> node_at d' p = node_at d p" for p
    using c by (auto simp: confined_def)
  have "\<not> strict_prefix (tmp @ p) tmp'" for p
    using s(5) [of "[]"] by (metis append_Nil2 prefixI prefix_order.le_less_trans prefix_order.less_imp_le)
  then have t: "node_at d' (tmp @ p) = node_at d (tmp @ p)" for p using up s(6) by blast
  have "\<not> strict_prefix (dir @ p) tmp'" for p
    using b(7) by (metis prefixI prefix_order.le_less_trans prefix_order.less_imp_le)
  then have i: "node_at d' (dir @ p) = node_at d (dir @ p)" for p using up b(5) by blast
  have "\<not> prefix tmp' p" if "strict_prefix p dir" for p
    using b(3) that prefix_order.trans prefix_order.less_imp_le by blast
  then show ?thesis using wf t i i [of "[]"] c by (auto simp: undisturbed_def confined_def path_exists_def)
qed

lemma undisturbed_mkdir:
  assumes "mkdir_parents q d = Inr d'" "\<not> prefix tmp q" "\<not> prefix dir q"
  shows "undisturbed tmp dir content d d'"
proof -
  have "\<not> prefix (tmp @ p) q" "\<not> prefix (dir @ p) q" for p using assms(2,3) by (metis prefixI prefix_order.trans)+
  then have same: "node_at d' (tmp @ p) = node_at d (tmp @ p)" "node_at d' (dir @ p) = node_at d (dir @ p)" for p
    by (simp_all add: node_at_mkdir_parents [OF assms(1)])
  show ?thesis using wf_fs_mkdir_parents [OF _ assms(1)] same same(2) [of "[]"]
    by (auto simp: undisturbed_def path_exists_def node_at_mkdir_parents [OF assms(1)])
qed

lemma undisturbed_rename:
  assumes s: "side_by_side cache tmp dir tmp' dir'" and r: "replace_dir tmp' dir' d = Inr d'"
    and same: "dir = dir' \<Longrightarrow> \<not> path_exists d dir \<and> complete content dir d'"
  shows "undisturbed tmp dir content d d'"
proof -
  note b = side_by_sideD [OF s]
  have ne: "tmp' \<noteq> dir'" using scratch_forD(3) [OF b(4)] by auto
  note at = node_at_replace_dir [OF r ne]
  have "\<not> prefix dir' (tmp @ p)" for p
    using scratch_forD(3,7) [OF b(3)] by (metis prefixI prefix_same_cases)
  then have t: "node_at d' (tmp @ p) = node_at d (tmp @ p)" for p by (simp add: at b(6))
  have up: "node_at d' p = node_at d p" if "strict_prefix p dir" for p
  proof -
    have "\<not> prefix dir' p"
      using that b(7) unfolding apart_def
      by (metis prefix_order.le_less_trans prefix_order.less_imp_le prefix_order.less_irrefl)
    moreover have "\<not> prefix tmp' p"
      using that scratch_forD(3) [OF b(2)] prefix_order.trans prefix_order.less_imp_le by blast
    ultimately show ?thesis by (simp add: at)
  qed
  have "if path_exists d dir then \<forall>p. node_at d' (dir @ p) = node_at d (dir @ p)
      else path_exists d' dir \<longrightarrow> complete content dir d'"
  proof (cases "dir = dir'")
    case True
    then show ?thesis using same by simp
  next
    case False
    then have "\<not> prefix dir' (dir @ p)" for p using b(7) unfolding apart_def by (metis prefixI prefix_same_cases)
    then have i: "node_at d' (dir @ p) = node_at d (dir @ p)" for p
      by (simp add: at scratch_forD(5) [OF b(2)])
    then show ?thesis using i [of "[]"] by (auto simp: path_exists_def)
  qed
  then show ?thesis using t up wf_fs_replace_dir [OF _ r] by (auto simp: undisturbed_def)
qed

text \<open>Each step of a fetch, as another one sees it.\<close>

lemma harmless_confined:
  assumes "side_by_side cache tmp dir tmp' dir'" "\<And>d d'. f d = Inr d' \<Longrightarrow> wf_fs d \<Longrightarrow> wf_fs d'"
    and "\<And>d d'. f d = Inr d' \<Longrightarrow> confined tmp' d d'"
  shows "preserves (runs_harmless E tmp dir content) (disk_op f)"
  using assms by (intro runs_harmless_disk_op undisturbed_below) auto

lemma harmless_get_bytes: "preserves (runs_harmless E tmp dir content) (get_bytes E b k)"
  unfolding get_bytes_def by (intro preserves_intros)

lemma harmless_list_prefix: "preserves (runs_harmless E tmp dir content) (list_prefix E b k)"
  unfolding list_prefix_def by (intro preserves_intros; simp)

lemma harmless_target:
  assumes s: "side_by_side cache tmp dir tmp' dir'" and "in_parents tmp' target"
  shows "preserves (runs_harmless E tmp dir content) (disk_op (mkdir_parents (butlast target)))"
    and "preserves (runs_harmless E tmp dir content) (disk_op (write_bytes target c))"
  using in_parents_under [OF prefix_order.order_refl assms(2)]
  by (auto intro: harmless_confined [OF s] wf_fs_mkdir_parents wf_fs_write_bytes confined_mkdir_parents confined_write_bytes)

lemma harmless_download_keys:
  assumes s: "side_by_side cache tmp dir tmp' dir'"
  shows "preserves (runs_harmless E tmp dir content) (download_keys E S pre tmp' keys)"
proof (induction keys)
  case (Cons key keys)
  then show ?case
    by (auto simp: Let_def intro!: preserves_intros harmless_get_bytes harmless_target [OF s] split: exn.splits)
qed (simp add: preserves_Pair)

lemma harmless_mkdir_above:
  assumes s: "side_by_side cache tmp dir tmp' dir'" and q: "q = cache \<or> q = butlast dir' \<and> dir' \<noteq> []"
  shows "preserves (runs_harmless E tmp dir content) (disk_op (mkdir_parents q))"
proof (rule runs_harmless_disk_op, rule undisturbed_mkdir, assumption)
  note b = side_by_sideD [OF s]
  have q': "strict_prefix q dir'" using q scratch_forD(4) [OF b(3)] by (auto simp flip: prefix_butlast_iff)
  then show "\<not> prefix tmp q" using scratch_forD(3) [OF b(3)] prefix_order.trans prefix_order.less_imp_le by blast
  show "\<not> prefix dir q" using b(7) q' unfolding apart_def
    by (metis prefix_order.le_less_trans prefix_order.less_imp_le prefix_order.less_irrefl)
qed

lemma harmless_rmtree:
  "side_by_side cache tmp dir tmp' dir' \<Longrightarrow> preserves (runs_harmless E tmp dir content) (rmtree tmp')"
  unfolding rmtree_def by (erule harmless_confined) (auto intro: wf_fs_remove_tree confined_remove_tree)

lemma harmless_publish_other:
  assumes s: "side_by_side cache tmp dir tmp' dir'" and "dir \<noteq> dir'"
  shows "preserves (runs_harmless E tmp dir content) (publish E tmp' dir')"
proof -
  have "dir' \<noteq> []" using side_by_sideD(3) [OF s] by (auto simp: scratch_for_def)
  note mk = harmless_mkdir_above [OF s, of "butlast dir'" E content]
  have mv: "preserves (runs_harmless E tmp dir content) (disk_op (replace_dir tmp' dir'))"
    by (rule runs_harmless_disk_op, rule undisturbed_rename [OF s], assumption) (use assms(2) in simp)
  show ?thesis unfolding publish_def
    by (auto intro!: preserves_intros mk mv simp: \<open>dir' \<noteq> []\<close>)
qed

lemma harmless_publish_same:
  assumes s: "side_by_side cache tmp dir tmp' dir" and cons: "considerate E tmp' dir content"
    and m: "mirrors pre obj keys tmp' (disk w)" and ok: "cache_ok dir content (disk w)"
    and content: "\<And>p. p \<noteq> [] \<Longrightarrow> mirror_node pre obj keys p = content p"
    and some: "content q = Some n" "q \<noteq> []" and run: "publish E tmp' dir w = (r, w')"
  shows "runs_harmless E tmp dir content w w'"
proof -
  have ne: "dir \<noteq> []" using side_by_sideD(3) [OF s] by (auto simp: scratch_for_def)
  obtain d where d: "disk w' = d" "complete content dir d"
    and cs: "d = disk w \<or> (\<exists>d1. mkdir_parents (butlast dir) (disk w) = Inr d1 \<and>
       (d = env_others E (trace w) d1 \<or> \<not> path_exists (env_others E (trace w) d1) dir \<and>
          replace_dir tmp' dir (env_others E (trace w) d1) = Inr d))"
    using publish_shared [OF cons side_by_sideD(2) [OF s] m ok content some] run by auto
  have rename: "harmless E tmp dir content d2 d" if "\<not> path_exists d2 dir" "replace_dir tmp' dir d2 = Inr d" for d2
    using undisturbed_rename [OF s that(2)] that(1) d(2) harmless_own by blast
  have mk: "harmless E tmp dir content (disk w) d1" if "mkdir_parents (butlast dir) (disk w) = Inr d1" for d1
    using preservesD [OF harmless_mkdir_above [OF s], of "butlast dir" w "Inr ()" "w\<lparr>disk := d1\<rparr>" E content] ne that
    by (simp add: io_simps runs_harmless_def)
  have "harmless E tmp dir content (disk w) d"
    using cs mk rename harmless_trans harmless_others harmless_refl by metis
  then show ?thesis by (simp add: runs_harmless_def d)
qed

text \<open>
  What a fetch of the same template must know about its own run, to publish nothing but the
  template; a fetch of another template needs nothing.
\<close>

definition same_template :: "env \<Rightarrow> template_store \<Rightarrow> string \<Rightarrow> path \<Rightarrow> (path \<Rightarrow> node option) \<Rightarrow> fs \<Rightarrow> bool" where
  "same_template E S pre dir content d \<longleftrightarrow>
     relies E (ts_cache_dir S) dir content \<and> cache_ok dir content d \<and>
     (\<exists>pages obj. holds_template E (ts_bucket S) pre pages obj \<and> content = mirror_node pre obj (concat pages))"

lemma harmless_run: "runs_harmless E t dir c w w1 \<Longrightarrow> preserves (runs_harmless E t dir c) m \<Longrightarrow> m w1 = (r, w2) \<Longrightarrow>
    runs_harmless E t dir c w w2"
  using preservesD harmless_trans unfolding runs_harmless_def by metis

lemma harmless_scratch_phase:
  assumes s: "side_by_side cache tmp dir tmp' dir'"
    and same: "dir = dir' \<Longrightarrow> considerate E tmp' dir content \<and> holds_template E (ts_bucket S) pre pages obj \<and>
      keys = concat pages \<and> content = mirror_node pre obj keys \<and> cache_ok dir content d0 \<and> mkdir_new tmp' d0 = Inr (disk w)"
    and run: "try_finally (and_then (download_keys E S pre tmp' keys) (\<lambda>_. publish E tmp' dir')) (rmtree tmp') w = (r, w')"
  shows "runs_harmless E tmp dir content w w'"
proof -
  obtain r2 w2 where dl: "download_keys E S pre tmp' keys w = (r2, w2)" by (cases "download_keys E S pre tmp' keys w")
  note h2 = preservesD [OF harmless_download_keys [OF s] dl, of content]
  have rm: "runs_harmless E tmp dir content w (v\<lparr>disk := remove_tree tmp' (disk v)\<rparr>)" if "runs_harmless E tmp dir content w v" for v
    by (rule harmless_run [OF that harmless_rmtree [OF s]]) (simp add: rmtree_run)
  show ?thesis
  proof (cases r2)
    case (Inl e)
    then show ?thesis using run dl rm [OF h2] by (auto simp: io_simps)
  next
    case (Inr u)
    obtain r3 w3 where pub: "publish E tmp' dir' w2 = (r3, w3)" by (cases "publish E tmp' dir' w2")
    have "runs_harmless E tmp dir content w2 w3"
    proof (cases "dir = dir'")
      case False
      then show ?thesis using preservesD [OF harmless_publish_other [OF s] pub] by blast
    next
      case True
      note k = same [OF True]
      then have man: "content [manifest_name] = Some (File (obj (pre @ manifest_name)))"
        by (simp add: holds_template_def manifest_mirrored)
      have "cache_ok dir content (disk w2) \<and> mirrors pre obj keys tmp' (disk w2)"
        using filled_shared [OF side_by_sideD(2) [OF s], of E content S pre pages obj d0 w r2 w2] k dl [unfolded Inr] Inr
        by (elim conjE) simp
      then show ?thesis
        using harmless_publish_same [OF s [folded True], of E content pre obj keys w2] k man pub True by auto
    qed
    then have "runs_harmless E tmp dir content w w3" using h2 harmless_trans unfolding runs_harmless_def by blast
    then show ?thesis using run dl Inr pub rm by (auto simp: io_simps)
  qed
qed

lemma harmless_download_prefix:
  assumes s: "\<And>tr. side_by_side (ts_cache_dir S) tmp dir (ts_cache_dir S @ [env_tmp_name E tr]) dir'"
    and same: "dir = dir' \<Longrightarrow> same_template E S pre dir content (disk w)"
    and run: "download_prefix E S pre dir' w = (r, w')"
  shows "runs_harmless E tmp dir content w w'"
proof -
  let ?cache = "ts_cache_dir S" and ?R = "runs_harmless E tmp dir content"
  obtain rl wl where ls: "list_prefix E (ts_bucket S) pre w = (rl, wl)" by (cases "list_prefix E (ts_bucket S) pre w")
  have hl: "?R w wl" by (rule preservesD [OF harmless_list_prefix ls])
  show ?thesis
  proof (cases "rl = Inr (projr rl) \<and> list_ex (\<lambda>k. posix_name k = manifest_name) (projr rl) \<and>
      (\<exists>d0. mkdir_parents ?cache (disk wl) = Inr d0)")
    case False
    then show ?thesis using run ls hl
      by (auto simp: download_prefix_def io_simps disk_op_def split: sum.splits if_splits)
  next
    case True
    then obtain keys d0 where keys: "rl = Inr keys" and mk: "mkdir_parents ?cache (disk wl) = Inr d0"
      and man: "list_ex (\<lambda>k. posix_name k = manifest_name) keys" by auto
    let ?w0 = "wl\<lparr>disk := d0\<rparr>" and ?tmp = "?cache @ [env_tmp_name E (trace wl)]"
    have h0: "?R w ?w0"
      by (rule harmless_run [OF hl harmless_mkdir_above [OF s, where q = ?cache]]) (use mk in \<open>auto simp: io_simps\<close>)
    show ?thesis
    proof (cases "mkdir_new ?tmp d0")
      case (Inl e)
      then show ?thesis using run ls keys man mk h0
        by (auto simp: download_prefix_def io_simps disk_op_def mkdtemp_def)
    next
      case (Inr d1)
      let ?w1 = "?w0\<lparr>disk := d1\<rparr>"
      have "mkdtemp E ?cache ?w0 = (Inr ?tmp, ?w1)" using Inr by (simp add: mkdtemp_def io_simps disk_op_def)
      then have r: "try_finally (and_then (download_keys E S pre ?tmp keys) (\<lambda>_. publish E ?tmp dir')) (rmtree ?tmp) ?w1 = (r, w')"
        using run ls keys man mk by (simp add: download_prefix_def io_simps disk_op_def)
      have "undisturbed tmp dir content d0 d1"
        by (rule undisturbed_below [OF s [of "trace wl"] wf_fs_mkdir_new [OF _ Inr] confined_mkdir_new [OF Inr]]) auto
      from harmless_own [OF this] h0 have "?R w ?w1" by (auto simp: runs_harmless_def intro: harmless_trans)
      moreover have "?R ?w1 w'"
      proof (cases "dir = dir'")
        case False
        then show ?thesis using harmless_scratch_phase [OF s _ r] by blast
      next
        case eq: True
        note k = same [OF eq, unfolded same_template_def]
        then obtain pages obj where h: "holds_template E (ts_bucket S) pre pages obj" "content = mirror_node pre obj (concat pages)"
          by blast
        then have pg: "keys = concat pages" using ls keys
          by (auto simp: list_prefix_def io_simps holds_template_def split: sum.splits if_splits)
        have rel: "relies E ?cache dir content" using k by blast
        then have sp: "strict_prefix ?cache dir" by (simp add: relies_def scratch_for_def)
        have "cache_ok dir content d0"
          using cache_ok_mkdir [OF mk sp] list_prefix_shared(1) [OF rel _ ls] k by blast
        moreover have "considerate E ?tmp dir content" using rel by (simp add: relies_def)
        ultimately show ?thesis
          using harmless_scratch_phase [OF s _ r, where content = content and pages = pages and obj = obj and ?d0.0 = d0] h pg Inr eq
          by simp
      qed
      ultimately show ?thesis using harmless_trans unfolding runs_harmless_def by blast
    qed
  qed
qed

lemma harmless_load_manifest: "preserves (runs_harmless E t dir c) (load_manifest pd p u)"
  unfolding load_manifest_def by (auto intro!: preserves_intros)

lemma harmless_fetch:
  assumes uri: "parse_s3_uri uri = Inr (ts_bucket S, pre)" "local_dir_for S pre = Inr dir'"
    and s: "\<And>tr. side_by_side (ts_cache_dir S) tmp dir (ts_cache_dir S @ [env_tmp_name E tr]) dir'"
    and same: "dir = dir' \<Longrightarrow> same_template E S pre dir content (disk w)"
    and run: "fetch E pd S uri w = (r, w')"
  shows "runs_harmless E tmp dir content w w'"
proof -
  let ?R = "runs_harmless E tmp dir content"
  let ?rest = "and_then (load_manifest pd (dir' @ [manifest_name]) uri) (\<lambda>m. ret \<lparr>bun_manifest = m, bun_root = dir'\<rparr>)"
  have rest: "preserves ?R ?rest" by (auto intro!: preserves_intros harmless_load_manifest)
  obtain r1 w1 where dl: "download_prefix E S pre dir' w = (r1, w1)" by (cases "download_prefix E S pre dir' w")
  have h: "?R w w1" by (rule harmless_download_prefix [OF s same dl])
  have refl: "?R w w" by (simp add: runs_harmless_def)
  consider "pre = []" "w' = w" | "pre \<noteq> []" "is_file (disk w) (dir' @ [manifest_name])" "?rest w = (r, w')"
    | e where "r1 = Inl e" "w' = w1" | "?rest w1 = (r, w')"
    using run uri dl
    by (cases "pre = []"; cases "is_file (disk w) (dir' @ [manifest_name])"; cases r1)
      (auto simp: fetch_def io_simps disk_read_def)
  then show ?thesis using h refl harmless_run [OF refl rest] harmless_run [OF h rest] by cases auto
qed

section \<open>Fetches among fetches\<close>

text \<open>Other workers' fetches, one after another, on a disk that they share with this one.\<close>

fun fetches :: "pydantic \<Rightarrow> template_store \<Rightarrow> (env \<times> string) list \<Rightarrow> fs \<Rightarrow> fs" where
  "fetches pd S [] d = d"
| "fetches pd S ((E, uri) # rest) d = fetches pd S rest (disk (snd (fetch E pd S uri \<lparr>trace = [], disk = d\<rparr>)))"

definition colleague :: "env \<Rightarrow> template_store \<Rightarrow> path \<Rightarrow> (path \<Rightarrow> node option) \<Rightarrow> env \<times> string \<Rightarrow> bool" where
  "colleague E S dir content f \<longleftrightarrow>
     (case f of (E', uri') \<Rightarrow> quiet E' \<and> (\<exists>pre' dir'.
        parse_s3_uri uri' = Inr (ts_bucket S, pre') \<and> local_dir_for S pre' = Inr dir' \<and>
        (\<forall>tr tr'. side_by_side (ts_cache_dir S) (ts_cache_dir S @ [env_tmp_name E tr]) dir
           (ts_cache_dir S @ [env_tmp_name E' tr']) dir') \<and>
        (dir = dir' \<longrightarrow> (\<exists>pages obj. holds_template E' (ts_bucket S) pre' pages obj \<and>
           content = mirror_node pre' obj (concat pages)))))"

lemma colleague_undisturbed:
  assumes c: "colleague E S dir content (E', uri')" and ok: "cache_ok dir content d"
  shows "undisturbed (ts_cache_dir S @ [env_tmp_name E tr]) dir content d
    (disk (snd (fetch E' pd S uri' \<lparr>trace = [], disk = d\<rparr>)))"
proof -
  let ?tmp = "ts_cache_dir S @ [env_tmp_name E tr]" and ?w = "\<lparr>trace = [], disk = d\<rparr>"
  from c obtain pre' dir' where q: "quiet E'" and uri: "parse_s3_uri uri' = Inr (ts_bucket S, pre')" "local_dir_for S pre' = Inr dir'"
    and s: "\<And>tr'. side_by_side (ts_cache_dir S) ?tmp dir (ts_cache_dir S @ [env_tmp_name E' tr']) dir'"
    and same: "dir = dir' \<Longrightarrow> \<exists>pages obj. holds_template E' (ts_bucket S) pre' pages obj \<and>
           content = mirror_node pre' obj (concat pages)"
    unfolding colleague_def prod.case by blast
  have cons: "considerate E' t dir content" for t using q by (simp add: considerate_def)
  have "relies E' (ts_cache_dir S) dir content" using cons side_by_sideD(2) [OF s] by (simp add: relies_def)
  then have "same_template E' S pre' dir content (disk ?w)" if "dir = dir'"
    using same [OF that] ok by (simp add: same_template_def)
  from harmless_fetch [OF uri s this surjective_pairing]
  have "harmless E' ?tmp dir content d (disk (snd (fetch E' pd S uri' ?w)))" by (simp add: runs_harmless_def)
  then show ?thesis using cons ok by (rule harmless_undisturbed)
qed

lemma fetches_undisturbed:
  "(\<And>f. f \<in> set fs \<Longrightarrow> colleague E S dir content f) \<Longrightarrow> cache_ok dir content d \<Longrightarrow>
   undisturbed (ts_cache_dir S @ [env_tmp_name E tr]) dir content d (fetches pd S fs d)"
proof (induction pd S fs d rule: fetches.induct)
  case (2 pd S E' uri' rest d)
  have u: "undisturbed (ts_cache_dir S @ [env_tmp_name E tr]) dir content d
      (disk (snd (fetch E' pd S uri' \<lparr>trace = [], disk = d\<rparr>)))"
    by (rule colleague_undisturbed) (use 2 in auto)
  with 2 show ?case using cache_ok_stable [OF u 2(3)] by (auto intro: undisturbed_trans)
qed simp

lemma fetches_relied_on:
  assumes "\<And>tr d. env_others E tr d = fetches pd S (crew tr) d" "\<And>tr f. f \<in> set (crew tr) \<Longrightarrow> colleague E S dir content f"
    and "\<And>tr. scratch_for (ts_cache_dir S) dir (ts_cache_dir S @ [env_tmp_name E tr])"
  shows "relies E (ts_cache_dir S) dir content"
  using assms by (simp add: relies_def considerate_def fetches_undisturbed)

end
