(* ===== verification/Reproducible.thy ===== *)
theory Reproducible
  imports LiveWorker CacheSharing
begin

text \<open>
  The bytes of an artifact are a function of the template and the data. A render depends on the
  disk only below the template's directory and, of what the libraries do, not on the clock;
  the directory of a template holds the same files for whoever fetched it; so every delivery of a
  request, on any worker and in any order, writes the objects of one reference run.
\<close>

section \<open>A render is a function of the template\<close>

definition agree_below :: "path \<Rightarrow> fs \<Rightarrow> fs \<Rightarrow> bool" where
  "agree_below root d d' \<longleftrightarrow> (\<forall>p. node_at d (root @ p) = node_at d' (root @ p))"

lemma complete_agree: "complete content dir d \<Longrightarrow> complete content dir d' \<Longrightarrow> agree_below dir d d'"
  unfolding agree_below_def complete_def is_dir_def by (metis append_Nil2)

text \<open>
  Two states of the same libraries: they answer alike for the files below the template's directory,
  and what they save may differ in its dates and in the order of its parts.
\<close>

definition saved_alike :: "zip_lib \<Rightarrow> exn + bytes \<Rightarrow> exn + bytes \<Rightarrow> bool" where
  "saved_alike Z r r' \<longleftrightarrow>
     (case (r, r') of
        (Inr p, Inr p') \<Rightarrow> p = p' \<or> redated Z p p'
      | (Inl e, Inl e') \<Rightarrow> e = e'
      | _ \<Rightarrow> False)"

definition same_jinja :: "jinja_lib \<Rightarrow> jinja_lib \<Rightarrow> bool" where
  "same_jinja J J' \<longleftrightarrow>
     (\<forall>root d d'. agree_below root d d' \<longrightarrow>
        (\<forall>entry data loc. jj_render J d root entry data loc = jj_render J' d' root entry data loc) \<and>
        (\<forall>html. wp_write_pdf J d html root = wp_write_pdf J' d' html root))"

definition same_docx :: "zip_lib \<Rightarrow> docx_lib \<Rightarrow> docx_lib \<Rightarrow> bool" where
  "same_docx Z X X' \<longleftrightarrow> dx_render X = dx_render X' \<and>
     (\<forall>raw ctx je cp. saved_alike Z (dx_save X raw ctx je cp) (dx_save X' raw ctx je cp))"

definition same_xl :: "zip_lib \<Rightarrow> xl_lib \<Rightarrow> xl_lib \<Rightarrow> bool" where
  "same_xl Z X X' \<longleftrightarrow> X' = X\<lparr>xl_save := xl_save X'\<rparr> \<and>
     (\<forall>raw log. saved_alike Z (xl_save X raw log) (xl_save X' raw log))"

definition same_libraries :: "libs \<Rightarrow> libs \<Rightarrow> bool" where
  "same_libraries L L' \<longleftrightarrow> same_jinja (lib_jinja L) (lib_jinja L') \<and> same_docx (lib_zip L) (lib_docx L) (lib_docx L') \<and>
     same_xl (lib_zip L) (lib_xl L) (lib_xl L') \<and> lib_pdf L' = lib_pdf L \<and> lib_zip L' = lib_zip L"

lemma saved_alike_normalised:
  "saved_alike Z r r' \<Longrightarrow> res_bind r (normalise_ooxml_bytes Z) = res_bind r' (normalise_ooxml_bytes Z)"
  by (auto simp: saved_alike_def redated_normalised split: sum.splits)

text \<open>Finding the entrypoint and reading it look at the template's directory only.\<close>

lemma resolve_template_file_local: "agree_below root d d' \<Longrightarrow> resolve_template_file d root name = resolve_template_file d' root name"
proof -
  assume agree: "agree_below root d d'"
  have same: "is_file d p = is_file d' p" if "prefix root p" for p
    using agree that by (auto simp: agree_below_def is_file_iff elim!: prefixE)
  show ?thesis
    unfolding resolve_template_file_def
    by (auto simp: in_parents_def same prefix_order.less_imp_le split: sum.splits)
qed

lemma read_template_file:
  assumes "agree_below root d d'"
  shows "res_bind (resolve_template_file d root name) (\<lambda>entry. res_bind (read_bytes entry d) f) =
    res_bind (resolve_template_file d' root name) (\<lambda>entry. res_bind (read_bytes entry d') f)"
proof -
  have "read_bytes t d = read_bytes t d'" if "resolve_template_file d' root name = Inr t" for t
    using assms that by (auto simp: resolve_template_file_Inr agree_below_def read_bytes_def elim!: prefixE)
  then show ?thesis
    by (cases "resolve_template_file d' root name") (simp_all add: resolve_template_file_local [OF assms])
qed

lemma jinja_render_local:
  assumes "same_jinja J J'" "agree_below (bun_root b) d d'"
  shows "jinja_render J d b data fmt loc = jinja_render J' d' b data fmt loc"
proof -
  have "render_html J d b data loc = render_html J' d' b data loc"
    using assms by (simp add: render_html_def same_jinja_def resolve_template_file_local [OF assms(2)])
  moreover have "wp_write_pdf J d html (bun_root b) = wp_write_pdf J' d' html (bun_root b)" for html
    using assms by (simp add: same_jinja_def)
  ultimately show ?thesis by (simp add: jinja_render_def cong: if_cong)
qed

lemma docx_render_local:
  assumes "same_docx Z X X'" "agree_below (bun_root b) d d'"
  shows "docx_render X Z d b data fmt loc = docx_render X' Z d' b data fmt loc"
proof -
  have save: "res_bind (dx_save X raw ctx je cp) (normalise_ooxml_bytes Z) = res_bind (dx_save X' raw ctx je cp) (normalise_ooxml_bytes Z)"
    for raw ctx je cp using assms(1) by (simp add: same_docx_def saved_alike_normalised)
  have "dx_render X = dx_render X'" using assms(1) by (simp add: same_docx_def)
  then have "docx_content X Z d b data loc = docx_content X' Z d' b data loc"
    unfolding docx_content_def Let_def read_template_file [OF assms(2)] save by simp
  then show ?thesis by (simp add: docx_render_def)
qed

lemma pdf_render_local:
  assumes "agree_below (bun_root b) d d'"
  shows "pdf_render F d b data fmt loc = pdf_render F d' b data fmt loc"
  unfolding pdf_render_def pdf_content_def Let_def read_template_file [OF assms] ..

text \<open>What is written into a workbook does not depend on how it will be saved.\<close>

lemma fill_workbook_save: "fill_workbook (X\<lparr>xl_save := s\<rparr>) raw m data = fill_workbook X raw m data"
proof -
  let ?X = "X\<lparr>xl_save := s\<rparr>"
  have do: "xl_do ?X = xl_do X" by (intro ext) (simp add: xl_do_def)
  have "apply_destinations ?X raw v ds = apply_destinations X raw v ds" for v ds
    by (induction ds) (auto simp: do Let_def)
  then have names: "apply_defined_names ?X raw d skip ns = apply_defined_names X raw d skip ns" for d skip ns
    by (induction ns) (auto split: option.splits)
  have cell: "set_cell ?X = set_cell X" by (intro ext) (simp add: set_cell_def do cong: if_cong option.case_cong)
  have "set_columns ?X raw sheet r c row keys = set_columns X raw sheet r c row keys" for sheet r c row keys
    by (induction keys arbitrary: c) (simp_all add: cell)
  then have rows: "set_rows ?X raw sheet r c keys rows = set_rows X raw sheet r c keys rows" for sheet r c keys rows
    by (induction rows arbitrary: r) simp_all
  have hide: "hide_rows ?X raw sheet rs = hide_rows X raw sheet rs" for sheet rs by (induction rs) (simp_all add: do)
  have "anchor_reference ?X raw b = anchor_reference X raw b" for b
    by (simp add: anchor_reference_def cong: option.case_cong)
  then have "resolve_anchor ?X raw b = resolve_anchor X raw b" for b by (simp add: resolve_anchor_def)
  then have "apply_block ?X raw m d b = apply_block X raw m d b" for d b
    by (simp add: apply_block_def rows hide cong: if_cong)
  then have blocks: "apply_blocks ?X raw m d bs = apply_blocks X raw m d bs" for d bs by (induction bs) simp_all
  have "apply_cell_items ?X raw items = apply_cell_items X raw items" for items
    by (induction items) (auto simp: do cong: if_cong split: prod.splits)
  then have "apply_cell_items ?X raw = apply_cell_items X raw" by (rule ext)
  then have "apply_cells ?X raw v = apply_cells X raw v" for v by (simp add: apply_cells_def)
  then show ?thesis by (simp add: fill_workbook_def names blocks do)
qed

lemma xlsx_render_local:
  assumes "same_xl Z X X'" "agree_below (bun_root b) d d'"
  shows "xlsx_render X Z d b data fmt loc = xlsx_render X' Z d' b data fmt loc"
proof -
  have X': "X' = X\<lparr>xl_save := xl_save X'\<rparr>" using assms(1) by (simp add: same_xl_def)
  have fill: "fill_workbook X' raw m data = fill_workbook X raw m data" for raw m
    by (subst X') (rule fill_workbook_save)
  have load: "xl_load X' = xl_load X" by (subst X') simp
  have save: "res_bind (xl_save X raw log) (normalise_ooxml_bytes Z) = res_bind (xl_save X' raw log) (normalise_ooxml_bytes Z)" for raw log
    using assms(1) by (simp add: same_xl_def saved_alike_normalised)
  have "xlsx_content X Z d b data = xlsx_content X' Z d' b data"
    unfolding xlsx_content_def read_template_file [OF assms(2)] fill load save ..
  then show ?thesis by (simp add: xlsx_render_def)
qed

lemma render_local:
  assumes "same_libraries L L'" "agree_below (bun_root b) d d'"
  shows "render L r d b data fmt loc = render L' r d' b data fmt loc"
proof -
  from assms(1) have "same_jinja (lib_jinja L) (lib_jinja L')" "same_docx (lib_zip L) (lib_docx L) (lib_docx L')"
    "same_xl (lib_zip L) (lib_xl L) (lib_xl L')" "lib_pdf L' = lib_pdf L" "lib_zip L' = lib_zip L"
    by (simp_all add: same_libraries_def)
  then show ?thesis
    by (cases r) (simp_all add: jinja_render_local [OF _ assms(2)] docx_render_local [OF _ assms(2)]
        xlsx_render_local [OF _ assms(2)] pdf_render_local [OF assms(2)])
qed

section \<open>The reference run\<close>

text \<open>
  The objects of a request, computed without bucket, cache, pool or broker: each requested format
  rendered from the template, in order, under its key.
\<close>

fun reference_objects ::
  "(output_format \<Rightarrow> exn + bytes) \<Rightarrow> generation_request \<Rightarrow> manifest \<Rightarrow> output_format list \<Rightarrow>
   exn + (string \<times> bytes) list" where
  "reference_objects doc req m [] = Inr []"
| "reference_objects doc req m (fmt # fmts) =
     res_bind (doc fmt) (\<lambda>c.
     res_bind (reference_objects doc req m fmts) (\<lambda>rest.
     Inr ((build_object_key (req_key_prefix req) (filename_for m fmt), c) # rest)))"

lemma reference_objects_length: "reference_objects doc req m fmts = Inr objs \<Longrightarrow> length objs = length fmts"
  by (induction fmts arbitrary: objs) (auto simp: res_bind_Inr)

text \<open>
  Adapters with a template store and an executor that settle what a request is rendered from: in a
  world that is \<open>ready\<close> a fetch of \<open>uri\<close> can only return \<open>tpl\<close>, and leaves a world that is
  \<open>settled\<close>, in which the pool can only return the document of a format.
\<close>

locale settled_pipeline = pipeline P uri_of digest writes uncertain
  for P :: "('w, 'r) ports" and uri_of :: "string \<Rightarrow> string" and digest :: "bytes \<Rightarrow> string"
    and writes :: "'w \<Rightarrow> (string \<times> bytes) list" and uncertain :: "exn \<Rightarrow> bool" +
  fixes ready :: "'w \<Rightarrow> bool" and settled :: "'w \<Rightarrow> bool" and tpl :: template_bundle and uri :: string
    and doc :: "generation_request \<Rightarrow> output_format \<Rightarrow> exn + bytes"
  assumes fetch_ready: "ready w \<Longrightarrow> p_fetch P uri w = (x, w') \<Longrightarrow> ready w'"
    and fetch_settles: "ready w \<Longrightarrow> p_fetch P uri w = (Inr b, w') \<Longrightarrow> b = tpl \<and> settled w'"
    and settled_ready: "settled w \<Longrightarrow> ready w"
    and run_settled: "settled w \<Longrightarrow> p_run P r b d f l w = (z, w') \<Longrightarrow> settled w'"
    and put_settled: "settled w \<Longrightarrow> p_put P k c t ttl w = (y, w') \<Longrightarrow> settled w'"
    and run_doc: "settled w \<Longrightarrow> p_get_renderer P (man_engine (bun_manifest tpl)) fmt = Some r \<Longrightarrow>
      p_run P r tpl (req_data req) fmt (opt_locale (req_options req)) w = (Inr a, w') \<Longrightarrow>
      doc req fmt = Inr (ra_content a)"
begin

abbreviation reference :: "generation_request \<Rightarrow> exn + (string \<times> bytes) list" where
  "reference req \<equiv> reference_objects (doc req) req (bun_manifest tpl) (requested_formats req)"

lemma render_formats_settled:
  "settled w \<Longrightarrow> render_formats P req b rs fmts w = (x, w') \<Longrightarrow> settled w'"
proof (induction fmts arbitrary: w w' x)
  case (Cons fmt fmts)
  then show ?case
    by (auto simp: io_simps split: option.splits prod.splits sum.splits dest: run_settled)
qed simp

lemma render_formats_reference:
  "settled w \<Longrightarrow> (\<And>f. f \<in> set fmts \<Longrightarrow> map_of rs f = p_get_renderer P (man_engine (bun_manifest tpl)) f) \<Longrightarrow>
   render_formats P req tpl rs fmts w = (Inr arts, w') \<Longrightarrow>
   reference_objects (doc req) req (bun_manifest tpl) fmts = Inr (map (\<lambda>a. (key_of req a, ra_content a)) arts)"
proof (induction fmts arbitrary: w w' arts)
  case (Cons fmt fmts)
  then obtain r a w1 arts' where r: "p_get_renderer P (man_engine (bun_manifest tpl)) fmt = Some r"
    and run: "p_run P r tpl (req_data req) fmt (opt_locale (req_options req)) w = (Inr a, w1)"
    and rest: "render_formats P req tpl rs fmts w1 = (Inr arts', w')" "arts = a # arts'"
    by (auto simp: io_simps split: option.splits prod.splits sum.splits)
  have "settled w1" using run_settled [OF Cons.prems(1) run] .
  then have "reference_objects (doc req) req (bun_manifest tpl) fmts = Inr (map (\<lambda>a. (key_of req a, ra_content a)) arts')"
    using Cons.IH [OF _ _ rest(1)] Cons.prems(2) by simp
  with rest(2) run_doc [OF Cons.prems(1) r run] run_names [OF run] show ?case by (simp add: key_of_def)
qed simp

lemma store_artifacts_settled: "settled w \<Longrightarrow> store_artifacts P req arts w = (x, w') \<Longrightarrow> settled w'"
proof (induction arts arbitrary: w w' x)
  case (Cons a arts)
  then show ?case by (auto simp: io_simps split: prod.splits sum.splits dest: put_settled)
qed simp

text \<open>Whatever happens, a run writes an initial part of the reference; a success, all of it.\<close>

lemma process_bundle_reference:
  assumes w: "settled w" and run: "process_bundle P req g tpl w = (x, w')"
  shows "settled w' \<and> (writes w' = writes w \<or>
    (\<exists>objs n. reference req = Inr objs \<and> n \<le> length objs \<and> writes w' = writes w @ take n objs)) \<and>
    (\<forall>r. x = Inr r \<longrightarrow> (\<exists>objs. reference req = Inr objs \<and> writes w' = writes w @ objs))"
proof (cases "\<exists>rs arts w1. check_formats P (bun_manifest tpl) (requested_formats req) [] = Inr rs \<and>
    p_validate P (req_data req) (man_required_fields (bun_manifest tpl)) = Inr () \<and>
    render_formats P req tpl rs (requested_formats req) w = (Inr arts, w1)")
  case False
  then show ?thesis using run w render_formats_settled [OF w] render_formats_writes
    by (auto simp: process_bundle_def io_simps split: prod.splits sum.splits)
next
  case True
  then obtain rs arts w1 where chk: "check_formats P (bun_manifest tpl) (requested_formats req) [] = Inr rs"
    and val: "p_validate P (req_data req) (man_required_fields (bun_manifest tpl)) = Inr ()"
    and ren: "render_formats P req tpl rs (requested_formats req) w = (Inr arts, w1)" by blast
  have w1: "settled w1" "writes w1 = writes w"
    using render_formats_settled [OF w ren] render_formats_writes [OF ren] by auto
  have ref: "reference req = Inr (map (\<lambda>a. (key_of req a, ra_content a)) arts)"
    by (rule render_formats_reference [OF w _ ren]) (simp add: check_formats_renderers(1) [OF chk])
  obtain y w2 where sto: "store_artifacts P req arts w1 = (y, w2)" by (cases "store_artifacts P req arts w1")
  have run': "w' = w2" "x = (case y of Inl e \<Rightarrow> Inl e
      | Inr as \<Rightarrow> Inr (success_result req as (man_version (bun_manifest tpl)) g))"
    using run chk val ren sto by (auto simp: process_bundle_def io_simps split: sum.splits)
  have w2: "settled w2" by (rule store_artifacts_settled [OF w1(1) sto])
  show ?thesis
  proof (cases y)
    case (Inl e)
    obtain n where "n \<le> length arts" "writes w2 = writes w1 @ map (\<lambda>a. (key_of req a, ra_content a)) (take n arts)"
      using store_artifacts_raises [OF sto [unfolded Inl]] by blast
    then show ?thesis using run' w1(2) w2 ref Inl
      by (auto simp: take_map intro!: disjI2 exI [of _ n])
  next
    case (Inr as)
    then have "writes w2 = writes w1 @ map (\<lambda>a. (key_of req a, ra_content a)) arts"
      using store_artifacts_ok [OF sto [unfolded Inr]] by blast
    then show ?thesis using run' w1(2) w2 ref Inr
      by (auto intro!: disjI2 exI [of _ "length arts"])
  qed
qed

lemma process_request_reference:
  assumes w: "ready w" and run: "process_request P req g w = (x, w')" and req: "req_template_uri req = uri"
  shows "ready w' \<and> (writes w' = writes w \<or>
    (\<exists>objs n. reference req = Inr objs \<and> n \<le> length objs \<and> writes w' = writes w @ take n objs))"
    and "x = Inr r \<Longrightarrow> res_status r = SUCCESS \<Longrightarrow> \<exists>objs. reference req = Inr objs \<and> writes w' = writes w @ objs"
proof -
  note c = process_request_cases [OF run, unfolded req]
  show "ready w' \<and> (writes w' = writes w \<or>
    (\<exists>objs n. reference req = Inr objs \<and> n \<le> length objs \<and> writes w' = writes w @ take n objs))"
  proof (rule c)
    fix e assume "p_fetch P uri w = (Inl e, w')"
    then show ?thesis using fetch_ready [OF w] fetch_writes by blast
  next
    fix b w1 e assume "p_fetch P uri w = (Inr b, w1)" "process_bundle P req g b w1 = (Inl e, w')"
    then show ?thesis
      using fetch_settles [OF w] fetch_writes process_bundle_reference settled_ready by metis
  next
    fix b w1 r assume "p_fetch P uri w = (Inr b, w1)" "process_bundle P req g b w1 = (Inr r, w')"
    then show ?thesis
      using fetch_settles [OF w] fetch_writes process_bundle_reference settled_ready by metis
  qed
  assume r: "x = Inr r" "res_status r = SUCCESS"
  show "\<exists>objs. reference req = Inr objs \<and> writes w' = writes w @ objs"
  proof (rule c)
    fix b w1 r' assume "p_fetch P uri w = (Inr b, w1)" "process_bundle P req g b w1 = (Inr r', w')"
    then show ?thesis using fetch_settles [OF w] fetch_writes process_bundle_reference by metis
  qed (use r in \<open>auto simp: result_defs split: exn.splits\<close>)
qed

end

section \<open>The deployed pipeline\<close>

text \<open>
  A worker that serves the template: its uri leads to the directory, the bucket holds the files, the
  manifest is valid, others that use the cache keep to the rules, and the worker's libraries are those
  of the reference, which has the template on its disk \<open>d0\<close>.
\<close>

definition serves_template ::
  "env \<Rightarrow> pydantic \<Rightarrow> libs \<Rightarrow> settings \<Rightarrow> string \<Rightarrow> template_bundle \<Rightarrow> (path \<Rightarrow> node option) \<Rightarrow> libs \<Rightarrow> fs \<Rightarrow> bool" where
  "serves_template E pd L cfg uri tpl content L0 d0 \<longleftrightarrow>
     same_libraries L L0 \<and> complete content (bun_root tpl) d0 \<and>
     relies E (set_cache_dir cfg) (bun_root tpl) content \<and>
     (\<exists>pre pages obj. parse_s3_uri uri = Inr (set_templates_bucket cfg, pre) \<and> pre \<noteq> [] \<and>
        local_dir_for (cache_of cfg) pre = Inr (bun_root tpl) \<and>
        holds_template E (set_templates_bucket cfg) pre pages obj \<and> content = mirror_node pre obj (concat pages) \<and>
        model_validate_json pd ''Manifest'' (decode_manifest pd) (obj (pre @ manifest_name)) = Inr (bun_manifest tpl))"

definition in_order ::
  "env \<Rightarrow> pydantic \<Rightarrow> libs \<Rightarrow> settings \<Rightarrow> string \<Rightarrow> template_bundle \<Rightarrow> (path \<Rightarrow> node option) \<Rightarrow> libs \<Rightarrow> fs \<Rightarrow> world \<Rightarrow> bool" where
  "in_order E pd L cfg uri tpl content L0 d0 w \<longleftrightarrow>
     serves_template E pd L cfg uri tpl content L0 d0 \<and> cache_ok (bun_root tpl) content (disk w)"

definition in_cache ::
  "env \<Rightarrow> pydantic \<Rightarrow> libs \<Rightarrow> settings \<Rightarrow> string \<Rightarrow> template_bundle \<Rightarrow> (path \<Rightarrow> node option) \<Rightarrow> libs \<Rightarrow> fs \<Rightarrow> world \<Rightarrow> bool" where
  "in_cache E pd L cfg uri tpl content L0 d0 w \<longleftrightarrow>
     in_order E pd L cfg uri tpl content L0 d0 w \<and> complete content (bun_root tpl) (disk w)"

text \<open>Nothing that awaits the services takes the template away or puts anything else in its place.\<close>

definition keeps_template :: "path \<Rightarrow> (path \<Rightarrow> node option) \<Rightarrow> world \<Rightarrow> world \<Rightarrow> bool" where
  "keeps_template dir content w w' \<longleftrightarrow>
     (cache_ok dir content (disk w) \<longrightarrow> cache_ok dir content (disk w') \<and>
       (complete content dir (disk w) \<longrightarrow> complete content dir (disk w')))"

lemma keeps_template_order [simp, preserves_intros]:
  "reflp (keeps_template dir content)" "transp (keeps_template dir content)"
  by (auto simp: keeps_template_def reflp_def transp_def)

lemma keeps_template_await:
  "relies E cache dir content \<Longrightarrow> preserves (keeps_template dir content) (await E a ev)"
  using relies_undisturbed relies_cache_ok complete_stable
  by (fastforce simp: preserves_def await_def keeps_template_def)

lemma keeps_template_emit_event: "preserves (keeps_template dir content) (emit_event ev)"
  by (simp add: preserves_def emit_event_def keeps_template_def)

lemma keeps_template_disk_read: "preserves (keeps_template dir content) (disk_read f)"
  by (simp add: preserves_def disk_read_def keeps_template_def)

lemma keeps_template_run_in_pool:
  "relies E cache dir content \<Longrightarrow> preserves (keeps_template dir content) (run_in_pool E L r b data fmt loc)"
  unfolding run_in_pool_def by (auto intro!: preserves_intros keeps_template_await keeps_template_disk_read)

lemma keeps_template_put_artifact:
  "relies E cache dir content \<Longrightarrow> preserves (keeps_template dir content) (put_artifact E sha b k c t ttl)"
  unfolding put_artifact_def put_bytes_def presign_get_def Let_def
  by (auto intro!: preserves_intros keeps_template_await split: option.splits)

lemma fetch_in_order:
  assumes w: "in_order E pd L cfg uri tpl content L0 d0 w" and run: "fetch E pd (cache_of cfg) uri w = (x, w')"
  shows "in_order E pd L cfg uri tpl content L0 d0 w'"
    and "x = Inr b \<Longrightarrow> b = tpl \<and> in_cache E pd L cfg uri tpl content L0 d0 w'"
proof -
  from w obtain pre pages obj where rel: "relies E (ts_cache_dir (cache_of cfg)) (bun_root tpl) content"
    and uri: "parse_s3_uri uri = Inr (ts_bucket (cache_of cfg), pre)" "pre \<noteq> []" "local_dir_for (cache_of cfg) pre = Inr (bun_root tpl)"
    and holds: "holds_template E (ts_bucket (cache_of cfg)) pre pages obj" and content: "content = mirror_node pre obj (concat pages)"
    and valid: "model_validate_json pd ''Manifest'' (decode_manifest pd) (obj (pre @ manifest_name)) = Inr (bun_manifest tpl)"
    and ok: "cache_ok (bun_root tpl) content (disk w)"
    unfolding in_order_def serves_template_def cache_of_def template_store.select_convs by blast
  have f: "cache_ok (bun_root tpl) content (disk w')"
      "x = Inr b \<Longrightarrow> b = tpl \<and> complete content (bun_root tpl) (disk w')" for b
    using fetch_shared [OF rel holds content uri valid ok run] by auto
  show "in_order E pd L cfg uri tpl content L0 d0 w'" using w f(1) by (simp add: in_order_def)
  then show "x = Inr b \<Longrightarrow> b = tpl \<and> in_cache E pd L cfg uri tpl content L0 d0 w'"
    using f(2) by (simp add: in_cache_def)
qed

lemma in_order_relies: "in_order E pd L cfg uri tpl content L0 d0 w \<Longrightarrow> relies E (set_cache_dir cfg) (bun_root tpl) content"
  by (simp add: in_order_def serves_template_def)

lemma in_cache_order: "in_cache E pd L cfg uri tpl content L0 d0 w \<Longrightarrow> in_order E pd L cfg uri tpl content L0 d0 w"
  by (simp add: in_cache_def)

lemma keeps_in_order:
  assumes "keeps_template (bun_root tpl) content w w'"
  shows "in_order E pd L cfg uri tpl content L0 d0 w \<Longrightarrow> in_order E pd L cfg uri tpl content L0 d0 w'"
    and "in_cache E pd L cfg uri tpl content L0 d0 w \<Longrightarrow> in_cache E pd L cfg uri tpl content L0 d0 w'"
  using assms by (simp_all add: in_order_def in_cache_def keeps_template_def)

lemma pool_renders_document:
  assumes w: "in_cache E pd L cfg uri tpl content L0 d0 w" and get: "registry_get (man_engine (bun_manifest tpl)) fmt = Some r"
    and run: "run_in_pool E L r tpl (req_data req) fmt (opt_locale (req_options req)) w = (Inr a, w')"
  shows "rendered_document L0 d0 tpl req fmt = Inr (ra_content a)"
proof -
  have rel: "relies E (set_cache_dir cfg) (bun_root tpl) content" and libs: "same_libraries L L0"
    and d0: "complete content (bun_root tpl) d0"
    using w by (simp_all add: in_cache_def in_order_def serves_template_def)
  have "complete content (bun_root tpl) (disk w')"
    using keeps_in_order(2) [OF preservesD [OF keeps_template_run_in_pool [OF rel] run] w] by (simp add: in_cache_def)
  from complete_agree [OF this d0] have "render L0 r d0 tpl (req_data req) fmt (opt_locale (req_options req)) = Inr a"
    using run_in_pool_Inr [OF run] render_local [OF libs] by metis
  then show ?thesis by (simp add: rendered_document_def get)
qed

lemma live_steps_keep:
  assumes "in_cache E pd L cfg uri tpl content L0 d0 w"
  shows "run_in_pool E L r b d f l w = (z, w') \<Longrightarrow> in_cache E pd L cfg uri tpl content L0 d0 w'"
    and "put_artifact E sha bucket k c t ttl w = (y, w') \<Longrightarrow> in_cache E pd L cfg uri tpl content L0 d0 w'"
proof -
  have rel: "relies E (set_cache_dir cfg) (bun_root tpl) content" by (rule in_order_relies [OF in_cache_order [OF assms]])
  show "run_in_pool E L r b d f l w = (z, w') \<Longrightarrow> in_cache E pd L cfg uri tpl content L0 d0 w'"
    using keeps_in_order(2) preservesD [OF keeps_template_run_in_pool [OF rel]] assms by blast
  show "put_artifact E sha bucket k c t ttl w = (y, w') \<Longrightarrow> in_cache E pd L cfg uri tpl content L0 d0 w'"
    using keeps_in_order(2) preservesD [OF keeps_template_put_artifact [OF rel]] assms by blast
qed

interpretation settled: settled_pipeline "live_ports E pd js L sha cfg" "object_uri (set_output_bucket cfg)" sha
    "bucket_writes (set_output_bucket cfg)" "\<lambda>e. \<not> is_Exception e" "in_order E pd L cfg uri tpl content L0 d0"
    "in_cache E pd L cfg uri tpl content L0 d0" tpl uri "rendered_document L0 d0 tpl"
  for E pd js L sha cfg uri tpl content L0 d0
proof
  fix w x w' assume w: "in_order E pd L cfg uri tpl content L0 d0 w"
    and "p_fetch (live_ports E pd js L sha cfg) uri w = (x, w')"
  then have run: "fetch E pd (cache_of cfg) uri w = (x, w')" by (simp add: live_ports_def cache_of_def)
  show "in_order E pd L cfg uri tpl content L0 d0 w'" by (rule fetch_in_order(1) [OF w run])
next
  fix w b w' assume w: "in_order E pd L cfg uri tpl content L0 d0 w"
    and "p_fetch (live_ports E pd js L sha cfg) uri w = (Inr b, w')"
  then have run: "fetch E pd (cache_of cfg) uri w = (Inr b, w')" by (simp add: live_ports_def cache_of_def)
  show "b = tpl \<and> in_cache E pd L cfg uri tpl content L0 d0 w'" by (rule fetch_in_order(2) [OF w run refl])
next
  fix w assume "in_cache E pd L cfg uri tpl content L0 d0 w"
  then show "in_order E pd L cfg uri tpl content L0 d0 w" by (rule in_cache_order)
next
  fix w r b d f l z w' assume w: "in_cache E pd L cfg uri tpl content L0 d0 w"
    and "p_run (live_ports E pd js L sha cfg) r b d f l w = (z, w')"
  then have "run_in_pool E L r b d f l w = (z, w')" by (simp add: live_ports_def)
  with w show "in_cache E pd L cfg uri tpl content L0 d0 w'" by (rule live_steps_keep(1))
next
  fix w k c t ttl y w' assume w: "in_cache E pd L cfg uri tpl content L0 d0 w"
    and "p_put (live_ports E pd js L sha cfg) k c t ttl w = (y, w')"
  then have "put_artifact E sha (set_output_bucket cfg) k c t ttl w = (y, w')" by (simp add: live_ports_def)
  with w show "in_cache E pd L cfg uri tpl content L0 d0 w'" by (rule live_steps_keep(2))
next
  fix w fmt r and req :: generation_request and a w' assume w: "in_cache E pd L cfg uri tpl content L0 d0 w"
    and "p_get_renderer (live_ports E pd js L sha cfg) (man_engine (bun_manifest tpl)) fmt = Some r"
      "p_run (live_ports E pd js L sha cfg) r tpl (req_data req) fmt (opt_locale (req_options req)) w = (Inr a, w')"
  then have get: "registry_get (man_engine (bun_manifest tpl)) fmt = Some r"
    and run: "run_in_pool E L r tpl (req_data req) fmt (opt_locale (req_options req)) w = (Inr a, w')"
    by (simp_all add: live_ports_def)
  show "rendered_document L0 d0 tpl req fmt = Inr (ra_content a)" by (rule pool_renders_document [OF w get run])
qed

interpretation settled_possible: settled_pipeline "live_ports E pd js L sha cfg" "object_uri (set_output_bucket cfg)" sha
    "possible_writes (set_output_bucket cfg)" "\<lambda>_. True" "in_order E pd L cfg uri tpl content L0 d0"
    "in_cache E pd L cfg uri tpl content L0 d0" tpl uri "rendered_document L0 d0 tpl"
  for E pd js L sha cfg uri tpl content L0 d0
  by (rule settled_pipeline.intro [OF live_possible.pipeline_axioms
      settled_pipeline.axioms(2) [OF settled.settled_pipeline_axioms]])

section \<open>Deliveries\<close>

lemma preserves_handle_message:
  assumes R: "reflp R" "transp R" and build: "\<And>req. decode pd (msg_data m) = Some req \<Longrightarrow> preserves R (build_result D req)"
    and pub: "\<And>s r. preserves R (dep_publish_result D s r)" "\<And>p h. preserves R (dep_publish_dlq D p h)"
    and await: "\<And>(a :: event list \<Rightarrow> exn + unit) ev. preserves R (await E a ev)" and ev: "\<And>e. preserves R (emit_event e)"
  shows "preserves R (handle_message E pd D m)"
proof -
  have broker: "preserves R (msg_ack E)" "preserves R (msg_nak E d)" for d by (simp_all add: msg_ack_def msg_nak_def await)
  have count: "preserves R (count_documents as)" for as by (induction as) (auto intro!: preserves_intros R ev)
  note rules = preserves_intros R pub broker count ev
  have emit: "preserves R (emit_failed E D m req)" "preserves R (emit_and_count E D m req r)" "preserves R (drop_undecodable E D m)" for req r
    unfolding emit_and_count_def emit_failed_def emit_def handle_emit_failure_def drop_undecodable_def
    by (auto intro!: rules)
  have "preserves R (handle_request E D m req)" if dec: "decode pd (msg_data m) = Some req" for req
  proof (rule preservesI)
    fix w x w' assume run: "handle_request E D m req w = (x, w')"
    obtain y w1 where y: "build_result D req w = (y, w1)" by (cases "build_result D req w")
    have "R w1 w'"
    proof (cases y)
      case (Inl e)
      have "preserves R (try_finally (if is_Exception e then emit_failed E D m req else raise e) (emit_event (EvDurationMetric ''unknown'')))"
        by (auto intro!: rules emit)
      with run y Inl show ?thesis by (auto simp: handle_request_def preserves_def)
    next
      case (Inr r)
      have "preserves R (try_finally (try_except (emit_and_count E D m req r) is_Exception (\<lambda>_. emit_failed E D m req))
          (emit_event (EvDurationMetric (status_value (res_status r)))))"
        by (auto intro!: rules emit)
      with run y Inr show ?thesis by (auto simp: handle_request_def preserves_def)
    qed
    with preservesD [OF build [OF dec] y] R(2) show "R w w'" by (auto dest: transpD)
  qed
  with emit(3) show ?thesis by (simp add: handle_message_def split: option.splits)
qed

text \<open>
  What is written between two worlds is part of the reference, and so is what may have been written
  by a put that failed.
\<close>

definition in_reference :: "exn + (string \<times> bytes) list \<Rightarrow> (string \<times> bytes) list \<Rightarrow> bool" where
  "in_reference ref xs \<longleftrightarrow> (\<forall>x \<in> set xs. \<exists>objs. ref = Inr objs \<and> x \<in> set objs)"

lemma in_reference_append [simp]: "in_reference ref []" "in_reference ref (xs @ ys) \<longleftrightarrow> in_reference ref xs \<and> in_reference ref ys"
  by (auto simp: in_reference_def)

definition writes_from :: "string \<Rightarrow> exn + (string \<times> bytes) list \<Rightarrow> world \<Rightarrow> world \<Rightarrow> bool" where
  "writes_from bucket ref w w' \<longleftrightarrow>
     (\<exists>new maybe. bucket_writes bucket w' = bucket_writes bucket w @ new \<and>
        possible_writes bucket w' = possible_writes bucket w @ maybe \<and> in_reference ref (new @ maybe))"

lemma writes_from_puts_nothing: "adds no_put w w' \<Longrightarrow> writes_from bucket ref w w'"
  using adds_no_put by (simp add: writes_from_def)

lemma writes_from_refl [simp]: "writes_from bucket ref w w"
  by (simp add: writes_from_def)

lemma writes_from_trans: "writes_from bucket ref w w1 \<Longrightarrow> writes_from bucket ref w1 w' \<Longrightarrow> writes_from bucket ref w w'"
  unfolding writes_from_def by force

abbreviation reference_run :: "libs \<Rightarrow> fs \<Rightarrow> template_bundle \<Rightarrow> generation_request \<Rightarrow> exn + (string \<times> bytes) list" where
  "reference_run L d tpl req \<equiv>
     reference_objects (rendered_document L d tpl req) req (bun_manifest tpl) (requested_formats req)"

lemma build_result_reference:
  assumes w: "in_order E pd L cfg (req_template_uri req) tpl content L0 d0 w"
    and run: "build_result (build_deps E pd js L sha cfg dlq maxd delay clock) req w = (x, w')"
  shows "in_order E pd L cfg (req_template_uri req) tpl content L0 d0 w' \<and>
    writes_from (set_output_bucket cfg) (reference_run L0 d0 tpl req) w w'"
proof -
  obtain y w1 where p: "process_request (live_ports E pd js L sha cfg) req (clock (trace w)) w = (y, w1)"
    by (cases "process_request (live_ports E pd js L sha cfg) req (clock (trace w)) w")
  have "w1 = w'" using run p
    by (auto simp: build_result_def build_deps_def io_simps split: sum.splits if_splits)
  with settled.process_request_reference(1) [OF w p refl] settled_possible.process_request_reference(1) [OF w p refl]
  show ?thesis by (fastforce simp: writes_from_def in_reference_def dest: in_set_takeD)
qed

lemma handle_message_reference:
  fixes E pd js L sha cfg dlq maxd delay clock
  defines "D \<equiv> build_deps E pd js L sha cfg dlq maxd delay clock"
  assumes w: "in_order E pd L cfg (req_template_uri req) tpl content L0 d0 w"
    and dec: "decode pd (msg_data m) = Some req" and run: "handle_message E pd D m w = (x, w')"
  shows "in_order E pd L cfg (req_template_uri req) tpl content L0 d0 w' \<and>
    writes_from (set_output_bucket cfg) (reference_run L0 d0 tpl req) w w'"
proof -
  let ?ok = "in_order E pd L cfg (req_template_uri req) tpl content L0 d0"
  let ?R = "\<lambda>w w'. ?ok w \<longrightarrow> ?ok w'"
  have rel: "relies E (set_cache_dir cfg) (bun_root tpl) content" by (rule in_order_relies [OF w])
  have run': "handle_request E D m req w = (x, w')" using run dec by (simp add: handle_message_def)
  have nack: "preserves (adds no_put) (msg_ack E)" by (rule live_delivery.msg_ack_adds) (simp add: no_put_def)
  obtain y w1 where b: "build_result D req w = (y, w1)" and late: "adds no_put w1 w'"
    using live_delivery.handle_request_adds [of no_put, OF _ _ nack _ _ _ run' [unfolded D_def]]
    unfolding D_def by (auto simp: no_put_def)
  have "writes_from (set_output_bucket cfg) (reference_run L0 d0 tpl req) w w'"
    using build_result_reference [OF w b [unfolded D_def]] writes_from_puts_nothing [OF late]
    by (blast intro: writes_from_trans)
  moreover have "preserves ?R (handle_message E pd D m)"
  proof (rule preserves_handle_message)
    show "reflp ?R" "transp ?R" by (auto simp: reflp_def transp_def)
    show "preserves ?R (build_result D req')" if "decode pd (msg_data m) = Some req'" for req'
      using that dec build_result_reference unfolding D_def by (auto simp: preserves_def)
    show await: "preserves ?R (await E a ev)" for a :: "event list \<Rightarrow> exn + unit" and ev
      using keeps_template_await [OF rel, of a ev] keeps_in_order(1) unfolding preserves_def by blast
    then show "preserves ?R (dep_publish_result D s r)" "preserves ?R (dep_publish_dlq D p h)" for s r p h
      by (simp_all add: D_def build_deps_def publish_result_def publish_dlq_def js_publish_def)
    show "preserves ?R (emit_event e)" for e
      using keeps_template_emit_event keeps_in_order(1) unfolding preserves_def by blast
  qed
  ultimately show ?thesis using run w unfolding preserves_def by blast
qed

lemma redeliver_reference:
  "in_order E pd L cfg (req_template_uri req) tpl content L0 d0 w \<Longrightarrow> decode pd data = Some req \<Longrightarrow>
   redeliver E pd (build_deps E pd js L sha cfg dlq maxd delay clock) data fuel k w = (res, w') \<Longrightarrow>
   writes_from (set_output_bucket cfg) (reference_run L0 d0 tpl req) w w'"
proof (induction fuel arbitrary: k w)
  case (Suc fuel)
  let ?D = "build_deps E pd js L sha cfg dlq maxd delay clock"
  obtain x w1 where h: "handle_message E pd ?D (delivered data k) w = (x, w1)"
    by (cases "handle_message E pd ?D (delivered data k) w")
  have dec: "decode pd (msg_data (delivered data k)) = Some req" using Suc.prems(2) by (simp add: delivered_def)
  note r = handle_message_reference [OF Suc.prems(1) dec h]
  show ?case
  proof (cases "EvAck True \<in> set (new_events w w1)")
    case True
    then show ?thesis using r h Suc.prems(3) by simp
  next
    case False
    then have "redeliver E pd ?D data fuel (k + 1) w1 = (res, w')" using h Suc.prems(3) by simp
    then show ?thesis using Suc.IH [of w1 "k + 1"] r Suc.prems(2) writes_from_trans by blast
  qed
qed simp

end
