(* ===== verification/SharingClaims.thy ===== *)
theory SharingClaims
  imports Examples Reproducible
begin

text \<open>
  The properties of several workers at once: fetches that share a cache, what a fetch guarantees to
  the others, and the reproducibility of artifacts across workers and deliveries.
\<close>

section \<open>Fetches that share a cache\<close>

text \<open>
  C6. While the bucket answers, a fetch brings the template whatever the other workers on its cache
  do. They may be any number and may fetch, once or repeatedly, the same template or templates whose
  directories neither contain this one's nor lie in it, whenever this fetch waits for the bucket or is
  between its look at the template's directory and the rename, each of their fetches in one piece (the
  single steps of two interleaved fetches are the next property). Then the fetch ends with the bundle,
  whoever published the directory first, and the directory holds exactly the objects below the prefix.
  The bucket is assumed to serve one regular template throughout, the scratch names to differ, and the
  template's directory to be absent or complete at the start. Nested templates are excluded for a
  reason: publishing the inner one makes the outer directory appear incomplete, and then the outer
  template can no longer be fetched, as \<open>TemplateClaims\<close> shows.
\<close>

theorem concurrent_fetches_bring_the_template:
  assumes "\<forall>tr d. env_others E tr d = fetches pd S (crew tr) d"
    and "\<forall>tr. \<forall>f \<in> set (crew tr). colleague E S dir (mirror_node pre obj (concat pages)) f"
    and "\<forall>tr. scratch_for (ts_cache_dir S) dir (ts_cache_dir S @ [env_tmp_name E tr])"
    and "serves E (ts_bucket S) pre pages obj"
    and "regular_layout pre (concat pages)" "pre @ ''manifest.json'' \<in> set (concat pages)"
    and "parse_s3_uri uri = Inr (ts_bucket S, pre)" "pre \<noteq> []" "local_dir_for S pre = Inr dir"
    and "model_validate_json pd ''Manifest'' (decode_manifest pd) (obj (pre @ ''manifest.json'')) = Inr m"
    and "cache_ok dir (mirror_node pre obj (concat pages)) (disk w)" "fresh_names E (ts_cache_dir S) (disk w)"
  shows "\<exists>w'. fetch E pd S uri w = (Inr \<lparr>bun_manifest = m, bun_root = dir\<rparr>, w') \<and>
    (\<forall>p. p \<noteq> [] \<longrightarrow> node_at (disk w') (dir @ p) = mirror_node pre obj (concat pages) p)"
proof -
  let ?content = "mirror_node pre obj (concat pages)"
  obtain r w' where run: "fetch E pd S uri w = (r, w')" by (cases "fetch E pd S uri w")
  have rel: "relies E (ts_cache_dir S) dir ?content" by (rule fetches_relied_on) (use assms(1-3) in auto)
  have "holds_template E (ts_bucket S) pre pages obj"
    using serves_holds [OF assms(4,5)] assms(6) by (simp add: manifest_name_def)
  note f = fetch_shared [OF rel this refl assms(7-9) assms(10) [folded manifest_name_def] assms(11) run]
  then have "r = Inr \<lparr>bun_manifest = m, bun_root = dir\<rparr>" using assms(4,12) by blast
  moreover from this f have "complete ?content dir (disk w')" by blast
  ultimately show ?thesis using run by (auto simp: complete_def)
qed

definition ex_colleague :: env where
  "ex_colleague = ex_env\<lparr>env_tmp_name := (\<lambda>_. ''tmp1'')\<rparr>"

definition ex_crew :: "(env \<times> string) list" where
  "ex_crew = [(ex_colleague, ''s3://tpl/inv/''), (ex_colleague, ''s3://tpl/other/'')]"

definition ex_env_shared :: env where
  "ex_env_shared = ex_env\<lparr>env_others := (\<lambda>_. fetches ex_pd ex_store ex_crew)\<rparr>"

lemma ex_addresses:
  "parse_s3_uri ''s3://tpl/inv/'' = Inr (ts_bucket ex_store, ''inv/'')"
  "local_dir_for ex_store ''inv/'' = Inr [''tmp'', ''c'', ''inv'']"
  "parse_s3_uri ''s3://tpl/other/'' = Inr (ts_bucket ex_store, ''other/'')"
  "local_dir_for ex_store ''other/'' = Inr [''tmp'', ''c'', ''other'']"
  "regular_layout ''inv/'' (concat ex_pages)" "''inv/'' @ ''manifest.json'' \<in> set (concat ex_pages)"
  "model_validate_json ex_pd ''Manifest'' (decode_manifest ex_pd) (ex_obj (''inv/'' @ ''manifest.json'')) = Inr ex_manifest"
  by code_simp+

lemma ex_side_by_side:
  "side_by_side (ts_cache_dir ex_store) [''tmp'', ''c'', ''tmp0''] [''tmp'', ''c'', ''inv''] [''tmp'', ''c'', ''tmp1''] [''tmp'', ''c'', ''inv'']"
  "side_by_side (ts_cache_dir ex_store) [''tmp'', ''c'', ''tmp0''] [''tmp'', ''c'', ''inv''] [''tmp'', ''c'', ''tmp1''] [''tmp'', ''c'', ''other'']"
  by (simp_all add: side_by_side_def scratch_for_def ex_store_def apart_def strict_prefix_def)

lemma ex_holds: "holds_template ex_colleague (ts_bucket ex_store) ''inv/'' ex_pages ex_obj"
  using ex_addresses(5,6) by (simp add: holds_template_def honest_def ex_colleague_def ex_env_def manifest_name_def)

lemma ex_colleagues:
  assumes "f \<in> set ex_crew"
  shows "colleague ex_env_shared ex_store [''tmp'', ''c'', ''inv''] (mirror_node ''inv/'' ex_obj (concat ex_pages)) f"
proof -
  have q: "quiet ex_colleague" by (simp add: quiet_def ex_colleague_def ex_env_def)
  have names: "env_tmp_name ex_env_shared tr = ''tmp0''" "env_tmp_name ex_colleague tr = ''tmp1''"
    "ts_cache_dir ex_store = [''tmp'', ''c'']" for tr
    by (simp_all add: ex_env_shared_def ex_colleague_def ex_env_def ex_store_def)
  have "colleague ex_env_shared ex_store [''tmp'', ''c'', ''inv''] (mirror_node ''inv/'' ex_obj (concat ex_pages)) (ex_colleague, uri')"
    if "uri' \<in> {''s3://tpl/inv/'', ''s3://tpl/other/''}" for uri'
    using that q ex_addresses(1-4) ex_side_by_side ex_holds by (auto simp: colleague_def names)
  then show ?thesis using assms by (auto simp: ex_crew_def)
qed

lemma concurrent_fetches_bring_the_template_witness:
  "\<exists>w'. fetch ex_env_shared ex_pd ex_store ''s3://tpl/inv/'' ex_world = (Inr ex_bundle, w') \<and>
    node_at (disk w') [''tmp'', ''c'', ''inv'', ''template.html''] = Some (File ''<p>'')"
proof -
  let ?E = ex_env_shared and ?c = "mirror_node ''inv/'' ex_obj (concat ex_pages)" and ?dir = "[''tmp'', ''c'', ''inv'']"
  have 1: "\<forall>tr d. env_others ?E tr d = fetches ex_pd ex_store ((\<lambda>_. ex_crew) tr) d" by (simp add: ex_env_shared_def)
  have 2: "\<forall>tr. \<forall>f \<in> set ((\<lambda>_. ex_crew) tr). colleague ?E ex_store ?dir ?c f" by (auto intro: ex_colleagues)
  have 3: "\<forall>tr. scratch_for (ts_cache_dir ex_store) ?dir (ts_cache_dir ex_store @ [env_tmp_name ?E tr])"
    by (simp add: scratch_for_def ex_store_def ex_env_shared_def ex_env_def strict_prefix_def)
  have 4: "serves ?E (ts_bucket ex_store) ''inv/'' ex_pages ex_obj" by (simp add: serves_def ex_env_shared_def ex_env_def)
  have 5: "cache_ok ?dir ?c (disk ex_world)" "fresh_names ?E (ts_cache_dir ex_store) (disk ex_world)"
    by (auto simp: cache_ok_def fresh_names_def wf_fs_def ex_world_def is_file_def path_exists_def node_at_def ex_store_def)
  obtain w' where
    "fetch ?E ex_pd ex_store ''s3://tpl/inv/'' ex_world = (Inr \<lparr>bun_manifest = ex_manifest, bun_root = ?dir\<rparr>, w')"
    "\<forall>p. p \<noteq> [] \<longrightarrow> node_at (disk w') (?dir @ p) = ?c p"
    using concurrent_fetches_bring_the_template [OF 1 2 3 4 ex_addresses(5,6,1) _ ex_addresses(2,7) 5] by auto
  moreover have "?c [''template.html''] = Some (File ''<p>'')" by code_simp
  ultimately show ?thesis by (auto simp: ex_bundle_def dest: spec [of _ "[''template.html'']"])
qed

text \<open>
  C7. A fetch leaves alone every other fetch on the same cache whose template has the same directory or
  one that neither contains its own nor lies in it, and whose scratch name differs, whatever fails in it
  and whatever else runs: its run is made of steps of its surroundings and of steps of its own, each of
  which leaves the other's scratch directory as it is, adds no more than directories on the way to the
  other's template, and never changes that template's directory unless it makes it appear complete. When
  the directories differ nothing is assumed of the bucket or the cache; when they are the same, that the
  bucket returns what it holds, that the others keep to the same rule and that the cache was in order.
  A nested template is outside the claim: publishing it creates the outer directory incomplete.
\<close>

theorem fetch_disturbs_no_other_fetch:
  assumes "parse_s3_uri uri = Inr (ts_bucket S, pre)" "local_dir_for S pre = Inr dir'"
    and "\<forall>tr. side_by_side (ts_cache_dir S) tmp dir (ts_cache_dir S @ [env_tmp_name E tr]) dir'"
    and "dir = dir' \<longrightarrow> same_template E S pre dir content (disk w)"
    and "fetch E pd S uri w = (r, w')"
  shows "(\<lambda>d d'. undisturbed tmp dir content d d' \<or> (\<exists>tr. d' = env_others E tr d))\<^sup>*\<^sup>* (disk w) (disk w')"
  using harmless_fetch [OF assms(1,2) _ _ assms(5), of tmp dir content] assms(3,4)
  by (simp add: runs_harmless_def harmless_def)

lemma fetch_disturbs_no_other_fetch_witness:
  "undisturbed [''tmp'', ''c'', ''tmp0''] [''tmp'', ''c'', ''inv''] (mirror_node ''inv/'' ex_obj (concat ex_pages)) []
     (disk (snd (fetch ex_colleague ex_pd ex_store ''s3://tpl/inv/'' ex_world)))"
proof -
  let ?c = "mirror_node ''inv/'' ex_obj (concat ex_pages)" and ?dir = "[''tmp'', ''c'', ''inv'']" and ?tmp = "[''tmp'', ''c'', ''tmp0'']"
  have q: "quiet ex_colleague" by (simp add: quiet_def ex_colleague_def ex_env_def)
  have s: "\<forall>tr. side_by_side (ts_cache_dir ex_store) ?tmp ?dir (ts_cache_dir ex_store @ [env_tmp_name ex_colleague tr]) ?dir"
    using ex_side_by_side(1) by (simp add: ex_store_def ex_colleague_def)
  have ok: "cache_ok ?dir ?c (disk ex_world)"
    by (auto simp: cache_ok_def wf_fs_def ex_world_def is_file_def path_exists_def node_at_def)
  have "relies ex_colleague (ts_cache_dir ex_store) ?dir ?c"
    using s q by (auto simp: relies_def considerate_def dest: side_by_sideD(2))
  then have "?dir = ?dir \<longrightarrow> same_template ex_colleague ex_store ''inv/'' ?dir ?c (disk ex_world)"
    using ok ex_holds by (auto simp: same_template_def)
  from fetch_disturbs_no_other_fetch [OF ex_addresses(1,2) s this surjective_pairing]
  have "harmless ex_colleague ?tmp ?dir ?c (disk ex_world) (disk (snd (fetch ex_colleague ex_pd ex_store ''s3://tpl/inv/'' ex_world)))"
    by (simp add: harmless_def)
  then show ?thesis using harmless_undisturbed ok q by (fastforce simp: considerate_def ex_world_def)
qed

section \<open>Reproducible artifacts\<close>

lemma success_objects_described:
  assumes run: "process_request (live_ports E pd js L sha cfg) req g w = (Inr r, w')" "res_status r = SUCCESS"
    and writes: "bucket_writes (set_output_bucket cfg) w' = bucket_writes (set_output_bucket cfg) w @ objs"
  shows "list_all2 (describes (object_uri (set_output_bucket cfg)) sha (opt_presign_ttl (req_options req)))
    (zip (requested_formats req) objs) (res_artifacts r)"
proof -
  obtain b :: template_bundle and cs where
    "bucket_writes (set_output_bucket cfg) w' = bucket_writes (set_output_bucket cfg) w @ planned_writes req (bun_manifest b) cs"
    "list_all2 (describes (object_uri (set_output_bucket cfg)) sha (opt_presign_ttl (req_options req)))
      (zip (requested_formats req) (planned_writes req (bun_manifest b) cs)) (res_artifacts r)"
    using live.success_stores_everything [OF run] by blast
  with writes show ?thesis by simp
qed

lemma described_alike:
  "list_all2 (describes u dg t) xs as \<Longrightarrow> list_all2 (describes u dg t) xs bs \<Longrightarrow>
   map (\<lambda>a. (art_format a, art_uri a, art_size_bytes a, art_sha256 a)) as =
   map (\<lambda>a. (art_format a, art_uri a, art_size_bytes a, art_sha256 a)) bs"
proof (induction xs arbitrary: as bs)
  case (Cons x xs)
  from Cons.prems obtain a as' b bs' where l: "as = a # as'" "bs = b # bs'" and d: "describes u dg t x a" "describes u dg t x b"
    and rest: "list_all2 (describes u dg t) xs as'" "list_all2 (describes u dg t) xs bs'"
    by (auto simp: list_all2_Cons1)
  show ?case using d Cons.IH [OF rest] by (cases x) (simp add: l describes_def)
qed simp

text \<open>
  C3. The bytes of the artifacts are a function of the template and the data. Two workers, each
  with its own surroundings, cache and moment, on libraries that may date and order what they save
  differently, that both finish a request with success have written the same objects under the same
  keys: those that rendering every requested format once, on any disk that holds the template, gives.
  Their results describe the artifacts alike, up to the presigned urls.
\<close>

theorem artifacts_are_reproducible:
  assumes "serves_template E pd L cfg (req_template_uri req) tpl content L0 d0" "cache_ok (bun_root tpl) content (disk w)"
    and "process_request (live_ports E pd js L sha cfg) req g w = (Inr r, w1)" "res_status r = SUCCESS"
    and "serves_template E' pd L' cfg (req_template_uri req) tpl content L0 d0" "cache_ok (bun_root tpl) content (disk w')"
    and "process_request (live_ports E' pd js L' sha cfg) req g' w' = (Inr r', w1')" "res_status r' = SUCCESS"
  shows "\<exists>objs. reference_objects (rendered_document L0 d0 tpl req) req (bun_manifest tpl) (requested_formats req) = Inr objs \<and>
    bucket_writes (set_output_bucket cfg) w1 = bucket_writes (set_output_bucket cfg) w @ objs \<and>
    bucket_writes (set_output_bucket cfg) w1' = bucket_writes (set_output_bucket cfg) w' @ objs \<and>
    map (\<lambda>a. (art_format a, art_uri a, art_size_bytes a, art_sha256 a)) (res_artifacts r) =
      map (\<lambda>a. (art_format a, art_uri a, art_size_bytes a, art_sha256 a)) (res_artifacts r')"
proof -
  have o: "in_order E pd L cfg (req_template_uri req) tpl content L0 d0 w"
    "in_order E' pd L' cfg (req_template_uri req) tpl content L0 d0 w'"
    using assms by (simp_all add: in_order_def)
  obtain objs where objs: "reference_run L0 d0 tpl req = Inr objs"
    "bucket_writes (set_output_bucket cfg) w1 = bucket_writes (set_output_bucket cfg) w @ objs"
    using settled.process_request_reference(2) [OF o(1) assms(3) refl refl assms(4)] by blast
  moreover have w': "bucket_writes (set_output_bucket cfg) w1' = bucket_writes (set_output_bucket cfg) w' @ objs"
    using settled.process_request_reference(2) [OF o(2) assms(7) refl refl assms(8)] objs(1) by auto
  moreover note described_alike [OF success_objects_described [OF assms(3,4) objs(2)] success_objects_described [OF assms(7,8) w']]
  ultimately show ?thesis by blast
qed

definition ex_content :: "path \<Rightarrow> node option" where
  "ex_content = mirror_node ''inv/'' ex_obj (concat ex_pages)"

definition ex_reference_disk :: fs where
  "ex_reference_disk = [([''tmp''], Dir), ([''tmp'', ''c''], Dir), ([''tmp'', ''c'', ''inv''], Dir),
     ([''tmp'', ''c'', ''inv'', ''manifest.json''], File ''{manifest}''),
     ([''tmp'', ''c'', ''inv'', ''template.html''], File ''<p>'')]"

lemma ex_complete: "complete ex_content (bun_root ex_bundle) ex_reference_disk"
proof -
  have parts: "key_parts ''inv/'' ''inv/manifest.json'' = [''manifest.json'']" "key_parts ''inv/'' ''inv/template.html'' = [''template.html'']"
    "file_key ''inv/'' ''inv/manifest.json''" "file_key ''inv/'' ''inv/template.html''" by code_simp+
  have "ex_content p = (if p = [''manifest.json''] then Some (File ''{manifest}'')
      else if p = [''template.html''] then Some (File ''<p>'') else None)" if "p \<noteq> []" for p
    using that parts by (auto simp: ex_content_def mirror_node_def ex_pages_def ex_obj_def strict_prefix_def prefix_Cons)
  then show ?thesis
    by (auto simp: complete_def is_dir_def ex_reference_disk_def ex_bundle_def node_at_def)
qed

text \<open>Two moments of the libraries: the saved documents differ in their dates and in the order of their parts.\<close>

definition ex_libs_at :: "bytes \<Rightarrow> libs" where
  "ex_libs_at saved = ex_libs\<lparr>lib_zip := ex_zip_two,
     lib_docx := \<lparr>dx_render = (\<lambda>_ _ _. Inr ()), dx_save = (\<lambda>_ _ _ _. Inr saved)\<rparr>\<rparr>"

lemma ex_same_libraries: "same_libraries (ex_libs_at ''1'') (ex_libs_at ''2'')" "same_libraries (ex_libs_at ''2'') (ex_libs_at ''2'')"
proof -
  let ?ms1 = "[ex_core ''2024'', \<lparr>zm_name = ''a.xml'', zm_date = [1], zm_data = ''x''\<rparr>]"
  let ?ms2 = "[\<lparr>zm_name = ''a.xml'', zm_date = [2], zm_data = ''x''\<rparr>, ex_core ''2025'']"
  have "zip_read ex_zip_two ''1'' = Inr ?ms1" "zip_read ex_zip_two ''2'' = Inr ?ms2" by (simp_all add: ex_zip_two_def)
  moreover have "regular_core [] [] [] [] []" "list_all (\<lambda>s. CHR ''<'' \<notin> set s) [''2024'', ''2024'', ''2025'', ''2025'']"
    "part ?ms1 core_props = Some (core_xml [] [] ''2024'' [] [] ''2024'' [])"
    "part ?ms2 core_props = Some (core_xml [] [] ''2025'' [] [] ''2025'' [])" by code_simp+
  moreover have "part ?ms1 n = part ?ms2 n" if "n \<noteq> core_props" for n
    using that by (simp add: part_def zip_members_def ex_core_def core_props_def)
  ultimately have "redated ex_zip_two ''1'' ''2''" unfolding redated_def by blast
  then show "same_libraries (ex_libs_at ''1'') (ex_libs_at ''2'')" "same_libraries (ex_libs_at ''2'') (ex_libs_at ''2'')"
    by (auto simp: same_libraries_def same_jinja_def same_docx_def same_xl_def saved_alike_def ex_libs_at_def ex_libs_def
        split: sum.splits)
qed

lemma ex_serves_template:
  assumes "same_libraries L (ex_libs_at ''2'')" and E: "env_list E = env_list ex_env" "env_get E = env_get ex_env" "env_tmp_name E = env_tmp_name ex_env" "quiet E"
  shows "serves_template E ex_pd L ex_settings ''s3://tpl/inv/'' ex_bundle ex_content (ex_libs_at ''2'') ex_reference_disk"
proof -
  have "relies E (set_cache_dir ex_settings) (bun_root ex_bundle) ex_content"
    using E(3,4) by (simp add: relies_def considerate_def scratch_for_def ex_settings_def ex_bundle_def ex_env_def strict_prefix_def)
  moreover have "holds_template E (set_templates_bucket ex_settings) ''inv/'' ex_pages ex_obj"
    using E(1,2) ex_addresses(5,6) by (simp add: holds_template_def honest_def ex_env_def manifest_name_def)
  moreover have "cache_of ex_settings = ex_store" by (simp add: cache_of_def ex_settings_def ex_store_def)
  ultimately show ?thesis
    using assms(1) ex_complete ex_addresses(1,2,7)
    by (auto simp: serves_template_def ex_content_def ex_bundle_def manifest_name_def ex_settings_def ex_store_def
        intro!: exI [of _ "''inv/''"] exI [of _ ex_pages] exI [of _ ex_obj])
qed

lemma ex_cache_ok: "cache_ok (bun_root ex_bundle) ex_content []" "cache_ok (bun_root ex_bundle) ex_content ex_reference_disk"
proof -
  show "cache_ok (bun_root ex_bundle) ex_content []"
    by (simp add: cache_ok_def wf_fs_def is_file_def path_exists_def node_at_def ex_bundle_def)
  have "wf_fs ex_reference_disk" by code_simp
  moreover have "\<not> is_file ex_reference_disk p" if "strict_prefix p [''tmp'', ''c'', ''inv'']" for p
    using that by (auto simp: is_file_def ex_reference_disk_def node_at_def strict_prefix_def prefix_Cons)
  ultimately show "cache_ok (bun_root ex_bundle) ex_content ex_reference_disk"
    using ex_complete by (simp add: cache_ok_def ex_bundle_def)
qed

definition ex_run :: "env \<Rightarrow> libs \<Rightarrow> fs \<Rightarrow> (exn + generation_result) \<times> world" where
  "ex_run E L d = process_request (live_ports E ex_pd ex_js L (\<lambda>_. ''0a'') ex_settings) ex_request ''2024-01-01'' \<lparr>trace = [], disk = d\<rparr>"

lemma ex_runs:
  "fst (ex_run ex_env (ex_libs_at ''1'') []) = Inr ex_result"
  "fst (ex_run ex_env_unsigned (ex_libs_at ''2'') ex_reference_disk) = Inr ex_result"
  by code_simp+

lemma artifacts_are_reproducible_witness:
  "bucket_writes ''out'' (snd (ex_run ex_env (ex_libs_at ''1'') [])) =
   bucket_writes ''out'' (snd (ex_run ex_env_unsigned (ex_libs_at ''2'') ex_reference_disk))"
proof -
  let ?E' = ex_env_unsigned
  have uri: "req_template_uri ex_request = ''s3://tpl/inv/''" "res_status ex_result = SUCCESS" by code_simp+
  have s: "serves_template ex_env ex_pd (ex_libs_at ''1'') ex_settings (req_template_uri ex_request) ex_bundle ex_content (ex_libs_at ''2'') ex_reference_disk"
    "serves_template ?E' ex_pd (ex_libs_at ''2'') ex_settings (req_template_uri ex_request) ex_bundle ex_content (ex_libs_at ''2'') ex_reference_disk"
    using ex_serves_template ex_same_libraries unfolding uri by (simp_all add: quiet_def ex_env_unsigned_def ex_env_def)
  have r: "process_request (live_ports ex_env ex_pd ex_js (ex_libs_at ''1'') (\<lambda>_. ''0a'') ex_settings) ex_request ''2024-01-01'' \<lparr>trace = [], disk = []\<rparr> =
      (Inr ex_result, snd (ex_run ex_env (ex_libs_at ''1'') []))"
    "process_request (live_ports ?E' ex_pd ex_js (ex_libs_at ''2'') (\<lambda>_. ''0a'') ex_settings) ex_request ''2024-01-01'' \<lparr>trace = [], disk = ex_reference_disk\<rparr> =
      (Inr ex_result, snd (ex_run ?E' (ex_libs_at ''2'') ex_reference_disk))"
    using ex_runs by (simp_all add: ex_run_def prod_eq_iff)
  from artifacts_are_reproducible [OF s(1) _ r(1) uri(2) s(2) _ r(2) uri(2)] ex_cache_ok show ?thesis
    by (auto simp: ex_settings_def bucket_writes_def)
qed

text \<open>
  Delivering a request again, any number of times and whatever fails in between, is idempotent:
  every object that any of the deliveries writes is one of the objects of the one reference run, under
  its key and with its bytes. A partial earlier attempt is completed or repeated, never contradicted.
\<close>

theorem redelivery_is_idempotent:
  assumes "decode pd data = Some req"
    and "serves_template E pd L cfg (req_template_uri req) tpl content L0 d0" "cache_ok (bun_root tpl) content (disk w)"
    and "redeliver E pd (build_deps E pd js L sha cfg dlq maxd delay clock) data fuel k w = (acked, w')"
  shows "\<exists>new maybe. bucket_writes (set_output_bucket cfg) w' = bucket_writes (set_output_bucket cfg) w @ new \<and>
    possible_writes (set_output_bucket cfg) w' = possible_writes (set_output_bucket cfg) w @ maybe \<and>
    (\<forall>x \<in> set (new @ maybe). \<exists>objs.
      reference_objects (rendered_document L0 d0 tpl req) req (bun_manifest tpl) (requested_formats req) = Inr objs \<and>
      x \<in> set objs)"
proof -
  have "in_order E pd L cfg (req_template_uri req) tpl content L0 d0 w" using assms(2,3) by (simp add: in_order_def)
  from redeliver_reference [OF this assms(1,4)] show ?thesis by (simp add: writes_from_def in_reference_def)
qed

lemma ex_reference:
  "reference_objects (rendered_document (ex_libs_at ''2'') ex_reference_disk ex_bundle ex_request) ex_request (bun_manifest ex_bundle)
     (requested_formats ex_request) = Inr [(''t1/2024/invoice.pdf'', ''%PDF''), (''t1/2024/invoice.html'', ''<p>'')]"
  by code_simp

lemma redelivery_is_idempotent_witness:
  "set (bucket_writes ''out'' (snd (redeliver ex_env_full ex_pd
     (build_deps ex_env_full ex_pd ex_js (ex_libs_at ''1'') (\<lambda>_. ''0a'') ex_settings ''docgen.dlq'' 4 30 (\<lambda>_. ''2024-01-01''))
     ''{request}'' 5 1 ex_world))) \<subseteq> {(''t1/2024/invoice.pdf'', ''%PDF''), (''t1/2024/invoice.html'', ''<p>'')}"
proof -
  have uri: "req_template_uri ex_request = ''s3://tpl/inv/''" by code_simp
  have s: "serves_template ex_env_full ex_pd (ex_libs_at ''1'') ex_settings (req_template_uri ex_request) ex_bundle ex_content (ex_libs_at ''2'') ex_reference_disk"
    unfolding uri by (rule ex_serves_template [OF ex_same_libraries(1)]) (simp_all add: quiet_def ex_env_full_def ex_env_def)
  have "cache_ok (bun_root ex_bundle) ex_content (disk ex_world)" using ex_cache_ok(1) by (simp add: ex_world_def)
  from redelivery_is_idempotent [OF ex_decode s this surjective_pairing] show ?thesis
    unfolding ex_reference by (fastforce simp: bucket_writes_def ex_world_def ex_settings_def)
qed

end
