(* ===== verification/Interruptions.thy ===== *)
theory Interruptions
  imports Reproducible
begin

text \<open>
  Deliveries that are cut short: the shutdown of \<open>main\<close> cancels the tasks that are still running, and
  a container is killed at any moment. The broker delivers the message again, to any worker, with
  the next count and up to the bound of the consumer. What such a history of deliveries leaves in the
  bucket, and when it ends with an acknowledgement.
\<close>

section \<open>A history of deliveries\<close>

text \<open>The settings that all workers of a deployment share.\<close>

record deployment =
  dp_pydantic :: pydantic
  dp_jsonschema :: jsonschema
  dp_sha256 :: "bytes \<Rightarrow> string"
  dp_settings :: settings
  dp_dlq_subject :: string
  dp_max_deliver :: int
  dp_nak_delay :: int
  dp_clock :: "event list \<Rightarrow> string"

text \<open>
  A delivery to one worker: its surroundings and libraries, the world it starts in, and, when the
  worker is killed, the number of calls it had made by then.
\<close>

record attempt =
  at_env :: env
  at_libs :: libs
  at_world :: world
  at_killed :: "nat option"

definition attempt_deps :: "deployment \<Rightarrow> attempt \<Rightarrow> renderer handler_deps" where
  "attempt_deps dp a =
     build_deps (at_env a) (dp_pydantic dp) (dp_jsonschema dp) (at_libs a) (dp_sha256 dp) (dp_settings dp)
       (dp_dlq_subject dp) (dp_max_deliver dp) (dp_nak_delay dp) (dp_clock dp)"

definition attempt_run :: "deployment \<Rightarrow> bytes \<Rightarrow> int \<Rightarrow> attempt \<Rightarrow> (exn + unit) \<times> world" where
  "attempt_run dp data k a =
     handle_message (at_env a) (dp_pydantic dp) (attempt_deps dp a) (delivered data k) (at_world a)"

definition attempt_calls :: "deployment \<Rightarrow> bytes \<Rightarrow> int \<Rightarrow> attempt \<Rightarrow> event list" where
  "attempt_calls dp data k a =
     (let evs = new_events (at_world a) (snd (attempt_run dp data k a))
      in case at_killed a of None \<Rightarrow> evs | Some n \<Rightarrow> take n evs)"

text \<open>The handler of this delivery returns: its worker was not killed, its task not cancelled.\<close>

definition uninterrupted :: "deployment \<Rightarrow> bytes \<Rightarrow> int \<Rightarrow> attempt \<Rightarrow> bool" where
  "uninterrupted dp data k a \<longleftrightarrow> at_killed a = None \<and> is_ok (fst (attempt_run dp data k a))"

text \<open>
  The broker delivers until an acknowledgement reaches it or its bound, the length of the list, is
  reached: the count of the acknowledged delivery, and all calls made.
\<close>

fun deliver_again :: "deployment \<Rightarrow> bytes \<Rightarrow> int \<Rightarrow> attempt list \<Rightarrow> int option \<times> event list" where
  "deliver_again dp data k [] = (None, [])"
| "deliver_again dp data k (a # as) =
     (let evs = attempt_calls dp data k a
      in if EvAck True \<in> set evs then (Some k, evs)
         else let (acked, rest) = deliver_again dp data (k + 1) as in (acked, evs @ rest))"

text \<open>A worker that nothing interrupts, delivered to again and again, is the special case of \<open>redeliver\<close>.\<close>

fun same_worker :: "deployment \<Rightarrow> bytes \<Rightarrow> env \<Rightarrow> libs \<Rightarrow> nat \<Rightarrow> int \<Rightarrow> world \<Rightarrow> attempt list" where
  "same_worker dp data E L 0 k w = []"
| "same_worker dp data E L (Suc fuel) k w =
     (let a = \<lparr>at_env = E, at_libs = L, at_world = w, at_killed = None\<rparr>
      in a # same_worker dp data E L fuel (k + 1) (snd (attempt_run dp data k a)))"

lemma redeliver_is_deliver_again:
  "fst (redeliver E (dp_pydantic dp) (attempt_deps dp \<lparr>at_env = E, at_libs = L, at_world = w0, at_killed = None\<rparr>) data fuel k w) =
   fst (deliver_again dp data k (same_worker dp data E L fuel k w))"
  by (induction fuel arbitrary: k w)
    (auto simp: Let_def attempt_calls_def attempt_run_def attempt_deps_def split: prod.splits)

section \<open>A cancelled delivery settles nothing\<close>

lemma handles_cut:
  assumes "handles P Q Q' delay terminal final evs False" "\<And>b. is_publish (P b)" "\<And>b. is_publish (Q b)" "\<And>b. is_publish (Q' b)"
  shows "EvAck True \<notin> set evs" "EvNak d True \<notin> set evs"
proof -
  have ne: "EvAck c \<noteq> P b" "EvAck c \<noteq> Q b" "EvAck c \<noteq> Q' b" "EvNak d c \<noteq> P b" "EvNak d c \<noteq> Q b" "EvNak d c \<noteq> Q' b" for b c
    using assms(2-4) [of b] by (auto simp: is_publish_def split: event.splits)
  show "EvAck True \<notin> set evs" "EvNak d True \<notin> set evs"
    using assms(1) by (cases rule: handles.cases; elim emitsE; (elim recoversE)?; use ne in auto)+
qed

context delivery
begin

lemma cancelled_request_unsettled:
  assumes run: "handle_request E D m req w = (Inl e, w')"
  shows "EvAck True \<notin> set (new_events w w')" "EvNak d True \<notin> set (new_events w w')"
proof -
  note new = new_broker_events [OF _ handle_request_extends [OF run]]
  have "EvAck True \<notin> set (filter is_broker (new_events w w')) \<and> EvNak d True \<notin> set (filter is_broker (new_events w w'))"
    using run
  proof (cases rule: handle_request_spec)
    case (unbuilt e' w1)
    then show ?thesis using new [of "[]"] by simp
  next
    case (built r w1 evs)
    then show ?thesis using new [OF built(2)] handles_cut [of _ _ _ _ _ _ evs] by simp
  qed
  then show "EvAck True \<notin> set (new_events w w')" "EvNak d True \<notin> set (new_events w w')" by auto
qed

lemma cancelled_drop_unsettled:
  assumes run: "drop_undecodable E D m w = (Inl e, w')"
  shows "EvAck True \<notin> set (new_events w w')" "EvNak d True \<notin> set (new_events w w')"
proof -
  obtain y w1 where pub: "dep_publish_dlq D (msg_data m) [(HEADER_DLQ_REASON, ''decode'')] w = (y, w1)"
    by (cases "dep_publish_dlq D (msg_data m) [(HEADER_DLQ_REASON, ''decode'')] w")
  have t1: "trace w1 = trace w @ [EvPublish dlq (msg_data m) [(HEADER_DLQ_REASON, ''decode'')] (is_ok y)]"
    by (rule pub_dlq_trace [OF pub])
  obtain z w2 where ack: "msg_ack E w1 = (z, w2)" by (cases "msg_ack E w1")
  have "w' = w1 \<or> (w' = w2 \<and> \<not> is_ok z)"
    using run pub ack by (cases y; cases z) (auto simp: drop_undecodable_def io_simps split: if_splits)
  then show "EvAck True \<notin> set (new_events w w')" "EvNak d True \<notin> set (new_events w w')"
    using t1 msg_ack_trace [OF ack] by (auto simp: new_events_def)
qed

lemma cancelled_unsettled:
  assumes "handle_message E pd D m w = (Inl e, w')"
  shows "EvAck True \<notin> set (new_events w w') \<and> EvNak d True \<notin> set (new_events w w')"
  using assms cancelled_request_unsettled cancelled_drop_unsettled
  by (auto simp: handle_message_def split: option.splits)

end

section \<open>At every instant the objects come first\<close>

text \<open>A call of the broker in an initial part of a delivery's calls comes after the whole pipeline.\<close>

lemma prefix_after:
  assumes "prefix evs (xs @ ys)" "\<exists>ev \<in> set evs. P ev" "list_all (\<lambda>ev. \<not> P ev) xs"
  shows "\<exists>zs. evs = xs @ zs \<and> prefix zs ys"
proof -
  have "\<not> prefix evs xs"
  proof
    assume "prefix evs xs"
    then have "set evs \<subseteq> set xs" by (auto simp: prefix_def)
    with assms(2,3) show False by (auto simp: list_all_iff)
  qed
  with assms(1) show ?thesis by (auto simp: prefix_append)
qed

lemma written_no_put: "list_all no_put evs \<Longrightarrow> concat (map (written b) evs) = []"
  by (induction evs) (auto simp: no_put_def written_def split: event.splits bool.splits)

lemma adds_new_events: "adds Q w w' \<Longrightarrow> trace w' = trace w @ new_events w w' \<and> list_all Q (new_events w w')"
  by (auto simp: adds_def new_events_def)

lemma handles_one_ack:
  assumes "handles P Q Q' delay terminal final evs fin" "evs = before @ [EvAck True]"
    "\<And>b. is_publish (P b)" "\<And>b. is_publish (Q b)" "\<And>b. is_publish (Q' b)"
  shows "EvAck True \<notin> set before"
proof -
  have ne: "EvAck c \<noteq> P b" "EvAck c \<noteq> Q b" "EvAck c \<noteq> Q' b" for b c
    using assms(3-5) [of b] by (auto simp: is_publish_def split: event.splits)
  show ?thesis
    using assms(1) by (cases rule: handles.cases; elim emitsE; (elim recoversE)?; use ne assms(2) in \<open>auto simp: Cons_eq_append_conv\<close>)
qed

context delivery
begin

lemma instant_writes:
  assumes build: "build_result D req w = (Inr r, w1)" and run: "handle_request E D m req w = (x, w')"
    and evs: "prefix evs (new_events w w')" and call: "\<exists>ev \<in> set evs. is_broker ev"
  shows "concat (map (written b) evs) = concat (map (written b) (new_events w w1))"
proof -
  have ack: "preserves (adds no_put) (msg_ack E)" by (rule msg_ack_adds) (simp add: no_put_def)
  obtain late: "adds no_put w1 w'"
    using handle_request_adds [of no_put, OF _ _ ack _ _ _ run] build by (auto simp: no_put_def)
  note t0 = adds_new_events [OF build_result_adds [OF build]] and t1 = adds_new_events [OF late]
  have "new_events w w' = new_events w w1 @ new_events w1 w'"
    using t0 t1 by (metis append_assoc append_eq_conv_conj new_events_def)
  then obtain zs where zs: "evs = new_events w w1 @ zs" "prefix zs (new_events w1 w')"
    using prefix_after [of evs "new_events w w1" "new_events w1 w'" is_broker] evs call t0 by auto
  have "list_all no_put zs" using zs(2) t1 by (auto simp: prefix_def)
  then show ?thesis using zs(1) written_no_put by simp
qed

lemma instant_report:
  assumes build: "build_result D req w = (Inr r, w1)" and run: "handle_request E D m req w = (x, w')"
    and evs: "prefix evs (new_events w w')" and ack: "EvAck True \<in> set evs"
  shows "result_publish wire req r True \<in> set evs \<or> is_final D m \<and> result_publish wire req r False \<in> set evs \<and>
    (\<exists>ok. failure_publish dlq m req ok \<in> set evs)"
  using run
proof (cases rule: handle_request_spec)
  case (built r' w1' bs)
  have r: "r' = r" using built(1) build by simp
  have new: "filter is_broker (new_events w w') = bs"
    by (rule new_broker_events [OF built(2) handle_request_extends [OF run]])
  obtain rest where rest: "new_events w w' = evs @ rest" using evs by (auto simp: prefix_def)
  have "EvAck True \<in> set bs" using ack new rest by auto
  then obtain before where before: "bs = before @ [EvAck True]"
      "result_publish wire req r True \<in> set before \<or>
       is_final D m \<and> (\<exists>ok. before = [result_publish wire req r False, failure_publish dlq m req ok])"
    using handles_ack_reports [OF built(3)] r by auto
  have "EvAck True \<in> set (filter is_broker evs)" using ack by simp
  then obtain as bs' where split: "filter is_broker evs = as @ EvAck True # bs'" by (metis split_list)
  have bs: "before @ [EvAck True] = as @ EvAck True # (bs' @ filter is_broker rest)" using new rest split before(1) by simp
  from bs have "before = as \<or> (\<exists>us. before = as @ EvAck True # us)"
    by (auto simp: append_eq_append_conv2 append_eq_Cons_conv Cons_eq_append_conv)
  moreover have "EvAck True \<notin> set before" by (rule handles_one_ack [OF built(3) before(1)]) simp_all
  ultimately have "set before \<subseteq> set (filter is_broker evs)" using split by auto
  then show ?thesis using before(2) by auto
qed (use build in simp)

end

section \<open>The history as a whole\<close>

lemma uninterrupted_final_acks:
  assumes dec: "decode (dp_pydantic dp) data = Some req" and ack: "\<And>tr. env_ack (at_env a) tr = Inr ()"
    and un: "uninterrupted dp data k a" and final: "dp_max_deliver dp \<le> k"
  shows "EvAck True \<in> set (attempt_calls dp data k a)"
proof -
  obtain w' where run: "attempt_run dp data k a = (Inr (), w')"
    using un by (cases "attempt_run dp data k a") (auto simp: uninterrupted_def is_ok_def split: sum.splits)
  then have "handle_request (at_env a) (attempt_deps dp a) (delivered data k) req (at_world a) = (Inr (), w')"
    using dec by (simp add: attempt_run_def handle_message_def delivered_def)
  moreover have "is_final (attempt_deps dp a) (delivered data k)"
    using final by (simp add: is_final_def attempt_deps_def build_deps_def num_delivered_def delivered_def)
  ultimately have "EvAck True \<in> set (new_events (at_world a) w')"
    using live_delivery.final_delivery_acks [OF ack] unfolding attempt_deps_def by blast
  then show ?thesis using run un by (simp add: attempt_calls_def uninterrupted_def)
qed

lemma deliver_again_acked:
  assumes "i < length as" "EvAck True \<in> set (attempt_calls dp data (k + int i) (as ! i))"
  shows "\<exists>j evs. deliver_again dp data k as = (Some j, evs) \<and> k \<le> j \<and> j \<le> k + int i"
  using assms
proof (induction as arbitrary: k i)
  case (Cons a as)
  show ?case
  proof (cases "EvAck True \<in> set (attempt_calls dp data k a)")
    case False
    with Cons.prems obtain i' where i: "i = Suc i'" by (cases i) auto
    obtain j evs where "deliver_again dp data (k + 1) as = (Some j, evs)" "k + 1 \<le> j" "j \<le> k + 1 + int i'"
      using Cons.IH [of i' "k + 1"] Cons.prems i by (auto simp: add_ac)
    with False i show ?thesis by (auto simp: Let_def)
  qed (use Cons.prems in \<open>auto simp: Let_def\<close>)
qed simp

text \<open>The acknowledged delivery is one of the history, and so are all calls.\<close>

lemma deliver_again_calls:
  "ev \<in> set (snd (deliver_again dp data k as)) \<Longrightarrow> \<exists>i < length as. ev \<in> set (attempt_calls dp data (k + int i) (as ! i))"
proof (induction as arbitrary: k)
  case (Cons a as)
  show ?case
  proof (cases "ev \<in> set (attempt_calls dp data k a)")
    case True
    then show ?thesis by (intro exI [of _ 0]) simp
  next
    case False
    then have "ev \<in> set (snd (deliver_again dp data (k + 1) as))"
      using Cons.prems by (auto simp: Let_def split: if_splits prod.splits)
    then obtain i where "i < length as" "ev \<in> set (attempt_calls dp data (k + 1 + int i) (as ! i))"
      using Cons.IH by blast
    then show ?thesis by (intro exI [of _ "Suc i"]) (simp add: add_ac)
  qed
qed simp

lemma attempt_prefix: "prefix (attempt_calls dp data k a) (new_events (at_world a) (snd (attempt_run dp data k a)))"
  by (auto simp: attempt_calls_def Let_def take_is_prefix split: option.splits)

text \<open>Whatever an attempt may have written is part of the reference.\<close>

lemma attempt_in_reference:
  assumes dec: "decode (dp_pydantic dp) data = Some req"
    and tpl: "in_order (at_env a) (dp_pydantic dp) (at_libs a) (dp_settings dp) (req_template_uri req) tpl content L0 d0 (at_world a)"
  shows "in_reference (reference_run L0 d0 tpl req)
    (concat (map (tried (set_output_bucket (dp_settings dp))) (attempt_calls dp data k a)))"
proof -
  let ?b = "set_output_bucket (dp_settings dp)"
  obtain x w' where run: "attempt_run dp data k a = (x, w')" by (cases "attempt_run dp data k a")
  have dec': "decode (dp_pydantic dp) (msg_data (delivered data k)) = Some req" using dec by (simp add: delivered_def)
  have "writes_from ?b (reference_run L0 d0 tpl req) (at_world a) w'"
    using handle_message_reference [OF tpl dec' run [unfolded attempt_run_def attempt_deps_def]] by blast
  then obtain maybe where maybe: "possible_writes ?b w' = possible_writes ?b (at_world a) @ maybe"
      "in_reference (reference_run L0 d0 tpl req) maybe" by (auto simp: writes_from_def)
  have "adds (\<lambda>_. True) (at_world a) w'"
    using live_delivery.handle_request_extends run dec
    by (fastforce simp: attempt_run_def attempt_deps_def handle_message_def delivered_def)
  then have "maybe = concat (map (tried ?b) (new_events (at_world a) w'))"
    using maybe(1) by (auto simp: possible_writes_def adds_def new_events_def)
  moreover have "set (attempt_calls dp data k a) \<subseteq> set (new_events (at_world a) w')"
    using attempt_prefix [of dp data k a] run by (auto simp: prefix_def)
  ultimately show ?thesis using maybe(2) by (auto simp: in_reference_def)
qed

end
