(* ===== verification/InterruptionClaims.thy ===== *)
theory InterruptionClaims
  imports SharingClaims Interruptions
begin

text \<open>
  The properties of deliveries that are cancelled, killed and repeated: what the bucket holds at
  every instant and at the end, and when the message is acknowledged.
\<close>

section \<open>At every instant\<close>

text \<open>
  C5. At every instant of a delivery, wherever it is killed: once a request whose result is a success
  has made any call of the broker, all its objects are in the bucket, in the order of the request,
  under their keys and with the rendered bytes; and once the broker has taken the acknowledgement,
  it has taken the result as well, or this is the last delivery, the publish of the result has
  failed and the request has been offered to the dead-letter subject, which may have failed too:
  what an acknowledgement guarantees is that the objects are there and that both reports were tried.
\<close>

theorem objects_come_before_every_report:
  fixes E pd js L sha cfg dlq maxd delay clock
  defines "D \<equiv> build_deps E pd js L sha cfg dlq maxd delay clock"
  assumes "decode pd (msg_data m) = Some req"
    and "build_result D req w = (Inr r, w1)" "res_status r = SUCCESS"
    and "handle_message E pd D m w = (x, w')"
    and "prefix evs (new_events w w')" "\<exists>ev \<in> set evs. is_broker ev"
  shows "\<exists>b cs. fst (fetch E pd (cache_of cfg) (req_template_uri req) w) = Inr b \<and>
    list_all2 (\<lambda>fmt c. \<exists>d. rendered_document L d b req fmt = Inr c) (requested_formats req) cs \<and>
    concat (map (written (set_output_bucket cfg)) evs) = planned_writes req (bun_manifest b) cs \<and>
    (EvAck True \<in> set evs \<longrightarrow> result_publish (to_json_bytes pd) req r True \<in> set evs \<or>
      maxd \<le> num_delivered m \<and> result_publish (to_json_bytes pd) req r False \<in> set evs \<and>
      (\<exists>ok. failure_publish dlq m req ok \<in> set evs))"
proof -
  have run: "handle_request E D m req w = (x, w')" using assms(2,5) by (simp add: handle_message_def)
  note p = build_result_success [OF assms(3)[unfolded D_def] assms(4)]
  from live.success_stores_everything [OF p assms(4)] obtain b wf cs where
    f: "p_fetch (live_ports E pd js L sha cfg) (req_template_uri req) w = (Inr b, wf)"
    and made: "list_all2 (produced (live_ports E pd js L sha cfg) b req) (requested_formats req) cs"
    and stored: "bucket_writes (set_output_bucket cfg) w1 = bucket_writes (set_output_bucket cfg) w @ planned_writes req (bun_manifest b) cs"
    by blast
  have "fst (fetch E pd (cache_of cfg) (req_template_uri req) w) = Inr b" using f by (simp add: live_ports_def cache_of_def)
  moreover have "list_all2 (\<lambda>fmt c. \<exists>d. rendered_document L d b req fmt = Inr c) (requested_formats req) cs"
    by (rule list_all2_mono [OF made live_produces])
  moreover have "concat (map (written (set_output_bucket cfg)) (new_events w w1)) = planned_writes req (bun_manifest b) cs"
    using stored live_delivery.build_result_adds [OF assms(3)[unfolded D_def]]
    by (auto simp: bucket_writes_def adds_def new_events_def)
  ultimately show ?thesis
    using live_delivery.instant_writes [OF assms(3) [unfolded D_def] run [unfolded D_def] assms(6,7)]
      live_delivery.instant_report [OF assms(3) [unfolded D_def] run [unfolded D_def] assms(6)]
    by (intro exI [of _ b] exI [of _ cs]) (simp add: is_final_def build_deps_def)
qed

lemma objects_come_before_every_report_witness:
  "\<exists>(b :: template_bundle) cs. concat (map (written ''out'') (take 8 (new_events ex_world ex_handled))) = planned_writes ex_request (bun_manifest b) cs \<and>
     length (planned_writes ex_request (bun_manifest b) cs) = 2"
proof -
  let ?evs = "take 8 (new_events ex_world ex_handled)"
  have call: "\<exists>ev \<in> set ?evs. is_broker ev" and two: "length (concat (map (written ''out'') ?evs)) = 2"
    unfolding ex_handled_def by code_simp+
  have ok: "res_status ex_result = SUCCESS" by code_simp
  have out: "set_output_bucket ex_settings = ''out''" by (simp add: ex_settings_def)
  obtain b :: template_bundle and cs where "concat (map (written (set_output_bucket ex_settings)) ?evs) = planned_writes ex_request (bun_manifest b) cs"
    using objects_come_before_every_report [OF ex_decode_msg ex_build [unfolded ex_deps_def] ok
        ex_handle [unfolded ex_deps_def] take_is_prefix call] by blast
  with two show ?thesis unfolding out by (intro exI [of _ b] exI [of _ cs]) simp
qed

text \<open>
  C11. A delivery whose task is cancelled, at the shutdown of \<open>main\<close> or by anyone else, settles nothing:
  the broker has taken neither an acknowledgement nor a refusal, whether or not the message
  was a request, so that it will deliver the message again.
\<close>

theorem cancelled_delivery_settles_nothing:
  fixes E pd js L sha cfg dlq maxd delay clock
  defines "D \<equiv> build_deps E pd js L sha cfg dlq maxd delay clock"
  assumes "handle_message E pd D m w = (Inl e, w')"
  shows "EvAck True \<notin> set (new_events w w') \<and> EvNak d True \<notin> set (new_events w w')"
  using assms(2) unfolding D_def by (rule live_delivery.cancelled_unsettled)

definition ex_env_cut :: env where
  "ex_env_cut = ex_env\<lparr>env_publish := (\<lambda>_ _ _ _. Inl CancelledError)\<rparr>"

lemma cancelled_delivery_settles_nothing_witness:
  "EvAck True \<notin> set (new_events ex_world (snd (handle_message ex_env_cut ex_pd (ex_deps ex_env_cut) ex_msg ex_world)))"
proof -
  let ?h = "handle_message ex_env_cut ex_pd (ex_deps ex_env_cut) ex_msg ex_world"
  have "\<not> is_ok (fst ?h)" by code_simp
  then obtain e w' where h: "?h = (Inl e, w')" by (cases ?h) (auto simp: is_ok_def split: sum.splits)
  from cancelled_delivery_settles_nothing [OF h [unfolded ex_deps_def]] h show ?thesis by simp
qed

section \<open>Over all deliveries\<close>

lemma deliver_again_Some:
  "deliver_again dp data k as = (Some j, evs) \<Longrightarrow>
   \<exists>i < length as. j = k + int i \<and> EvAck True \<in> set (attempt_calls dp data j (as ! i)) \<and>
     set (attempt_calls dp data j (as ! i)) \<subseteq> set evs"
proof (induction as arbitrary: k evs)
  case (Cons a as)
  show ?case
  proof (cases "EvAck True \<in> set (attempt_calls dp data k a)")
    case True
    then show ?thesis using Cons.prems by (intro exI [of _ 0]) (auto simp: Let_def)
  next
    case False
    then obtain rest where r: "deliver_again dp data (k + 1) as = (Some j, rest)" "evs = attempt_calls dp data k a @ rest"
      using Cons.prems by (auto simp: Let_def split: prod.splits)
    from Cons.IH [OF r(1)] r(2) show ?thesis by (force intro: exI [of _ "Suc i" for i])
  qed
qed simp

text \<open>A success that reached the broker has written the whole reference.\<close>

lemma attempt_success_writes:
  assumes dec: "decode (dp_pydantic dp) data = Some req"
    and tpl: "in_order (at_env a) (dp_pydantic dp) (at_libs a) (dp_settings dp) (req_template_uri req) tpl content L0 d0 (at_world a)"
    and built: "build_result (attempt_deps dp a) req (at_world a) = (Inr r, w1)" "res_status r = SUCCESS"
    and ack: "EvAck True \<in> set (attempt_calls dp data k a)"
  shows "reference_run L0 d0 tpl req =
    Inr (concat (map (written (set_output_bucket (dp_settings dp))) (attempt_calls dp data k a)))"
proof -
  let ?b = "set_output_bucket (dp_settings dp)"
  obtain x w' where run: "attempt_run dp data k a = (x, w')" by (cases "attempt_run dp data k a")
  have req: "handle_request (at_env a) (attempt_deps dp a) (delivered data k) req (at_world a) = (x, w')"
    using run dec by (simp add: attempt_run_def handle_message_def delivered_def)
  note p = build_result_success [OF built(1) [unfolded attempt_deps_def] built(2)]
  obtain objs where objs: "reference_run L0 d0 tpl req = Inr objs" "bucket_writes ?b w1 = bucket_writes ?b (at_world a) @ objs"
    using settled.process_request_reference(2) [OF tpl p refl refl built(2)] by blast
  have "concat (map (written ?b) (new_events (at_world a) w1)) = objs"
    using objs(2) live_delivery.build_result_adds [OF built(1) [unfolded attempt_deps_def]]
    by (auto simp: bucket_writes_def adds_def new_events_def)
  moreover have "prefix (attempt_calls dp data k a) (new_events (at_world a) w')"
    using attempt_prefix [of dp data k a] run by simp
  ultimately show ?thesis
    using live_delivery.instant_writes [OF built(1) [unfolded attempt_deps_def] req [unfolded attempt_deps_def]] ack objs(1)
    by fastforce
qed

text \<open>
  C4. Deliveries are effectively once. A message is delivered to any workers, each with its own
  surroundings, libraries, cache and moment; deliveries may fail, be cancelled, or be killed after any of
  their calls, and a put whose answer was lost may have reached the bucket all the same. Whatever all of
  them may have written is part of the one reference run, computed from the template and the data; and
  when the acknowledged delivery was a success, the bucket has every object of it.
\<close>

theorem deliveries_are_effectively_once:
  assumes "decode (dp_pydantic dp) data = Some req"
    and "\<forall>a \<in> set as.
      serves_template (at_env a) (dp_pydantic dp) (at_libs a) (dp_settings dp) (req_template_uri req) tpl content L0 d0 \<and>
      cache_ok (bun_root tpl) content (disk (at_world a))"
    and "deliver_again dp data 1 as = (acked, evs)"
  shows "(\<forall>x \<in> set (concat (map (tried (set_output_bucket (dp_settings dp))) evs)). \<exists>objs.
      reference_objects (rendered_document L0 d0 tpl req) req (bun_manifest tpl) (requested_formats req) = Inr objs \<and> x \<in> set objs) \<and>
    (\<forall>i r w1. acked = Some (1 + int i) \<longrightarrow> i < length as \<longrightarrow>
      build_result (attempt_deps dp (as ! i)) req (at_world (as ! i)) = (Inr r, w1) \<longrightarrow> res_status r = SUCCESS \<longrightarrow>
      (\<exists>objs. reference_objects (rendered_document L0 d0 tpl req) req (bun_manifest tpl) (requested_formats req) = Inr objs \<and>
        set objs = set (concat (map (written (set_output_bucket (dp_settings dp))) evs))))"
proof (intro conjI allI impI)
  let ?b = "set_output_bucket (dp_settings dp)" and ?ref = "reference_run L0 d0 tpl req"
  have tpl: "in_order (at_env a) (dp_pydantic dp) (at_libs a) (dp_settings dp) (req_template_uri req) tpl content L0 d0 (at_world a)"
    if "a \<in> set as" for a
    using assms(2) that by (simp add: in_order_def)
  have ref: "in_reference ?ref (tried ?b ev)" if ev: "ev \<in> set evs" for ev
  proof -
    from ev assms(3) obtain i where i: "i < length as" "ev \<in> set (attempt_calls dp data (1 + int i) (as ! i))"
      using deliver_again_calls [of ev dp data 1 as] by auto
    with attempt_in_reference [OF assms(1) tpl [OF nth_mem [OF i(1)]], of "1 + int i"] show ?thesis
      by (auto simp: in_reference_def)
  qed
  then show "\<forall>x \<in> set (concat (map (tried ?b) evs)). \<exists>objs. ?ref = Inr objs \<and> x \<in> set objs"
    by (auto simp: in_reference_def)
  fix i r w1
  assume a: "acked = Some (1 + int i)" "i < length as"
    "build_result (attempt_deps dp (as ! i)) req (at_world (as ! i)) = (Inr r, w1)" "res_status r = SUCCESS"
  from deliver_again_Some [OF assms(3) [unfolded a(1)]] have
    i: "EvAck True \<in> set (attempt_calls dp data (1 + int i) (as ! i))" "set (attempt_calls dp data (1 + int i) (as ! i)) \<subseteq> set evs"
    by auto
  note objs = attempt_success_writes [OF assms(1) tpl [OF nth_mem [OF a(2)]] a(3,4) i(1)]
  have "set (written ?b ev) \<subseteq> set (tried ?b ev)" for ev
    by (auto simp: written_def tried_def split: event.splits bool.splits)
  with ref objs have "set (concat (map (written ?b) evs)) \<subseteq> set (projr ?ref)"
    by (fastforce simp: in_reference_def)
  moreover have "set (projr ?ref) \<subseteq> set (concat (map (written ?b) evs))" using objs i(2) by auto
  ultimately show "\<exists>objs. ?ref = Inr objs \<and> set objs = set (concat (map (written ?b) evs))"
    using objs by auto
qed

text \<open>
  A history of three workers: one is killed after its first put; one is cancelled while it publishes;
  one, on other libraries and with the template in its cache, ends with the acknowledgement.
\<close>

definition ex_deployment :: deployment where
  "ex_deployment = \<lparr>dp_pydantic = ex_pd, dp_jsonschema = ex_js, dp_sha256 = (\<lambda>_. ''0a''), dp_settings = ex_settings,
     dp_dlq_subject = ''docgen.dlq'', dp_max_deliver = 2, dp_nak_delay = 30, dp_clock = (\<lambda>_. ''2024-01-01'')\<rparr>"

definition ex_killed :: attempt where
  "ex_killed = \<lparr>at_env = ex_env, at_libs = ex_libs_at ''1'', at_world = ex_world, at_killed = Some 6\<rparr>"

definition ex_cut :: attempt where
  "ex_cut = \<lparr>at_env = ex_env_cut, at_libs = ex_libs_at ''1'', at_world = ex_world, at_killed = None\<rparr>"

definition ex_returned :: attempt where
  "ex_returned = \<lparr>at_env = ex_env_unsigned, at_libs = ex_libs_at ''2'',
     at_world = \<lparr>trace = [], disk = ex_reference_disk\<rparr>, at_killed = None\<rparr>"

lemmas ex_attempt_defs = ex_killed_def ex_cut_def ex_returned_def

lemma ex_history:
  "fst (deliver_again ex_deployment ''{request}'' 1 [ex_killed, ex_cut, ex_returned]) = Some 3"
  "length (concat (map (written ''out'') (snd (deliver_again ex_deployment ''{request}'' 1 [ex_killed, ex_cut, ex_returned])))) = 5"
  "fst (build_result (attempt_deps ex_deployment ex_returned) ex_request (at_world ex_returned)) = Inr ex_result"
  by code_simp+

lemma deliveries_are_effectively_once_witness:
  "set (concat (map (written ''out'') (snd (deliver_again ex_deployment ''{request}'' 1 [ex_killed, ex_cut, ex_returned])))) =
   {(''t1/2024/invoice.pdf'', ''%PDF''), (''t1/2024/invoice.html'', ''<p>'')}"
proof -
  let ?as = "[ex_killed, ex_cut, ex_returned]"
  have uri: "req_template_uri ex_request = ''s3://tpl/inv/''" and ok: "res_status ex_result = SUCCESS" by code_simp+
  have dp: "dp_pydantic ex_deployment = ex_pd" "dp_settings ex_deployment = ex_settings" "set_output_bucket ex_settings = ''out''"
    by (simp_all add: ex_deployment_def ex_settings_def)
  have "serves_template (at_env a) ex_pd (at_libs a) ex_settings ''s3://tpl/inv/'' ex_bundle ex_content (ex_libs_at ''2'') ex_reference_disk \<and>
      cache_ok (bun_root ex_bundle) ex_content (disk (at_world a))" if "a \<in> set ?as" for a
    using that ex_serves_template ex_same_libraries ex_cache_ok
    by (auto simp: ex_attempt_defs quiet_def ex_env_unsigned_def ex_env_cut_def ex_env_def ex_world_def)
  then have tpl: "\<forall>a \<in> set ?as. serves_template (at_env a) (dp_pydantic ex_deployment) (at_libs a) (dp_settings ex_deployment)
        (req_template_uri ex_request) ex_bundle ex_content (ex_libs_at ''2'') ex_reference_disk \<and>
      cache_ok (bun_root ex_bundle) ex_content (disk (at_world a))"
    unfolding dp uri by blast
  have hist: "deliver_again ex_deployment ''{request}'' 1 ?as = (Some (1 + int 2), snd (deliver_again ex_deployment ''{request}'' 1 ?as))"
    using ex_history(1) by (simp add: prod_eq_iff)
  have built: "build_result (attempt_deps ex_deployment (?as ! 2)) ex_request (at_world (?as ! 2)) =
      (Inr ex_result, snd (build_result (attempt_deps ex_deployment ex_returned) ex_request (at_world ex_returned)))"
    using ex_history(3) by (simp add: prod_eq_iff)
  have dec: "decode (dp_pydantic ex_deployment) ''{request}'' = Some ex_request" unfolding dp by (rule ex_decode)
  from conjunct2 [OF deliveries_are_effectively_once [OF dec tpl hist], rule_format, OF refl _ built ok] show ?thesis
    unfolding dp ex_reference by simp
qed

text \<open>
  C2. A request is acknowledged in time. The consumer delivers once more than the handler allows; when
  the brokers take acknowledgements and at most one of the deliveries is interrupted, by a
  cancellation or by the death of its worker, the request is acknowledged, by its last allowed delivery
  when none is interrupted and by the spare one otherwise, whatever storage, rendering and publishing do.
\<close>

theorem request_acked_despite_an_interruption:
  assumes "decode (dp_pydantic dp) data = Some req" "1 \<le> dp_max_deliver dp"
    and "\<forall>a \<in> set as. \<forall>tr. env_ack (at_env a) tr = Inr ()"
    and "int (length as) = dp_max_deliver dp + 1"
    and "interrupted = filter (\<lambda>i. \<not> uninterrupted dp data (1 + int i) (as ! i)) [0..<length as]" "length interrupted \<le> 1"
  shows "\<exists>k evs. deliver_again dp data 1 as = (Some k, evs) \<and> 1 \<le> k \<and> k \<le> dp_max_deliver dp + int (length interrupted)"
proof -
  define n where "n = nat (dp_max_deliver dp)"
  have n: "int n = dp_max_deliver dp" "1 \<le> n" "length as = n + 1" using assms(2,4) by (auto simp: n_def)
  have acks: "EvAck True \<in> set (attempt_calls dp data (1 + int i) (as ! i))" if "i < length as" "n \<le> 1 + i" "i \<notin> set interrupted" for i
  proof (rule uninterrupted_final_acks [OF assms(1)])
    show "env_ack (at_env (as ! i)) tr = Inr ()" for tr using assms(3) nth_mem [OF that(1)] by blast
    show "uninterrupted dp data (1 + int i) (as ! i)" using that(1,3) by (simp add: assms(5))
    show "dp_max_deliver dp \<le> 1 + int i" using that(2) n(1) by linarith
  qed
  have "n - 1 \<noteq> n" using n(2) by simp
  then have "n - 1 \<notin> set interrupted \<or> n \<notin> set interrupted" using assms(6) by (cases interrupted) auto
  then consider "n - 1 \<notin> set interrupted" | "n - 1 \<in> set interrupted" "n \<notin> set interrupted" by blast
  then show ?thesis
  proof cases
    case 1
    with deliver_again_acked [OF _ acks, of "n - 1"] n show ?thesis by force
  next
    case 2
    then have "length interrupted = 1" using assms(6) by (cases interrupted) auto
    with 2(2) deliver_again_acked [OF _ acks, of n] n show ?thesis by force
  qed
qed

text \<open>The same deployment with an unroutable subject at first: refused, killed, acknowledged by the spare delivery.\<close>

definition ex_refused :: attempt where
  "ex_refused = \<lparr>at_env = ex_env_unroutable, at_libs = ex_libs, at_world = ex_world, at_killed = None\<rparr>"

lemma request_acked_despite_an_interruption_witness:
  "\<exists>k evs. deliver_again ex_deployment ''{request}'' 1 [ex_refused, ex_killed, ex_returned] = (Some k, evs) \<and> 1 \<le> k \<and> k \<le> 3"
proof -
  let ?as = "[ex_refused, ex_killed, ex_returned]"
  have dp: "dp_pydantic ex_deployment = ex_pd" "dp_max_deliver ex_deployment = 2" by (simp_all add: ex_deployment_def)
  have dec: "decode (dp_pydantic ex_deployment) ''{request}'' = Some ex_request" unfolding dp by (rule ex_decode)
  have ack: "\<forall>a \<in> set ?as. \<forall>tr. env_ack (at_env a) tr = Inr ()"
    by (simp add: ex_attempt_defs ex_refused_def ex_env_unroutable_def ex_env_unsigned_def ex_env_def)
  have un: "uninterrupted ex_deployment ''{request}'' 1 ex_refused" "\<not> uninterrupted ex_deployment ''{request}'' 2 ex_killed"
    "uninterrupted ex_deployment ''{request}'' 3 ex_returned"
    by code_simp+
  have "filter (\<lambda>i. \<not> uninterrupted ex_deployment ''{request}'' (1 + int i) (?as ! i)) [0..<length ?as] = [1]"
    using un by (simp add: upt_rec)
  with request_acked_despite_an_interruption [OF dec _ ack _ refl] show ?thesis unfolding dp by simp
qed

text \<open>
  One spare delivery is what there is: when both deliveries that could end the request are interrupted,
  the broker stops delivering and the request has neither been acknowledged nor dead-lettered.
\<close>

lemma two_interruptions_are_too_many:
  "fst (deliver_again ex_deployment ''{request}'' 1 [ex_refused, ex_killed, ex_cut]) = None"
  "list_all (\<lambda>ev. case ev of EvPublish s _ _ _ \<Rightarrow> s \<noteq> ''docgen.dlq'' | _ \<Rightarrow> True)
     (snd (deliver_again ex_deployment ''{request}'' 1 [ex_refused, ex_killed, ex_cut]))"
  by code_simp+

end
