(* ===== verification/Signals.thy ===== *)
theory Signals
  imports Lifecycle
begin

text \<open>
  \<open>_install_signal_handlers\<close> of \<open>worker/main.py\<close>: which handler a signal gets on which platform, and
  what the signals do to the shutdown event. The platform is a parameter: whether it is Windows,
  and the answers of \<open>loop.add_signal_handler\<close> and \<open>signal.signal\<close>. The action \<open>Signal\<close> of \<open>Lifecycle\<close> is
  the delivery of a signal that has a handler.
\<close>

section \<open>Installation\<close>

datatype signum = SIGINT | SIGTERM

text \<open>Who runs the handler: the event loop, or the interpreter between two instructions.\<close>

datatype signal_handler = InLoop | InInterpreter

record signals =
  sg_handlers :: "signum \<Rightarrow> signal_handler option"
  sg_event :: bool

record platform =
  pl_win32 :: bool
  pl_add_signal_handler :: "signum \<Rightarrow> exn + unit"
  pl_signal :: "signum \<Rightarrow> exn + unit"

definition is_NotImplementedError :: "exn \<Rightarrow> bool" where
  "is_NotImplementedError e = (case e of NotImplementedError _ \<Rightarrow> True | _ \<Rightarrow> False)"

definition register :: "exn + unit \<Rightarrow> signal_handler \<Rightarrow> signum \<Rightarrow> (signals, unit) io" where
  "register answer h sig = (\<lambda>st. case answer of
       Inl e \<Rightarrow> (Inl e, st)
     | Inr _ \<Rightarrow> (Inr (), st\<lparr>sg_handlers := (sg_handlers st)(sig \<mapsto> h)\<rparr>))"

definition add_signal_handler :: "platform \<Rightarrow> signum \<Rightarrow> (signals, unit) io" where
  "add_signal_handler P sig = register (pl_add_signal_handler P sig) InLoop sig"

definition signal_signal :: "platform \<Rightarrow> signum \<Rightarrow> (signals, unit) io" where
  "signal_signal P sig = register (pl_signal P sig) InInterpreter sig"

fun install_each :: "platform \<Rightarrow> signum list \<Rightarrow> (signals, unit) io" where
  "install_each P [] = ret ()"
| "install_each P (sig # sigs) =
     and_then (try_except (add_signal_handler P sig) is_NotImplementedError (\<lambda>_. signal_signal P sig)) (\<lambda>_.
     install_each P sigs)"

definition install_signal_handlers :: "platform \<Rightarrow> (signals, unit) io" where
  "install_signal_handlers P =
     (if pl_win32 P then and_then (signal_signal P SIGINT) (\<lambda>_. signal_signal P SIGTERM)
      else install_each P [SIGINT, SIGTERM])"

section \<open>Delivery\<close>

definition set_event :: "signals \<Rightarrow> signals" where
  "set_event st = (if \<not> sg_event st then st\<lparr>sg_event := True\<rparr> else st)"

text \<open>A signal without a handler ends the process (\<open>None\<close>), or raises \<open>KeyboardInterrupt\<close> in it.\<close>

definition deliver :: "signum \<Rightarrow> signals \<Rightarrow> signals option" where
  "deliver sig st = (case sg_handlers st sig of None \<Rightarrow> None | Some _ \<Rightarrow> Some (set_event st))"

fun delivers :: "signum list \<Rightarrow> signals \<Rightarrow> signals option" where
  "delivers [] st = Some st"
| "delivers (sig # sigs) st = (case deliver sig st of None \<Rightarrow> None | Some st' \<Rightarrow> delivers sigs st')"

definition unarmed :: signals where
  "unarmed = \<lparr>sg_handlers = (\<lambda>_. None), sg_event = False\<rparr>"

lemma register_run [io_simps]:
  "register answer h sig st =
     (case answer of Inl e \<Rightarrow> (Inl e, st) | Inr _ \<Rightarrow> (Inr (), st\<lparr>sg_handlers := (sg_handlers st)(sig \<mapsto> h)\<rparr>))"
  by (simp add: register_def)

lemma set_event_simps [simp]: "sg_event (set_event st)" "sg_handlers (set_event st) = sg_handlers st" "set_event (set_event st) = set_event st"
  by (simp_all add: set_event_def)

section \<open>Every platform is served\<close>

text \<open>
  What the documentation says: \<open>signal.signal\<close> works for both signals in the main thread, and
  \<open>add_signal_handler\<close> works or is not implemented.
\<close>

definition main_thread :: "platform \<Rightarrow> bool" where
  "main_thread P \<longleftrightarrow>
     list_all (\<lambda>sig. pl_signal P sig = Inr () \<and>
       (case pl_add_signal_handler P sig of Inr _ \<Rightarrow> True | Inl e \<Rightarrow> is_NotImplementedError e)) [SIGINT, SIGTERM]"

definition handler_on :: "platform \<Rightarrow> signum \<Rightarrow> signal_handler" where
  "handler_on P sig =
     (if pl_win32 P then InInterpreter
      else case pl_add_signal_handler P sig of Inr _ \<Rightarrow> InLoop | Inl _ \<Rightarrow> InInterpreter)"

lemma install_signal_handlers_run:
  assumes "main_thread P"
  shows "install_signal_handlers P st =
    (Inr (), st\<lparr>sg_handlers := (sg_handlers st)(SIGINT \<mapsto> handler_on P SIGINT, SIGTERM \<mapsto> handler_on P SIGTERM)\<rparr>)"
  using assms
  by (auto simp: main_thread_def install_signal_handlers_def add_signal_handler_def signal_signal_def handler_on_def
      io_simps split: sum.splits)

lemma installed_handlers:
  assumes "main_thread P" "install_signal_handlers P st = (r, st')"
  shows "sg_handlers st' sig = Some (handler_on P sig)"
  using assms by (cases sig) (auto simp: install_signal_handlers_run)

lemma delivers_armed:
  assumes "\<And>sig. sg_handlers st sig \<noteq> None"
  shows "delivers sigs st = Some (if sigs = [] then st else set_event st)"
  using assms
proof (induction sigs arbitrary: st)
  case (Cons sig sigs)
  have "deliver sig st = Some (set_event st)" using Cons.prems [of sig] by (auto simp: deliver_def)
  then show ?case using Cons.IH [of "set_event st"] Cons.prems by simp
qed simp

text \<open>
  After the installation any signals, in any number and order, leave the process alive and the
  event set; one more changes nothing.
\<close>

lemma signals_set_the_event:
  assumes "main_thread P" "install_signal_handlers P unarmed = (r, st)" "sigs \<noteq> []"
  shows "\<exists>st'. delivers sigs st = Some st' \<and> sg_event st' \<and> delivers (sigs @ later) st = Some st'"
proof -
  have armed: "\<And>sig. sg_handlers st sig \<noteq> None"
    using installed_handlers [OF assms(1,2)] by simp
  show ?thesis using delivers_armed [OF armed] assms(3) by simp
qed

text \<open>The action \<open>Signal\<close> is what a delivery does to the event that \<open>main\<close> waits for.\<close>

lemma delivery_is_the_action:
  assumes "deliver sig st = Some st'" "sg_event st = sy_shutdown s"
  shows "\<exists>s'. step Signal s = Some s' \<and> sg_event st' = sy_shutdown s' \<and> sy_phase s' = sy_phase s \<and> sy_tasks s' = sy_tasks s"
  using assms by (auto simp: deliver_def split: option.splits)

text \<open>Before it, the default disposition holds.\<close>

lemma unarmed_ends: "deliver sig unarmed = None"
  by (simp add: deliver_def unarmed_def)

end
