(* ===== verification/Smoke.thy ===== *)
theory Smoke
  imports TemplateStore ObjectStore Config
begin

text \<open>
  \<open>scripts/smoke.py\<close>: the script that sends one request to a running deployment and saves the
  artifacts of its result. Its storage calls are those of the worker's own client, on the world of
  \<open>World\<close>; its other calls are recorded beside it, and \<open>smoke_services\<close> answers them.
\<close>

section \<open>The storage client it configures\<close>

text \<open>The arguments of \<open>session.create_client("s3", ...)\<close>, here and in \<open>_client\<close>; no endpoint means AWS.\<close>

record client_options =
  co_endpoint_url :: "string option"
  co_region_name :: string
  co_access_key_id :: string
  co_secret_access_key :: string

definition client_options_of :: "app_settings \<Rightarrow> client_options" where
  "client_options_of S =
     \<lparr>co_endpoint_url = (if STORAGE_ENDPOINT S = [] then None else Some (STORAGE_ENDPOINT S)),
      co_region_name = STORAGE_REGION S, co_access_key_id = STORAGE_ACCESS_KEY S,
      co_secret_access_key = STORAGE_SECRET_KEY S\<rparr>"

section \<open>State and services\<close>

datatype smoke_call =
    CreateBucket client_options string bool
  | SmokeConnect string bool
  | SmokeSubscribe string bool
  | SmokePublish string pyval bool
  | NextMessage int bool
  | SmokeDrain bool

record smoke =
  sm_calls :: "smoke_call list"
  sm_world :: world

record smoke_services =
  ss_env :: env
  ss_create_bucket :: "smoke_call list \<Rightarrow> string \<Rightarrow> exn + unit"
  ss_connect :: "smoke_call list \<Rightarrow> exn + unit"
  ss_subscribe :: "smoke_call list \<Rightarrow> exn + unit"
  ss_publish :: "smoke_call list \<Rightarrow> exn + unit"
  ss_next_msg :: "smoke_call list \<Rightarrow> exn + bytes"
  ss_drain :: "smoke_call list \<Rightarrow> exn + unit"
  ss_iterdir :: "fs \<Rightarrow> path \<Rightarrow> string list"
  ss_loads :: "bytes \<Rightarrow> exn + pyval"

definition smoke_call :: "(smoke_call list \<Rightarrow> exn + 'a) \<Rightarrow> (bool \<Rightarrow> smoke_call) \<Rightarrow> (smoke, 'a) io" where
  "smoke_call answer c = (\<lambda>s.
     (answer (sm_calls s), s\<lparr>sm_calls := sm_calls s @ [c (is_ok (answer (sm_calls s)))]\<rparr>))"

definition on_world :: "(world, 'a) io \<Rightarrow> (smoke, 'a) io" where
  "on_world m = (\<lambda>s. case m (sm_world s) of (r, w) \<Rightarrow> (r, s\<lparr>sm_world := w\<rparr>))"

section \<open>The steps\<close>

definition smoke_prefix :: string where
  "smoke_prefix = ''billing/invoice/v1/''"

definition reply_subject :: string where
  "reply_subject = ''docgen.result.smoke''"

definition result_timeout_seconds :: int where
  "result_timeout_seconds = 60"

text \<open>\<open>_ensure_bucket\<close>: any failure is taken for an existing bucket.\<close>

definition ensure_bucket :: "smoke_services \<Rightarrow> app_settings \<Rightarrow> string \<Rightarrow> (smoke, unit) io" where
  "ensure_bucket X S name =
     suppress (smoke_call (\<lambda>cs. ss_create_bucket X cs name) (CreateBucket (client_options_of S) name))"

text \<open>\<open>_upload_template\<close>: the files of a directory, in the order in which it lists them.\<close>

fun upload_files :: "env \<Rightarrow> string \<Rightarrow> path \<Rightarrow> string list \<Rightarrow> (world, unit) io" where
  "upload_files E bucket dir [] = ret ()"
| "upload_files E bucket dir (name # names) =
     and_then (disk_read (\<lambda>d. Inr (is_file d (dir @ [name])))) (\<lambda>regular.
     and_then
       (if regular
        then and_then (disk_read (read_bytes (dir @ [name]))) (\<lambda>content.
             put_bytes E bucket (smoke_prefix @ name) content None)
        else ret ()) (\<lambda>_.
     upload_files E bucket dir names))"

definition upload_template :: "smoke_services \<Rightarrow> app_settings \<Rightarrow> path \<Rightarrow> (world, unit) io" where
  "upload_template X S fixtures =
     and_then (disk_read (\<lambda>d. Inr (ss_iterdir X d fixtures))) (\<lambda>names.
     upload_files (ss_env X) (TEMPLATES_BUCKET S) fixtures names)"

definition build_request :: "app_settings \<Rightarrow> pydict" where
  "build_request S =
     [(''request_id'', PyStr ''smoke-0001''), (''tenant_id'', PyStr ''tenant-smoke''),
      (''requested_by'', PyStr ''billing''),
      (''template'', PyDict [(''uri'', PyStr (''s3://'' @ TEMPLATES_BUCKET S @ ''/'' @ smoke_prefix))]),
      (''outputs'', PyList [PyDict [(''format'', PyStr ''pdf'')], PyDict [(''format'', PyStr ''html'')]]),
      (''data'', PyDict [(''invoice_number'', PyStr ''INV-SMOKE-1''), (''customer_name'', PyStr ''Smoke Test SA''),
         (''total'', PyFloat ''4242.0''), (''currency'', PyStr ''EUR'')]),
      (''key_prefix'', PyStr ''billing/invoices/smoke/inv-0001/''), (''reply_to'', PyStr reply_subject),
      (''options'', PyDict [(''locale'', PyStr ''fr-BE''), (''presign_ttl'', PyInt 3600)]),
      (''metadata'', PyDict [(''invoice_id'', PyStr ''smoke-invoice-1'')])]"

text \<open>\<open>uri.split("/", 3)[3]\<close>: what follows the third slash.\<close>

fun after_slashes :: "nat \<Rightarrow> string \<Rightarrow> string option" where
  "after_slashes 0 s = Some s"
| "after_slashes (Suc n) s =
     (case partition_char CHR ''/'' s of (_, True, rest) \<Rightarrow> after_slashes n rest | (_, False, _) \<Rightarrow> None)"

definition artifact_key :: "string \<Rightarrow> exn + string" where
  "artifact_key uri = (case after_slashes 3 uri of
     Some key \<Rightarrow> Inr key | None \<Rightarrow> Inl (OtherError ''list index out of range''))"

text \<open>\<open>for artifact in v\<close>, and \<open>artifact["uri"]\<close> as a text.\<close>

fun py_iter :: "pyval \<Rightarrow> exn + pyval list" where
  "py_iter (PyList xs) = Inr xs"
| "py_iter (PyDict d) = Inr (map (PyStr \<circ> fst) d)"
| "py_iter (PyStr s) = Inr (map (\<lambda>c. PyStr [c]) s)"
| "py_iter v = Inl (OtherError ''object is not iterable'')"

fun artifact_uri :: "pyval \<Rightarrow> exn + string" where
  "artifact_uri (PyDict d) = (case map_of d ''uri'' of
       Some (PyStr u) \<Rightarrow> Inr u
     | Some _ \<Rightarrow> Inl (OtherError ''object has no attribute split'')
     | None \<Rightarrow> Inl (OtherError ''uri''))"
| "artifact_uri v = Inl (OtherError ''object is not subscriptable by a string'')"

fun download_each :: "env \<Rightarrow> string \<Rightarrow> path \<Rightarrow> pyval list \<Rightarrow> (world, unit) io" where
  "download_each E bucket out [] = ret ()"
| "download_each E bucket out (artifact # artifacts) =
     and_then (lift_result (artifact_uri artifact)) (\<lambda>uri.
     and_then (lift_result (artifact_key uri)) (\<lambda>key.
     and_then (get_bytes E bucket key) (\<lambda>content.
     and_then (lift_result (resolve_under out (path_name key))) (\<lambda>target.
     and_then (disk_op (write_bytes target content)) (\<lambda>_.
     download_each E bucket out artifacts)))))"

definition download_artifacts :: "env \<Rightarrow> app_settings \<Rightarrow> pydict \<Rightarrow> path \<Rightarrow> (world, unit) io" where
  "download_artifacts E S result out =
     and_then (disk_op (mkdir_parents out)) (\<lambda>_.
     and_then (lift_result (py_iter (case map_of result ''artifacts'' of None \<Rightarrow> PyList [] | Some v \<Rightarrow> v))) (\<lambda>artifacts.
     download_each E (OUTPUT_BUCKET S) out artifacts))"

definition is_Timeout :: "exn \<Rightarrow> bool" where
  "is_Timeout e = (case e of TimeoutError _ \<Rightarrow> True | _ \<Rightarrow> False)"

definition smoke_main :: "smoke_services \<Rightarrow> app_settings \<Rightarrow> path \<Rightarrow> path \<Rightarrow> (smoke, unit) io" where
  "smoke_main X S fixtures out =
     (let drain = smoke_call (ss_drain X) SmokeDrain in
     and_then (ensure_bucket X S (TEMPLATES_BUCKET S)) (\<lambda>_.
     and_then (ensure_bucket X S (OUTPUT_BUCKET S)) (\<lambda>_.
     and_then (on_world (upload_template X S fixtures)) (\<lambda>_.
     and_then (smoke_call (ss_connect X) (SmokeConnect (NATS_URL S))) (\<lambda>_.
     and_then (smoke_call (ss_subscribe X) (SmokeSubscribe reply_subject)) (\<lambda>_.
     and_then (smoke_call (ss_publish X) (SmokePublish (DOCGEN_REQUEST_SUBJECT S) (PyDict (build_request S)))) (\<lambda>_.
     and_then
       (try_except
         (and_then (smoke_call (ss_next_msg X) (NextMessage result_timeout_seconds)) (\<lambda>data. ret (Some data)))
         is_Timeout (\<lambda>_. ret None)) (\<lambda>msg.
     case msg of
       None \<Rightarrow> drain
     | Some data \<Rightarrow>
         and_then (lift_result (ss_loads X data)) (\<lambda>result.
         case result of
           PyDict d \<Rightarrow>
             and_then
               (if map_of d ''status'' = Some (PyStr ''success'')
                then on_world (download_artifacts (ss_env X) S d out) else ret ()) (\<lambda>_.
             drain)
         | _ \<Rightarrow> raise (OtherError ''object has no attribute get''))))))))))"

section \<open>What it sends and fetches\<close>

text \<open>The worker reads the script's request as a request for two documents.\<close>

lemma smoke_request_is_accepted:
  assumes "pydantic_ok pd" "TEMPLATES_BUCKET S \<noteq> []" "CHR ''/'' \<notin> set (TEMPLATES_BUCKET S)"
  shows "\<exists>req. decode_request pd (PyDict (build_request S)) = Some req \<and> requested_formats req = [PDF, HTML] \<and>
    parse_s3_uri (req_template_uri req) = Inr (TEMPLATES_BUCKET S, smoke_prefix)"
proof -
  have uri: "parse_s3_uri (''s3://'' @ TEMPLATES_BUCKET S @ ''/'' @ smoke_prefix) = Inr (TEMPLATES_BUCKET S, smoke_prefix)"
    using assms(2,3) partition_char_append [OF assms(3), of smoke_prefix]
    by (simp add: parse_s3_uri_def startswith_def) (simp add: smoke_prefix_def strip_char_def lstrip_char_def rstrip_char_def)
  show ?thesis using assms(1) uri
    by (simp add: build_request_def pydantic_ok_def requested_formats_def reply_subject_def field_defs enum_output_format_def)
qed

text \<open>The key is recovered from the uri under which the worker reports an artifact.\<close>

lemma artifact_key_of_uri: "CHR ''/'' \<notin> set bucket \<Longrightarrow> artifact_key (object_uri bucket key) = Inr key"
  using partition_char_append [of "CHR ''/''" bucket key]
  by (simp add: artifact_key_def object_uri_def numeral_3_eq_3 partition_char_def)

lemma get_bytes_call: "get_bytes E bucket key w = (Inr c, w') \<Longrightarrow> trace w' = trace w @ [EvGet bucket key True]"
  by (auto simp: get_bytes_def classify_errors_def await_def io_simps split: prod.splits sum.splits if_splits)

text \<open>
  The artifacts of a worker's result are fetched under the keys under which they were stored,
  in their order, and nothing else is called.
\<close>

lemma download_fetches_the_keys:
  assumes "CHR ''/'' \<notin> set bucket" "map art_uri artifacts = map (object_uri bucket) keys"
    and "download_each E bucket out (map dump_artifact artifacts) w = (Inr (), w')"
  shows "trace w' = trace w @ map (\<lambda>key. EvGet bucket key True) keys"
  using assms(2,3)
proof (induction artifacts arbitrary: keys w)
  case (Cons a as)
  then obtain key ks where k: "keys = key # ks" "art_uri a = object_uri bucket key" "map art_uri as = map (object_uri bucket) ks"
    by (cases keys) auto
  have "artifact_uri (dump_artifact a) = Inr (object_uri bucket key)" using k(2) by (simp add: dump_artifact_def)
  then obtain c target w1 w2 where step: "get_bytes E bucket key w = (Inr c, w1)"
    "disk_op (write_bytes target c) w1 = (Inr (), w2)"
    and w2: "download_each E bucket out (map dump_artifact as) w2 = (Inr (), w')"
    using Cons.prems(2) artifact_key_of_uri [OF assms(1), of key] by (auto elim!: and_then_InrE)
  have "trace w2 = trace w1" using step(2) by (auto simp: disk_op_def split: sum.splits)
  with Cons.IH [OF k(3) w2] show ?case using get_bytes_call [OF step(1)] by (simp add: k(1))
qed simp

end
