(* ===== verification/Spec2Isabelle.thy ===== *)
theory Spec2Isabelle
  imports WorkerClaims PipelineClaims TemplateClaims RenderClaims PackageClaims DomainClaims ProcessClaims SharingClaims InterruptionClaims Signals Smoke
begin

text \<open>
  \<^bold>\<open>The document-generation worker.\<close> The program takes generation requests from a NATS JetStream
  consumer, fetches a template with its manifest from object storage into a local cache, validates
  the supplied data against the manifest's schema, renders every requested format in a pool of
  processes, stores the artifacts under deterministic keys, and publishes a result. Delivery is at
  least once; the dispatcher decides between acknowledging, refusing and dead-lettering. The process
  around it connects with bounded retries, reconciles its durable consumer, polls the queue depth,
  and drains its tasks on shutdown.

  \<^bold>\<open>How code is modelled.\<close> Pure functions are HOL functions. Code that awaits or raises is a function
  of type \<open>('w, 'a) io\<close>, from a state to an exception or a value and the next state, built from
  the combinators of \<open>Prelude\<close> (\<open>and_then\<close>, \<open>try_except\<close>, \<open>try_finally\<close>, \<open>suppress\<close>). Exceptions are
  values of \<open>exn\<close>; \<open>is_Exception\<close> separates what \<open>except Exception\<close> catches from a cancellation.
  Records have the fields of the source's classes, enums their members. Python's integers are \<open>int\<close>,
  its strings lists of characters, dictionaries association lists in insertion order.

  Code outside the repository is a parameter, and every call to it may succeed or raise differently
  each time: \<open>env\<close> (\<open>World\<close>) answers for object storage, broker, pool and the other tasks on the
  disk, as a function of the trace of events so far; \<open>services\<close> (\<open>Session\<close>) answers for the
  calls of the process outside a request; \<open>sdk\<close> (\<open>Telemetry\<close>) for OpenTelemetry; \<open>pydantic\<close>,
  \<open>jsonschema\<close>, \<open>libs\<close> (Jinja2, WeasyPrint, openpyxl, docxtpl, pypdf, the zip format) and \<open>nats_lib\<close> for
  the libraries; \<open>host\<close> for the files of the kernel. Hypotheses of the theorems about them are
  documented behaviour and named at the theorem; \<open>Examples\<close> and \<open>Deployment\<close> hold concrete instances
  that satisfy them, on which every such theorem is applied.

  \<^bold>\<open>Theories and sources.\<close>

    \<^item> \<open>Prelude\<close>, \<open>PyText\<close>, \<open>Numerals\<close>, \<open>FileSystem\<close>: Python values, exceptions and effects, text
      operations, reading and dividing numbers, the local disk (\<open>pathlib\<close>, \<open>tempfile\<close>, \<open>os.replace\<close>,
      \<open>shutil.rmtree\<close>) as a finite tree. \<open>World\<close>: the state of a request, disk and trace.
    \<^item> \<open>Errors\<close>, \<open>Models\<close>, \<open>Results\<close>, \<open>Ports\<close>, \<open>Orchestrator\<close>: the files of \<open>domain/\<close>. \<open>Ports\<close> states the
      interfaces of \<open>ports.py\<close> as locales; \<open>Orchestrator\<close> proves the laws of \<open>process_request\<close> in the
      locale \<open>pipeline\<close> from these contracts alone.
    \<^item> \<open>StorageClient\<close> (\<open>core/storage/client.py\<close>), \<open>ObjectStore\<close>, \<open>TemplateStore\<close>, \<open>Validator\<close>,
      \<open>NatsTransport\<close>, \<open>Renderers\<close> (\<open>adapters/\<close>: one theory per adapter; \<open>Renderers\<close> has the registry
      and the executors). The adapters interpret the locales of their ports on their own definitions.
    \<^item> \<open>RenderPaths\<close>, \<open>Ooxml\<close>, \<open>JinjaHtml\<close>, \<open>DocxRender\<close>, \<open>PdfForm\<close>, \<open>Xlsx\<close> (\<open>adapters/renderers/\<close>). A renderer
      is the sequence of commands it gives to its library.
    \<^item> \<open>Dispatcher\<close> (\<open>worker/dispatcher.py\<close>, the handling of one message), \<open>Delivery\<close> (its
      specification as an inductive outcome matrix, and the refinement), \<open>LiveWorker\<close> (the dispatcher
      on the adapters that \<open>_build_deps\<close> of \<open>worker/main.py\<close> wires, one delivery after another).
    \<^item> \<open>Config\<close> (\<open>core/config.py\<close>), \<open>Telemetry\<close> (\<open>core/logging.py\<close>, \<open>core/tracing.py\<close>), \<open>Session\<close> and
      \<open>NatsSession\<close> (\<open>core/queue/init.py\<close>), \<open>ConsumerSetup\<close> (\<open>core/queue/helper.py\<close> and \<open>subscribe\<close> of the
      dispatcher), \<open>WorkerStart\<close> (connect retry, CPU detection, pool size, the rebuilding pool of
      \<open>worker/main.py\<close>), \<open>Poller\<close> (\<open>_poll_queue_depth\<close>, \<open>core/metrics.py\<close>).
    \<^item> \<open>Lifecycle\<close>, \<open>Shutdown\<close>: \<open>main\<close> from its subscription to its end, the spawned tasks, the semaphore
      and the set \<open>inflight\<close>, as a step function over an arbitrary order of actions: what one task
      does between two awaits is one step. \<open>Signals\<close>: \<open>_install_signal_handlers\<close> on every platform. \<open>Deployment\<close>: the handler as the settings configure it.
    \<^item> \<open>Metrics\<close> (\<open>core/metrics.py\<close>: the instruments and what the handler records on them) and
      \<open>RequestContext\<close> (\<open>core/context_vars.py\<close>: the request id of the log lines, as a step function over
      interleaved handlers, each with its copy of the context or in the callback's own).
    \<^item> \<open>Smoke\<close> (\<open>scripts/smoke.py\<close>): the manual script that sends a request to a running deployment and
      fetches the artifacts of its result, on the same storage client.
    \<^item> \<open>TemplateCache\<close>, \<open>TemplateMirror\<close>, \<open>XlsxCells\<close>: the longer arguments about the cache and the cells.
      \<open>CacheSharing\<close>: rely and guarantee for fetches that share a cache directory. \<open>Reproducible\<close>:
      renders as functions of the template's directory and the data, in the locale \<open>settled_pipeline\<close>
      that extends \<open>pipeline\<close>, and the deliveries of a request compared with one reference run.
      \<open>Interruptions\<close>: a history of deliveries of one message to any workers, some of which are
      cancelled, or killed after any of their calls.

  \<^bold>\<open>What is shown.\<close> The theories named \<open>...Claims\<close> hold the properties, each numbered and stated in
  words; the numbers run over all of these theories.

    \<^item> \<open>WorkerClaims\<close>: an acknowledged success is stored, and its result was published, or on the last
      delivery could not be and the request was offered to the dead-letter subject; that both publishes
      may fail and the message still be acknowledged is an example there (\<open>acked_without_a_report\<close>). The
      broker calls of a delivery refine the outcome matrix; no exception but a cancellation leaves the
      handler; the metrics of a delivery say which calls of the broker it made.
    \<^item> \<open>PipelineClaims\<close>: what a failed run leaves in the bucket, the gates before rendering, the shape
      of every result. \<open>DomainClaims\<close>: manifests, results that are written and read back, object keys.
    \<^item> \<open>TemplateClaims\<close>: a fetch brings the template exactly, stays in the cache, and leaves nothing
      when it fails; and where the cache gets in the way.
    \<^item> \<open>SharingClaims\<close>: fetches on one cache at the same time, of the same template or of templates that
      are not nested, all end with the template, and none disturbs another; two workers, or two deliveries, of a request write the same bytes under the
      same keys.
    \<^item> \<open>InterruptionClaims\<close>: deliveries are effectively once although any of them is cancelled or killed;
      at every instant the objects come before every report; a cancelled delivery settles nothing; and a
      request is acknowledged within the consumer's bound although one delivery is interrupted. That two
      interruptions of the last two deliveries are too many is an example there.
    \<^item> \<open>RenderClaims\<close>, \<open>PackageClaims\<close>: entrypoints stay in the template, failures are classified, form
      fields, combs, blocks and cells get what manifest and data say, repacking forgets clock and order.
    \<^item> \<open>ProcessClaims\<close>: settings, session, durable consumer, start, poller, tasks and shutdown
      (what a failed drain leaves behind is an example); a broken pool is replaced; every log line
      carries the id of its own request.

  Further theorems of these files without a number are the same kind of statement for smaller
  functions (uris, classification of S3 errors, check boxes, undeclared form fields). In \<open>Smoke\<close>, the
  request of the script is one that the worker reads, and the artifacts of a result are fetched under
  the keys under which the worker stored them.

  \<^bold>\<open>Bounds, loops and fuel.\<close> The loops over lists and the text scanners terminate by structure or a
  measure. The only loop of the program that may run for ever is the poller's, a partial function
  whose result is shown to exist once the shutdown event is set. \<open>redeliver\<close> stands for the broker and
  has fuel, the consumer's \<open>max_deliver\<close>; the theorems show that any fuel above the handler's bound
  is enough, and that the subscription stores such a bound. \<open>deliver_again\<close> is the broker with one
  entry of a list per delivery, as many as the consumer allows, one more than the handler. The connect loop runs over its ten
  attempts. The steps of \<open>Lifecycle\<close> need no bound: invariants hold in every reachable state. That the
  shutdown ends is a statement about all endless runs: with weak fairness towards \<open>main\<close> and the
  callbacks, the only assumption about the scheduler, and finitely many further messages, every run
  reaches the end, and the steps that \<open>main\<close> and the callbacks take to it are bounded by a measure
  (\<open>ahead\<close>) that each of them decreases and only an arriving message increases.
  \<open>int(text)\<close> has the interpreter's limit of 4300 digits, and the quotient of two integers is the
  correctly rounded double of 53 bits, so that the floor the code takes is exact below that size.

  \<^bold>\<open>Read off the libraries' documentation\<close> and built into the steps of \<open>Lifecycle\<close>: draining a
  subscription hands every buffered message to the callback before it returns; \<open>asyncio.wait\<close>
  with a timeout returns the unfinished tasks; a cancelled task ends at some later step and leaves
  the semaphore on its way out. \<open>main\<close> itself is not cancelled: the signals set an event instead.

  \<^bold>\<open>Interleaving.\<close> In a request (\<open>World\<close>), the other tasks of the process and the other processes on
  the same disk run where the request awaits the bucket, the pool or the broker, and in \<open>_publish\<close>
  between the test for the directory and the rename, whose race the code handles. They are arbitrary
  functions on the disk; \<open>CacheSharing\<close> restricts them to what a fetch relies on and shows that other
  fetches keep to it. In \<open>Lifecycle\<close> and \<open>RequestContext\<close> one step is what a task does between two awaits.

  \<^bold>\<open>Not modelled.\<close> The texts of single log lines; the callbacks of the NATS connection, which only
  log; the warm-up import in a pool process; the interpretation of JSON, templates, workbooks, forms and stylesheets by the
  libraries; reading the environment into the settings; the tests.
\<close>

end
